(* ===== verification/Prelude.thy ===== *)
theory Prelude
  imports Complex_Main "HOL-Library.AList" "HOL-Library.Word"
begin

text \<open>
  The vocabulary the component theories share: the Python values the SDK handles (strings over
  the Latin-1 code points, bytes, JSON values with ordered objects), the exceptions it raises,
  and the string methods of the standard library it calls.
  A raise is the left summand of a result, a normal return the right one.
\<close>

section \<open>Collections of rewrite rules\<close>

named_theorems py_simps \<open>equations of the standard-library operations\<close>
named_theorems guard_simps \<open>characterisations of validated values\<close>
named_theorems inv_intros \<open>invariant preservation, one rule per operation\<close>

section \<open>Bytes, results and exceptions\<close>

type_synonym byte = "8 word"

text \<open>
  \<open>StructError\<close> is \<open>struct.error\<close>. \<open>ProtocolError\<close> is the subclass of \<open>ValueError\<close>
  declared in \<open>tunnel_protocol.py\<close>.
\<close>

datatype py_exc =
    ValueError string
  | TypeError string
  | RuntimeError string
  | KeyError string
  | ProtocolError string
  | AttributeError string
  | StructError
  | AssertionError

type_synonym 'a result = "py_exc + 'a"

definition bind_result :: "'e + 'a \<Rightarrow> ('a \<Rightarrow> 'e + 'b) \<Rightarrow> 'e + 'b" where
  "bind_result r f = (case r of Inl e \<Rightarrow> Inl e | Inr x \<Rightarrow> f x)"

lemma bind_result_simps [simp]:
  "bind_result (Inl e) f = Inl e"
  "bind_result (Inr x) f = f x"
  by (simp_all add: bind_result_def)

lemma bind_result_eq_Inr:
  "bind_result r f = Inr y \<longleftrightarrow> (\<exists>x. r = Inr x \<and> f x = Inr y)"
  by (cases r) auto

lemma bind_result_eq_Inl:
  "bind_result r f = Inl e \<longleftrightarrow> r = Inl e \<or> (\<exists>x. r = Inr x \<and> f x = Inl e)"
  by (cases r) auto

lemma if_Inl_eq_Inr:
  "(if c then Inl e else x) = Inr y \<longleftrightarrow> \<not> c \<and> x = Inr y"
  by simp

lemma option_Inl_eq_Inr:
  "(case v of None \<Rightarrow> Inl e | Some x \<Rightarrow> f x) = Inr y \<longleftrightarrow> (\<exists>x. v = Some x \<and> f x = Inr y)"
  by (cases v) auto

lemmas result_simps = bind_result_eq_Inr if_Inl_eq_Inr option_Inl_eq_Inr

text \<open>A comprehension whose element expression may raise: the first error wins.\<close>

fun map_result :: "('a \<Rightarrow> 'e + 'b) \<Rightarrow> 'a list \<Rightarrow> 'e + 'b list" where
  "map_result f [] = Inr []"
| "map_result f (x # xs) =
     bind_result (f x) (\<lambda>y. bind_result (map_result f xs) (\<lambda>ys. Inr (y # ys)))"

lemma map_result_eq_Inr:
  "map_result f xs = Inr ys \<longleftrightarrow> list_all2 (\<lambda>x y. f x = Inr y) xs ys"
proof (induction xs arbitrary: ys)
  case Nil
  then show ?case by auto
next
  case (Cons x xs)
  then show ?case by (cases ys) (auto simp: bind_result_eq_Inr)
qed

lemma map_result_all_Inr:
  "(\<And>x. x \<in> set xs \<Longrightarrow> f x = Inr (g x)) \<Longrightarrow> map_result f xs = Inr (map g xs)"
  by (induction xs) auto

text \<open>The process environment is a map from names to values.\<close>

type_synonym env = "string \<rightharpoonup> string"

section \<open>JSON values\<close>

text \<open>
  What \<open>json.loads\<close> returns and \<open>json.dumps\<close> takes. An object is an association list in
  insertion order, updated like a \<open>dict\<close> by \<open>AList.update\<close> (in place for a known key, at
  the end for a new one).
\<close>

datatype json =
    JNull
  | JBool bool
  | JInt int
  | JFloat rat
  | JStr string
  | JList "json list"
  | JObj "(string \<times> json) list"

type_synonym jobj = "(string \<times> json) list"

text \<open>\<open>o.get(k)\<close>, and \<open>o.get(k, d)\<close>.\<close>

definition jget :: "jobj \<Rightarrow> string \<Rightarrow> json" where
  "jget ob k = (case map_of ob k of None \<Rightarrow> JNull | Some v \<Rightarrow> v)"

definition jget_or :: "jobj \<Rightarrow> string \<Rightarrow> json \<Rightarrow> json" where
  "jget_or ob k d = (case map_of ob k of None \<Rightarrow> d | Some v \<Rightarrow> v)"

text \<open>Truth value testing.\<close>

fun truthy :: "json \<Rightarrow> bool" where
  "truthy JNull = False"
| "truthy (JBool b) = b"
| "truthy (JInt n) = (n \<noteq> 0)"
| "truthy (JFloat q) = (q \<noteq> 0)"
| "truthy (JStr s) = (s \<noteq> [])"
| "truthy (JList xs) = (xs \<noteq> [])"
| "truthy (JObj ob) = (ob \<noteq> [])"

text \<open>\<open>a or b\<close>.\<close>

definition jor :: "json \<Rightarrow> json \<Rightarrow> json" where
  "jor a b = (if truthy a then a else b)"

text \<open>
  \<open>isinstance(x, int)\<close> holds for booleans too: \<open>bool\<close> is a subclass of \<open>int\<close> with
  \<open>True == 1\<close>. \<open>as_int\<close> is the integer value where that test succeeds;
  \<open>as_strict_int\<close> is the test \<open>isinstance(x, int) and not isinstance(x, bool)\<close>.
\<close>

fun as_int :: "json \<Rightarrow> int option" where
  "as_int (JInt n) = Some n"
| "as_int (JBool b) = Some (if b then 1 else 0)"
| "as_int _ = None"

fun as_strict_int :: "json \<Rightarrow> int option" where
  "as_strict_int (JInt n) = Some n"
| "as_strict_int _ = None"

fun as_str :: "json \<Rightarrow> string option" where
  "as_str (JStr s) = Some s"
| "as_str _ = None"

fun as_obj :: "json \<Rightarrow> jobj option" where
  "as_obj (JObj ob) = Some ob"
| "as_obj _ = None"

lemma as_Some [simp]:
  "as_strict_int v = Some n \<longleftrightarrow> v = JInt n"
  "as_str v = Some s \<longleftrightarrow> v = JStr s"
  "as_obj v = Some ob \<longleftrightarrow> v = JObj ob"
  by (cases v; simp)+

lemma jget_update [simp]:
  "jget (AList.update k v ob) k' = (if k = k' then v else jget ob k')"
  by (simp add: jget_def update_conv)

lemma in_set_update:
  assumes "distinct (map fst al)"
  shows "(k', v') \<in> set (AList.update k v al) \<longleftrightarrow> (if k' = k then v' = v else (k', v') \<in> set al)"
proof -
  have "(k', v') \<in> set (AList.update k v al) \<longleftrightarrow> map_of (AList.update k v al) k' = Some v'"
    using assms by (simp add: distinct_update)
  then show ?thesis using assms by (auto simp: update_conv)
qed

lemma jget_Nil [simp]: "jget [] k = JNull"
  by (simp add: jget_def)

lemma jget_Cons [simp]: "jget ((k, v) # ob) k' = (if k = k' then v else jget ob k')"
  by (simp add: jget_def)

text \<open>Iterating a value: a list's items, an object's keys, a string's characters.\<close>

fun py_iter :: "json \<Rightarrow> json list result" where
  "py_iter (JList xs) = Inr xs"
| "py_iter (JObj ob) = Inr (map (JStr \<circ> fst) ob)"
| "py_iter (JStr s) = Inr (map (\<lambda>c. JStr [c]) s)"
| "py_iter _ = Inl (TypeError ''object is not iterable'')"

text \<open>\<open>tuple(dict.fromkeys(xs))\<close>: duplicates dropped, first occurrences kept in order.\<close>

definition py_unique :: "'a list \<Rightarrow> 'a list" where
  "py_unique xs = rev (remdups (rev xs))"

lemma py_unique_props [simp]:
  "distinct (py_unique xs)" "set (py_unique xs) = set xs" "py_unique xs = [] \<longleftrightarrow> xs = []"
  by (simp_all add: py_unique_def)

lemma py_unique_distinct: "distinct xs \<Longrightarrow> py_unique xs = xs"
  by (simp add: py_unique_def distinct_remdups_id)

section \<open>Validation that normalises\<close>

text \<open>
  Most of the SDK's checks return a cleaned value. \<open>norm\<close> may raise; \<open>embed\<close> reads a cleaned
  value as an input again. Cleaning a cleaned value changes nothing.
\<close>

locale normaliser =
  fixes norm :: "'a \<Rightarrow> 'e + 'b" and embed :: "'b \<Rightarrow> 'a"
  assumes norm_embed: "norm x = Inr y \<Longrightarrow> norm (embed y) = Inr y"
begin

definition normal :: "'b \<Rightarrow> bool" where
  "normal y \<longleftrightarrow> norm (embed y) = Inr y"

lemma norm_normal: "norm x = Inr y \<Longrightarrow> normal y"
  unfolding normal_def by (rule norm_embed)

lemma normal_iff: "normal y \<longleftrightarrow> (\<exists>x. norm x = Inr y)"
  unfolding normal_def by (blast intro: norm_embed)

lemma norm_twice: "norm x = Inr y \<Longrightarrow> norm (embed y) = Inr z \<Longrightarrow> z = y"
  by (drule norm_embed) simp

end

section \<open>String methods\<close>

text \<open>
  \<open>str.isspace\<close> and \<open>str.lower\<close> on the code points below 256.
\<close>

definition py_isspace :: "char \<Rightarrow> bool" where
  "py_isspace c =
     (let n = of_char c :: nat in (9 \<le> n \<and> n \<le> 13) \<or> (28 \<le> n \<and> n \<le> 32) \<or> n = 133 \<or> n = 160)"

definition lower_char :: "char \<Rightarrow> char" where
  "lower_char c =
     (let n = of_char c :: nat
      in if (65 \<le> n \<and> n \<le> 90) \<or> (192 \<le> n \<and> n \<le> 222 \<and> n \<noteq> 215) then char_of (n + 32) else c)"

definition py_lower :: "string \<Rightarrow> string" where
  "py_lower s = map lower_char s"

definition lstrip_by :: "('a \<Rightarrow> bool) \<Rightarrow> 'a list \<Rightarrow> 'a list" where
  "lstrip_by p s = dropWhile p s"

definition rstrip_by :: "('a \<Rightarrow> bool) \<Rightarrow> 'a list \<Rightarrow> 'a list" where
  "rstrip_by p s = rev (dropWhile p (rev s))"

definition strip_by :: "('a \<Rightarrow> bool) \<Rightarrow> 'a list \<Rightarrow> 'a list" where
  "strip_by p s = rstrip_by p (lstrip_by p s)"

abbreviation py_strip :: "string \<Rightarrow> string" where
  "py_strip \<equiv> strip_by py_isspace"

definition starts_with :: "'a list \<Rightarrow> 'a list \<Rightarrow> bool" where
  "starts_with p s = (take (length p) s = p)"

definition ends_with :: "'a list \<Rightarrow> 'a list \<Rightarrow> bool" where
  "ends_with p s = starts_with (rev p) (rev s)"

text \<open>\<open>p in s\<close> for strings.\<close>

fun occurs_in :: "'a list \<Rightarrow> 'a list \<Rightarrow> bool" where
  "occurs_in p [] = (p = [])"
| "occurs_in p (c # s) \<longleftrightarrow> starts_with p (c # s) \<or> occurs_in p s"

text \<open>\<open>s.replace(old, new)\<close> for a non-empty \<open>old\<close>: left to right, without overlap.\<close>

function py_replace :: "'a list \<Rightarrow> 'a list \<Rightarrow> 'a list \<Rightarrow> 'a list" where
  "py_replace old new [] = []"
| "py_replace old new (c # s) =
     (if old \<noteq> [] \<and> starts_with old (c # s)
      then new @ py_replace old new (drop (length old) (c # s))
      else c # py_replace old new s)"
  by pat_completeness auto
termination
proof (relation "measure (\<lambda>(old, new, s). length s)")
  fix old new :: "'a list" and c :: 'a and s :: "'a list"
  assume "old \<noteq> [] \<and> starts_with old (c # s)"
  then have "0 < length old" by simp
  then have "length (drop (length old) (c # s)) < length (c # s)" by simp
  then show "((old, new, drop (length old) (c # s)), (old, new, c # s))
      \<in> measure (\<lambda>(old, new, s). length s)" by simp
qed auto

text \<open>\<open>s.split(sep)\<close> for a one-character separator.\<close>

fun split_on :: "'a \<Rightarrow> 'a list \<Rightarrow> 'a list list" where
  "split_on d [] = [[]]"
| "split_on d (c # s) =
     (if c = d then [] # split_on d s
      else (case split_on d s of [] \<Rightarrow> [[c]] | w # ws \<Rightarrow> (c # w) # ws))"

text \<open>\<open>sep.join(ws)\<close>.\<close>

fun join_with :: "'a list \<Rightarrow> 'a list list \<Rightarrow> 'a list" where
  "join_with sep [] = []"
| "join_with sep [w] = w"
| "join_with sep (w # v # ws) = w @ sep @ join_with sep (v # ws)"

lemma split_on_not_Nil [simp]: "split_on d s \<noteq> []"
  by (induction s) (auto split: list.splits)

lemma join_split: "join_with [d] (split_on d s) = s"
proof (induction s)
  case Nil
  then show ?case by simp
next
  case (Cons c s)
  obtain w ws where eq: "split_on d s = w # ws" by (cases "split_on d s") auto
  with Cons.IH show ?case by (cases ws) auto
qed

lemma split_on_no_sep: "w \<in> set (split_on d s) \<Longrightarrow> d \<notin> set w"
proof (induction s arbitrary: w)
  case Nil
  then show ?case by simp
next
  case (Cons c s)
  obtain v vs where "split_on d s = v # vs" by (cases "split_on d s") auto
  with Cons show ?case by (auto split: if_splits)
qed

lemma split_on_chars: "w \<in> set (split_on d s) \<Longrightarrow> set w \<subseteq> set s"
proof (induction s arbitrary: w)
  case Nil
  then show ?case by simp
next
  case (Cons c s)
  obtain v vs where "split_on d s = v # vs" by (cases "split_on d s") auto
  with Cons.IH have v: "set v \<subseteq> set s" and vs: "\<And>w. w \<in> set vs \<Longrightarrow> set w \<subseteq> set s"
    by auto
  from Cons.prems \<open>split_on d s = v # vs\<close> consider "w = []" | "w = c # v" | "w = v" | "w \<in> set vs"
    by (auto split: if_splits)
  then show ?case using v vs by cases auto
qed

lemma set_split_on: "set s \<subseteq> insert d (\<Union> (set ` set (split_on d s)))"
proof (induction s)
  case (Cons c s)
  obtain v vs where "split_on d s = v # vs" by (cases "split_on d s") auto
  with Cons show ?case by auto
qed simp

lemma split_on_single: "d \<notin> set s \<Longrightarrow> split_on d s = [s]"
  by (induction s) auto

lemma split_on_append: "d \<notin> set u \<Longrightarrow> split_on d (u @ d # s) = u # split_on d s"
  by (induction u) auto

lemma starts_with_iff: "starts_with p s \<longleftrightarrow> (\<exists>t. s = p @ t)"
  unfolding starts_with_def by (metis append_eq_conv_conj append_take_drop_id)

lemma starts_with_append [simp]: "starts_with p (p @ s)"
  by (auto simp: starts_with_iff)

lemma starts_with_Cons [simp]:
  "starts_with (c # p) (d # s) \<longleftrightarrow> c = d \<and> starts_with p s"
  "starts_with [] s" "\<not> starts_with (c # p) []"
  by (auto simp: starts_with_def)

lemma ends_with_iff: "ends_with p s \<longleftrightarrow> (\<exists>t. s = t @ p)"
  by (simp add: ends_with_def starts_with_iff) (metis rev_append rev_rev_ident)

lemma occurs_in_append: "occurs_in p t \<Longrightarrow> occurs_in p (u @ t)"
  by (induction u) auto

lemma py_replace_absent [simp]:
  "old \<noteq> [] \<Longrightarrow> hd old \<notin> set s \<Longrightarrow> py_replace old new s = s"
proof (induction s)
  case Nil
  then show ?case by simp
next
  case (Cons c s)
  then have "\<not> starts_with old (c # s)" by (cases old) auto
  with Cons show ?case by simp
qed

lemma dropWhile_id: "s = [] \<or> \<not> p (hd s) \<Longrightarrow> dropWhile p s = s"
  by (cases s) auto

lemma strip_by_id:
  "s = [] \<or> (\<not> p (hd s) \<and> \<not> p (last s)) \<Longrightarrow> strip_by p s = s"
  by (auto simp: strip_by_def lstrip_by_def rstrip_by_def dropWhile_id hd_rev)

lemma strip_by_none: "(\<And>c. c \<in> set s \<Longrightarrow> \<not> p c) \<Longrightarrow> strip_by p s = s"
  by (rule strip_by_id) (cases "s = []", auto)

lemma rstrip_by_ends: "rstrip_by p s = [] \<or> \<not> p (last (rstrip_by p s))"
proof (cases "dropWhile p (rev s) = []")
  case True
  then show ?thesis by (simp add: rstrip_by_def)
next
  case False
  then have "\<not> p (hd (dropWhile p (rev s)))" by (rule hd_dropWhile)
  with False show ?thesis by (simp add: rstrip_by_def last_rev)
qed

lemma rstrip_by_prefix: "\<exists>t. s = rstrip_by p s @ t \<and> (\<forall>c\<in>set t. p c)"
proof -
  have "rev s = takeWhile p (rev s) @ dropWhile p (rev s)" by simp
  then have "s = rev (dropWhile p (rev s)) @ rev (takeWhile p (rev s))"
    by (metis rev_append rev_rev_ident)
  then show ?thesis
    by (intro exI [of _ "rev (takeWhile p (rev s))"]) (auto simp: rstrip_by_def dest: set_takeWhileD)
qed

lemma rstrip_by_hd: "rstrip_by p s \<noteq> [] \<Longrightarrow> hd (rstrip_by p s) = hd s"
  by (metis rstrip_by_prefix hd_append2)

lemma strip_by_ends:
  "strip_by p s = [] \<or> (\<not> p (hd (strip_by p s)) \<and> \<not> p (last (strip_by p s)))"
proof (cases "strip_by p s = []")
  case True
  then show ?thesis by simp
next
  case False
  then have "hd (strip_by p s) = hd (dropWhile p s)"
    by (simp add: strip_by_def lstrip_by_def rstrip_by_hd)
  moreover have "dropWhile p s \<noteq> []"
    using False by (intro notI) (simp add: strip_by_def lstrip_by_def rstrip_by_def)
  ultimately have "\<not> p (hd (strip_by p s))" using hd_dropWhile by metis
  moreover have "\<not> p (last (strip_by p s))"
    using False rstrip_by_ends by (metis strip_by_def)
  ultimately show ?thesis by simp
qed

lemma strip_by_idem [simp]: "strip_by p (strip_by p s) = strip_by p s"
  using strip_by_ends by (rule strip_by_id)

lemma set_rstrip_by: "set (rstrip_by p s) \<subseteq> set s"
  by (auto simp: rstrip_by_def dest: set_dropWhileD)

lemma set_strip_by: "set (strip_by p s) \<subseteq> set s"
proof -
  have "set (dropWhile p s) \<subseteq> set s" by (auto dest: set_dropWhileD)
  then show ?thesis using set_rstrip_by by (fastforce simp: strip_by_def lstrip_by_def)
qed

end
