(* ===== verification/Bytes.thy ===== *)
theory Bytes
  imports Prelude "HOL-Library.Word"
begin

text \<open>
  Positional notation, the part of \<open>struct\<close>, \<open>int.to_bytes\<close>, \<open>bytes.hex\<close>, \<open>str(int)\<close> and
  \<open>uuid\<close> of the standard library that the SDK uses. A number of a fixed number of digits in
  base \<open>b\<close>, most significant digit first, and its value; the two are inverse. Bytes are the
  base-256 digits as words, hexadecimal text the base-16 digits as characters.
\<close>

section \<open>Digits\<close>

fun be_digits :: "nat \<Rightarrow> nat \<Rightarrow> nat \<Rightarrow> nat list" where
  "be_digits b 0 n = []"
| "be_digits b (Suc k) n = be_digits b k (n div b) @ [n mod b]"

lemma be_digits_numeral [py_simps]:
  "be_digits b (numeral k) n = be_digits b (pred_numeral k) (n div b) @ [n mod b]"
  by (simp add: numeral_eq_Suc)

definition be_value :: "nat \<Rightarrow> nat list \<Rightarrow> nat" where
  "be_value b ds = foldl (\<lambda>acc d. acc * b + d) 0 ds"

lemma be_value_simps [simp]:
  "be_value b [] = 0"
  "be_value b (ds @ [d]) = be_value b ds * b + d"
  by (simp_all add: be_value_def)

lemma length_be_digits [simp]: "length (be_digits b k n) = k"
  by (induction k arbitrary: n) auto

lemma be_digits_less: "0 < b \<Longrightarrow> d \<in> set (be_digits b k n) \<Longrightarrow> d < b"
  by (induction k arbitrary: n) auto

lemma be_value_digits: "be_value b (be_digits b k n) = n mod b ^ k"
proof (induction k arbitrary: n)
  case 0
  then show ?case by simp
next
  case (Suc k)
  then show ?case by (simp add: mod_mult2_eq)
qed

lemma be_value_less: "(\<And>d. d \<in> set ds \<Longrightarrow> d < b) \<Longrightarrow> be_value b ds < b ^ length ds"
proof (induction ds rule: rev_induct)
  case Nil
  then show ?case by simp
next
  case (snoc d ds)
  then have "be_value b ds < b ^ length ds" and "d < b" by simp_all
  then have "be_value b ds * b + d < (be_value b ds + 1) * b" by simp
  also have "\<dots> \<le> b ^ length ds * b"
    using \<open>be_value b ds < b ^ length ds\<close> by (intro mult_le_mono1) simp
  finally show ?case by (simp add: mult.commute)
qed

lemma be_digits_value:
  "(\<And>d. d \<in> set ds \<Longrightarrow> d < b) \<Longrightarrow> be_digits b (length ds) (be_value b ds) = ds"
proof (induction ds rule: rev_induct)
  case Nil
  then show ?case by simp
next
  case (snoc d ds)
  then have "d < b" by simp
  then have "(be_value b ds * b + d) div b = be_value b ds" by simp
  with snoc \<open>d < b\<close> show ?case by simp
qed

section \<open>Big-endian bytes\<close>

definition be_bytes :: "nat \<Rightarrow> nat \<Rightarrow> byte list" where
  "be_bytes k n = map word_of_nat (be_digits 256 k n)"

definition bytes_value :: "byte list \<Rightarrow> nat" where
  "bytes_value bs = be_value 256 (map unat bs)"

lemma length_be_bytes [simp]: "length (be_bytes k n) = k"
  by (simp add: be_bytes_def)

lemma unat_byte_less: "unat (x :: byte) < 256"
  using unsigned_less [of x] by simp

lemma map_unat_word_of_nat:
  assumes "\<And>d. d \<in> set ds \<Longrightarrow> d < 256"
  shows "map (unat \<circ> (word_of_nat :: nat \<Rightarrow> byte)) ds = ds"
  using assms by (intro map_idI) (simp add: unat_of_nat)

lemma bytes_value_be_bytes: "bytes_value (be_bytes k n) = n mod 256 ^ k"
proof -
  have "map unat (be_bytes k n) = be_digits 256 k n"
    using map_unat_word_of_nat [of "be_digits 256 k n"] be_digits_less [of 256 _ k n]
    by (simp add: be_bytes_def)
  then show ?thesis by (simp add: bytes_value_def be_value_digits)
qed

lemma bytes_value_less: "bytes_value bs < 256 ^ length bs"
  using be_value_less [of "map unat bs" 256] unat_byte_less by (auto simp: bytes_value_def)

lemma be_bytes_value: "be_bytes (length bs) (bytes_value bs) = bs"
proof -
  have "be_digits 256 (length bs) (bytes_value bs) = map unat bs"
    using be_digits_value [of "map unat bs" 256] unat_byte_less by (auto simp: bytes_value_def)
  then show ?thesis by (simp add: be_bytes_def map_idI)
qed

section \<open>Hexadecimal text\<close>

definition hex_digits :: string where
  "hex_digits = ''0123456789abcdef''"

definition hex_char :: "nat \<Rightarrow> char" where
  "hex_char d = hex_digits ! d"

text \<open>The value of a hexadecimal digit of either case, as \<open>int(\<dots>, 16)\<close> reads it.\<close>

definition hex_val :: "char \<Rightarrow> nat option" where
  "hex_val c =
     (let n = of_char c :: nat
      in if 48 \<le> n \<and> n \<le> 57 then Some (n - 48)
         else if 97 \<le> n \<and> n \<le> 102 then Some (n - 87)
         else if 65 \<le> n \<and> n \<le> 70 then Some (n - 55)
         else None)"

lemma less_16_cases:
  "(d :: nat) < 16 \<Longrightarrow> d \<in> {0, 1, 2, 3, 4, 5, 6, 7, 8, 9, 10, 11, 12, 13, 14, 15}"
  by (simp add: eval_nat_numeral less_Suc_eq)

lemma hex_val_hex_char [simp]: "d < 16 \<Longrightarrow> hex_val (hex_char d) = Some d"
  by (drule less_16_cases) (auto simp: hex_val_def hex_char_def hex_digits_def Let_def)

lemma hex_char_in: "d < 16 \<Longrightarrow> hex_char d \<in> set hex_digits"
  unfolding hex_char_def by (rule nth_mem) (simp add: hex_digits_def)

lemma hex_val_less: "hex_val c = Some d \<Longrightarrow> d < 16"
  by (auto simp: hex_val_def Let_def split: if_splits)

fun all_some :: "'a option list \<Rightarrow> 'a list option" where
  "all_some [] = Some []"
| "all_some (None # xs) = None"
| "all_some (Some x # xs) = map_option ((#) x) (all_some xs)"

lemma all_some_map_Some [simp]: "all_some (map (\<lambda>x. Some (f x)) xs) = Some (map f xs)"
  by (induction xs) auto

lemma all_some_length: "all_some xs = Some ys \<Longrightarrow> length ys = length xs"
  by (induction xs arbitrary: ys rule: all_some.induct) auto

lemma all_some_set: "all_some xs = Some ys \<Longrightarrow> y \<in> set ys \<Longrightarrow> Some y \<in> set xs"
  by (induction xs arbitrary: ys rule: all_some.induct) auto

section \<open>\<open>int(s, 16)\<close>\<close>

text \<open>
  Digits with single underscores between them (\<open>underscored\<close>), an optional sign, an optional
  \<open>0x\<close> prefix that one underscore may follow, and surrounding blanks.
\<close>

definition int_space :: "char \<Rightarrow> bool" where
  "int_space c = (let n = of_char c :: nat in (9 \<le> n \<and> n \<le> 13) \<or> n = 32 \<or> n = 133 \<or> n = 160)"

fun underscored :: "string \<Rightarrow> string option" where
  "underscored [] = None"
| "underscored [c] = (if c = CHR ''_'' then None else Some [c])"
| "underscored (c # d # s) =
     (if c = CHR ''_'' then None
      else if d = CHR ''_'' then map_option ((#) c) (underscored s)
      else map_option ((#) c) (underscored (d # s)))"

definition int16_digits :: "string \<Rightarrow> nat option" where
  "int16_digits s =
     (case underscored s of None \<Rightarrow> None
      | Some t \<Rightarrow> map_option (be_value 16) (all_some (map hex_val t)))"

definition drop_0x :: "string \<Rightarrow> string" where
  "drop_0x s =
     (if starts_with ''0x'' s \<or> starts_with ''0X'' s
      then (if starts_with ''_'' (drop 2 s) then drop 3 s else drop 2 s)
      else s)"

definition py_int16 :: "string \<Rightarrow> int option" where
  "py_int16 s =
     (let t = strip_by int_space s
      in if starts_with ''-'' t then map_option (\<lambda>n. - int n) (int16_digits (drop_0x (tl t)))
         else if starts_with ''+'' t then map_option int (int16_digits (drop_0x (tl t)))
         else map_option int (int16_digits (drop_0x t)))"

lemma underscored_plain:
  "s \<noteq> [] \<Longrightarrow> CHR ''_'' \<notin> set s \<Longrightarrow> underscored s = Some s"
  by (induction s rule: underscored.induct) auto

lemma py_int16_plain:
  assumes "s \<noteq> []" and sub: "set s \<subseteq> set hex_digits"
  shows "py_int16 s = map_option (int \<circ> be_value 16) (all_some (map hex_val s))"
proof -
  have no: "c \<notin> set s" if "c \<notin> set hex_digits" for c using that sub by auto
  have "\<not> int_space c" if "c \<in> set s" for c
    using that sub by (auto simp: hex_digits_def int_space_def)
  then have strip: "strip_by int_space s = s" by (rule strip_by_none)
  have "\<not> starts_with (c # t) s" if "c \<notin> set hex_digits" for c t
    using no [OF that] \<open>s \<noteq> []\<close> by (cases s) auto
  moreover have "\<not> starts_with [CHR ''0'', c] s" if "c \<notin> set hex_digits" for c
  proof
    assume "starts_with [CHR ''0'', c] s"
    then obtain t where "s = CHR ''0'' # c # t" by (auto simp: starts_with_iff)
    then have "c \<in> set s" by simp
    with no [OF that] show False by simp
  qed
  ultimately have "\<not> starts_with ''-'' s" "\<not> starts_with ''+'' s" "drop_0x s = s"
    by (auto simp: hex_digits_def drop_0x_def)
  moreover have "underscored s = Some s"
    using \<open>s \<noteq> []\<close> no by (intro underscored_plain) (auto simp: hex_digits_def)
  ultimately show ?thesis
    by (simp add: py_int16_def strip int16_digits_def option.map_comp comp_def)
qed

section \<open>\<open>str(n)\<close> and \<open>int(s)\<close> for decimal digits\<close>

fun dec_digits :: "nat \<Rightarrow> string" where
  "dec_digits n = (if n < 10 then [char_of (48 + n)] else dec_digits (n div 10) @ [char_of (48 + n mod 10)])"

declare dec_digits.simps [simp del]

definition str_nat :: "nat \<Rightarrow> string" where
  "str_nat n = dec_digits n"

definition str_int :: "int \<Rightarrow> string" where
  "str_int n = (if n < 0 then CHR ''-'' # dec_digits (nat (- n)) else dec_digits (nat n))"

definition is_dec_digit :: "char \<Rightarrow> bool" where
  "is_dec_digit c = (48 \<le> (of_char c :: nat) \<and> (of_char c :: nat) \<le> 57)"

definition dec_value :: "string \<Rightarrow> nat" where
  "dec_value s = be_value 10 (map (\<lambda>c. of_char c - 48) s)"

text \<open>\<open>int(s)\<close>: None where it raises \<open>ValueError\<close>.\<close>

definition int10_digits :: "string \<Rightarrow> nat option" where
  "int10_digits s =
     (case underscored s of None \<Rightarrow> None
      | Some t \<Rightarrow> if list_all is_dec_digit t then Some (dec_value t) else None)"

definition py_int :: "string \<Rightarrow> int option" where
  "py_int s =
     (let t = strip_by int_space s
      in if starts_with ''-'' t then map_option (\<lambda>n. - int n) (int10_digits (tl t))
         else if starts_with ''+'' t then map_option int (int10_digits (tl t))
         else map_option int (int10_digits t))"

lemma of_char_char_of_nat: "n < 256 \<Longrightarrow> (of_char (char_of n) :: nat) = n"
  by simp

lemma dec_digits_digit: "c \<in> set (dec_digits n) \<Longrightarrow> is_dec_digit c"
proof (induction n rule: dec_digits.induct)
  case (1 n)
  show ?case
  proof (cases "n < 10")
    case True
    with 1(2) show ?thesis by (subst (asm) dec_digits.simps) (simp add: is_dec_digit_def)
  next
    case False
    with 1(2) consider "c \<in> set (dec_digits (n div 10))" | "c = char_of (48 + n mod 10)"
      by (subst (asm) dec_digits.simps) auto
    then show ?thesis
    proof cases
      case 1
      with False "1.IH" show ?thesis by simp
    next
      case 2
      then show ?thesis by (simp add: is_dec_digit_def)
    qed
  qed
qed

lemma dec_digits_not_Nil [simp]: "dec_digits n \<noteq> []"
  by (subst dec_digits.simps) simp

lemma dec_value_snoc [simp]: "dec_value (s @ [c]) = dec_value s * 10 + (of_char c - 48)"
  by (simp add: dec_value_def)

lemma dec_value_dec_digits [simp]: "dec_value (dec_digits n) = n"
proof (induction n rule: dec_digits.induct)
  case (1 n)
  show ?case
  proof (cases "n < 10")
    case True
    then have "dec_digits n = [] @ [char_of (48 + n)]" by (subst dec_digits.simps) simp
    with True show ?thesis by (simp only: dec_value_snoc) (simp add: dec_value_def)
  next
    case False
    then have "dec_digits n = dec_digits (n div 10) @ [char_of (48 + n mod 10)]"
      by (subst dec_digits.simps) simp
    with False 1 show ?thesis by simp
  qed
qed

lemma dec_digits_inj: "dec_digits m = dec_digits n \<Longrightarrow> m = n"
  by (metis dec_value_dec_digits)

section \<open>UTF-8\<close>

text \<open>\<open>str.encode("utf-8")\<close> on Latin-1.\<close>

definition utf8_encode :: "string \<Rightarrow> byte list" where
  "utf8_encode s =
     concat (map (\<lambda>c. let n = of_char c :: nat in
       if n < 128 then [word_of_nat n] else [word_of_nat (192 + n div 64), word_of_nat (128 + n mod 64)]) s)"

end
