(* ===== verification/Uuid.thy ===== *)
theory Uuid
  imports Bytes
begin

text \<open>
  \<open>uuid.UUID\<close> of the standard library as \<open>tunnel_protocol.py\<close> uses it: construction from text
  (every spelling the class accepts), the sixteen bytes, construction from bytes and the canonical
  text. A UUID is its 128-bit number. The interface \<open>codec\<close> names what a decoder owes an
  encoder; the UUID text and bytes are its first two instances.
\<close>

section \<open>The interface of an encoder and its decoder\<close>

text \<open>
  \<open>enc\<close> may refuse a value; what it emits decodes to the value's normal form, and what decodes is
  re-encoded to the same wire form. Encodings of values with different normal forms differ.
\<close>

locale codec =
  fixes enc :: "'a \<Rightarrow> 'w option"
    and dec :: "'w \<Rightarrow> 'a option"
    and canon :: "'a \<Rightarrow> 'a"
  assumes dec_enc: "enc x = Some w \<Longrightarrow> dec w = Some (canon x)"
    and enc_dec: "dec w = Some x \<Longrightarrow> enc x = Some w"
begin

lemma dec_canonical:
  assumes "dec w = Some x"
  shows "canon x = x"
proof -
  from assms have "enc x = Some w" by (rule enc_dec)
  then have "dec w = Some (canon x)" by (rule dec_enc)
  with assms show ?thesis by simp
qed

lemma enc_canon: "enc x = Some w \<Longrightarrow> enc (canon x) = Some w"
  by (rule enc_dec) (rule dec_enc)

lemma enc_inj: "enc x = Some w \<Longrightarrow> enc y = Some w \<Longrightarrow> canon x = canon y"
  by (drule dec_enc, drule dec_enc) simp

lemma dec_inj: "dec v = Some x \<Longrightarrow> dec w = Some x \<Longrightarrow> v = w"
  by (drule enc_dec, drule enc_dec) simp

lemma dec_range: "(\<exists>x. dec w = Some x) \<longleftrightarrow> (\<exists>x. enc x = Some w)"
  by (blast intro: dec_enc enc_dec)

end

section \<open>UUIDs\<close>

type_synonym uuid = nat

definition uuid_limit :: nat where
  "uuid_limit = 2 ^ 128"

lemma uuid_limit_powers: "16 ^ 32 = uuid_limit" "256 ^ 16 = uuid_limit"
  by (simp_all add: uuid_limit_def)

text \<open>The range check \<open>0 <= int < 1 << 128\<close> of the constructor.\<close>

definition uuid_of_int :: "int \<Rightarrow> uuid option" where
  "uuid_of_int n = (if 0 \<le> n \<and> n < int uuid_limit then Some (nat n) else None)"

text \<open>\<open>uuid.UUID(s)\<close>: None where it raises \<open>ValueError\<close>.\<close>

definition uuid_parse :: "string \<Rightarrow> uuid option" where
  "uuid_parse s =
     (let h = py_replace ''uuid:'' '''' (py_replace ''urn:'' '''' s);
          t = py_replace ''-'' '''' (strip_by (\<lambda>c. c = CHR ''{'' \<or> c = CHR ''}'') h)
      in if length t \<noteq> 32 then None
         else case py_int16 t of None \<Rightarrow> None | Some n \<Rightarrow> uuid_of_int n)"

definition uuid_hex :: "uuid \<Rightarrow> string" where
  "uuid_hex u = map hex_char (be_digits 16 32 u)"

text \<open>\<open>str(u)\<close>: groups of 8, 4, 4, 4 and 12 digits.\<close>

definition uuid_str :: "uuid \<Rightarrow> string" where
  "uuid_str u =
     (let h = uuid_hex u
      in take 8 h @ ''-'' @ take 4 (drop 8 h) @ ''-'' @ take 4 (drop 12 h) @ ''-''
         @ take 4 (drop 16 h) @ ''-'' @ drop 20 h)"

definition uuid_bytes :: "uuid \<Rightarrow> byte list" where
  "uuid_bytes u = be_bytes 16 u"

definition uuid_of_bytes :: "byte list \<Rightarrow> uuid" where
  "uuid_of_bytes bs = bytes_value bs"

lemma length_uuid_hex [simp]: "length (uuid_hex u) = 32"
  by (simp add: uuid_hex_def)

lemma set_uuid_hex: "set (uuid_hex u) \<subseteq> set hex_digits"
  using hex_char_in by (auto simp: uuid_hex_def dest: be_digits_less [rotated])

lemma set_uuid_str: "set (uuid_str u) \<subseteq> insert (CHR ''-'') (set hex_digits)"
proof -
  have "set (uuid_str u) \<subseteq> insert (CHR ''-'') (set (uuid_hex u))"
    by (auto simp: uuid_str_def Let_def dest: in_set_takeD in_set_dropD)
  then show ?thesis using set_uuid_hex by blast
qed

lemma length_uuid_str [simp]: "length (uuid_str u) = 36"
  by (simp add: uuid_str_def Let_def)

lemma py_replace_dash: "py_replace ''-'' '''' s = filter (\<lambda>c. c \<noteq> CHR ''-'') s"
  by (induction s) auto

lemma filter_dash_uuid_str: "filter (\<lambda>c. c \<noteq> CHR ''-'') (uuid_str u) = uuid_hex u"
proof -
  have id: "filter (\<lambda>c. c \<noteq> CHR ''-'') s = s" if "set s \<subseteq> set (uuid_hex u)" for s
    using that set_uuid_hex by (intro filter_True) (auto simp: hex_digits_def)
  have sub: "set (take m (drop n (uuid_hex u))) \<subseteq> set (uuid_hex u)" for m n
    by (meson order_trans set_drop_subset set_take_subset)
  define h where "h = uuid_hex u"
  have parts: "take 8 h @ take 4 (drop 8 h) @ take 4 (drop 12 h) @ take 4 (drop 16 h) @ drop 20 h = h"
  proof -
    have "take 4 (drop 16 h) @ drop 20 h = drop 16 h"
      using append_take_drop_id [of 4 "drop 16 h"] by simp
    moreover have "take 4 (drop 12 h) @ drop 16 h = drop 12 h"
      using append_take_drop_id [of 4 "drop 12 h"] by simp
    moreover have "take 4 (drop 8 h) @ drop 12 h = drop 8 h"
      using append_take_drop_id [of 4 "drop 8 h"] by simp
    ultimately show ?thesis by (simp only: append_take_drop_id)
  qed
  have "filter (\<lambda>c. c \<noteq> CHR ''-'') (uuid_str u) =
      take 8 h @ take 4 (drop 8 h) @ take 4 (drop 12 h) @ take 4 (drop 16 h) @ drop 20 h"
    using id sub [of _ 8] sub [of _ 12] sub [of _ 16] sub [of _ 0] set_drop_subset [of 20 "uuid_hex u"]
    by (simp add: uuid_str_def Let_def h_def set_take_subset)
  then show ?thesis by (simp only: parts) (simp only: h_def)
qed

lemma hex_val_uuid_hex: "all_some (map hex_val (uuid_hex u)) = Some (be_digits 16 32 u)"
proof -
  have "map hex_val (uuid_hex u) = map (\<lambda>d. Some (id d)) (be_digits 16 32 u)"
    using be_digits_less [of 16 _ 32 u] by (simp add: uuid_hex_def)
  then show ?thesis by (metis all_some_map_Some list.map_id)
qed

lemma py_int16_uuid_hex: "py_int16 (uuid_hex u) = Some (int (u mod uuid_limit))"
proof -
  have "uuid_hex u \<noteq> []" using length_uuid_hex [of u] by (metis list.size(3) zero_neq_numeral)
  from py_int16_plain [OF this set_uuid_hex] show ?thesis
    by (simp only: hex_val_uuid_hex option.map comp_apply be_value_digits uuid_limit_powers)
qed

lemma uuid_parse_plain:
  assumes u: "u < uuid_limit" and s: "set s \<subseteq> insert (CHR ''-'') (set hex_digits)"
    and digits: "filter (\<lambda>c. c \<noteq> CHR ''-'') s = uuid_hex u"
  shows "uuid_parse s = Some u"
proof -
  have no: "c \<notin> set s" if "c \<noteq> CHR ''-''" "c \<notin> set hex_digits" for c
    using s that by blast
  have u_absent: "CHR ''u'' \<notin> set s"
    by (rule no) (simp_all add: hex_digits_def)
  have braces: "CHR ''{'' \<notin> set s" "CHR ''}'' \<notin> set s"
    by (rule no; simp add: hex_digits_def)+
  have "strip_by (\<lambda>c. c = CHR ''{'' \<or> c = CHR ''}'') s = s"
    by (rule strip_by_none) (use braces in metis)
  moreover have "py_replace ''urn:'' '''' s = s" "py_replace ''uuid:'' '''' s = s"
    using u_absent by (simp_all only: py_replace_absent list.sel list.distinct simp_thms not_Cons_self2)
  moreover have "uuid_of_int (int u) = Some u"
    using u by (simp add: uuid_of_int_def)
  ultimately show ?thesis using u
    by (simp only: uuid_parse_def py_replace_dash digits py_int16_uuid_hex
        Let_def length_uuid_hex mod_less option.case simp_thms if_False)
qed

lemma uuid_parse_str: "u < uuid_limit \<Longrightarrow> uuid_parse (uuid_str u) = Some u"
  by (rule uuid_parse_plain [OF _ set_uuid_str filter_dash_uuid_str])

lemma uuid_parse_hex: "u < uuid_limit \<Longrightarrow> uuid_parse (uuid_hex u) = Some u"
proof (rule uuid_parse_plain)
  show "set (uuid_hex u) \<subseteq> insert (CHR ''-'') (set hex_digits)" using set_uuid_hex by blast
  have "CHR ''-'' \<notin> set hex_digits" by (simp add: hex_digits_def)
  then have "CHR ''-'' \<notin> set (uuid_hex u)" using set_uuid_hex by blast
  then show "filter (\<lambda>c. c \<noteq> CHR ''-'') (uuid_hex u) = uuid_hex u" unfolding filter_id_conv by metis
qed

lemma uuid_parse_less: "uuid_parse s = Some u \<Longrightarrow> u < uuid_limit"
  by (auto simp: uuid_parse_def uuid_of_int_def Let_def nat_less_iff split: if_splits option.splits)

lemma uuid_of_bytes_bytes: "u < uuid_limit \<Longrightarrow> uuid_of_bytes (uuid_bytes u) = u"
  by (simp only: uuid_of_bytes_def uuid_bytes_def bytes_value_be_bytes uuid_limit_powers mod_less)

lemma uuid_bytes_of_bytes: "length bs = 16 \<Longrightarrow> uuid_bytes (uuid_of_bytes bs) = bs"
  using be_bytes_value [of bs] by (simp add: uuid_of_bytes_def uuid_bytes_def)

lemma uuid_of_bytes_less: "length bs = 16 \<Longrightarrow> uuid_of_bytes bs < uuid_limit"
  using bytes_value_less [of bs] by (simp only: uuid_of_bytes_def uuid_limit_powers)

lemma length_uuid_bytes [simp]: "length (uuid_bytes u) = 16"
  by (simp add: uuid_bytes_def)

text \<open>The canonical spelling of an id, and its idempotence.\<close>

definition canonical_id :: "string \<Rightarrow> string option" where
  "canonical_id s = map_option uuid_str (uuid_parse s)"

lemma canonical_id_idem: "canonical_id s = Some t \<Longrightarrow> canonical_id t = Some t"
  by (auto simp: canonical_id_def uuid_parse_str [OF uuid_parse_less])

section \<open>Instances\<close>

text \<open>Texts and bytes of one UUID: sixteen bytes decode to the canonical text and back.\<close>

definition uuid_enc :: "string \<Rightarrow> byte list option" where
  "uuid_enc s = map_option uuid_bytes (uuid_parse s)"

definition uuid_dec :: "byte list \<Rightarrow> string option" where
  "uuid_dec bs = (if length bs = 16 then Some (uuid_str (uuid_of_bytes bs)) else None)"

interpretation uuid_codec: codec uuid_enc uuid_dec "\<lambda>s. case canonical_id s of None \<Rightarrow> s | Some t \<Rightarrow> t"
proof
  fix s w
  assume "uuid_enc s = Some w"
  then obtain u where "uuid_parse s = Some u" "w = uuid_bytes u" by (auto simp: uuid_enc_def)
  then show "uuid_dec w = Some (case canonical_id s of None \<Rightarrow> s | Some t \<Rightarrow> t)"
    by (simp add: uuid_dec_def canonical_id_def uuid_of_bytes_bytes uuid_parse_less)
next
  fix w s
  assume "uuid_dec w = Some s"
  then show "uuid_enc s = Some w"
    by (auto simp: uuid_dec_def uuid_enc_def uuid_parse_str uuid_of_bytes_less
        uuid_bytes_of_bytes split: if_splits)
qed

end
