(* ===== verification/TunnelProtocol.thy ===== *)
theory TunnelProtocol
  imports Uuid
begin

unbundle bit_operations_syntax

text \<open>
  \<open>tunnel_protocol.py\<close>: the constants of the reverse tunnel, the binary envelope that carries
  body chunks and WebSocket payloads (\<open>BinaryEnvelope.encode\<close> and \<open>decode\<close>), and the opening
  \<open>hello\<close> frame. The envelope codec is an instance of \<open>codec\<close> at every chunk limit.
\<close>

section \<open>Constants\<close>

definition PROTOCOL_VERSION :: int where "PROTOCOL_VERSION = 2"
definition BINARY_ENVELOPE_VERSION :: byte where "BINARY_ENVELOPE_VERSION = 1"
definition BINARY_MAGIC :: "byte list" where "BINARY_MAGIC = [0x59, 0x44]"
definition DEFAULT_STREAM_CHUNK_BYTES :: int where "DEFAULT_STREAM_CHUNK_BYTES = 64 * 1024"
definition MIN_STREAM_CHUNK_BYTES :: int where "MIN_STREAM_CHUNK_BYTES = 1024"
definition DEFAULT_FAST_PATH_BODY_BYTES :: int where "DEFAULT_FAST_PATH_BODY_BYTES = 64 * 1024"
definition DEFAULT_MAX_INFLIGHT :: int where "DEFAULT_MAX_INFLIGHT = 16"
definition DEFAULT_STREAM_WINDOW_FRAMES :: int where "DEFAULT_STREAM_WINDOW_FRAMES = 16"
definition DEFAULT_MAX_BODY_BYTES :: int where "DEFAULT_MAX_BODY_BYTES = 512 * 1024 * 1024"
definition DEFAULT_MAX_WS_MESSAGE_BYTES :: int where
  "DEFAULT_MAX_WS_MESSAGE_BYTES = 8 * 1024 * 1024"
definition MAX_V1_BODY_BYTES :: int where "MAX_V1_BODY_BYTES = 5 * 1024 * 1024"
definition END_OF_BODY :: byte where "END_OF_BODY = 0x01"
definition HAS_OFFSET :: byte where "HAS_OFFSET = 0x02"
definition UUID_BYTES :: byte where "UUID_BYTES = 16"

text \<open>\<open>struct.Struct("!2sBBB16sBI").size\<close>.\<close>

definition HEADER_SIZE :: nat where "HEADER_SIZE = 26"

section \<open>Envelopes\<close>

datatype BinaryKind = HTTP_REQUEST_DATA | HTTP_RESPONSE_DATA | WS_BINARY_DATA

fun kind_code :: "BinaryKind \<Rightarrow> byte" where
  "kind_code HTTP_REQUEST_DATA = 1"
| "kind_code HTTP_RESPONSE_DATA = 2"
| "kind_code WS_BINARY_DATA = 3"

text \<open>\<open>BinaryKind(code)\<close>, which raises for an unknown code.\<close>

definition kind_of_code :: "byte \<Rightarrow> BinaryKind option" where
  "kind_of_code c =
     (if c = 1 then Some HTTP_REQUEST_DATA
      else if c = 2 then Some HTTP_RESPONSE_DATA
      else if c = 3 then Some WS_BINARY_DATA
      else None)"

lemma kind_of_code_code [simp]: "kind_of_code (kind_code k) = Some k"
  by (cases k) (simp_all add: kind_of_code_def)

lemma kind_code_of_code: "kind_of_code c = Some k \<Longrightarrow> kind_code k = c"
  by (auto simp: kind_of_code_def split: if_splits)

text \<open>An \<open>IntEnum\<close> is ordered by its values.\<close>

instantiation BinaryKind :: linorder
begin

definition "(k :: BinaryKind) \<le> l \<longleftrightarrow> kind_code k \<le> kind_code l"
definition "(k :: BinaryKind) < l \<longleftrightarrow> kind_code k < kind_code l"

instance
proof
  fix k l :: BinaryKind
  show "k \<le> l \<Longrightarrow> l \<le> k \<Longrightarrow> k = l"
    unfolding less_eq_BinaryKind_def by (metis kind_of_code_code option.inject order_antisym)
qed (auto simp: less_eq_BinaryKind_def less_BinaryKind_def)

end

record BinaryEnvelope =
  env_request_id :: string
  env_kind :: BinaryKind
  env_payload :: "byte list"
  env_end_of_body :: bool
  env_offset :: "int option"

text \<open>\<open>struct.pack("!Q", n)\<close> raises \<open>struct.error\<close> outside the 64-bit range.\<close>

definition pack_Q :: "int \<Rightarrow> byte list option" where
  "pack_Q n = (if 0 \<le> n \<and> n < 2 ^ 64 then Some (be_bytes 8 (nat n)) else None)"

text \<open>\<open>_HEADER.pack(...)\<close>: the last field is an unsigned 32-bit length.\<close>

definition pack_header :: "byte \<Rightarrow> byte list \<Rightarrow> byte \<Rightarrow> nat \<Rightarrow> byte list option" where
  "pack_header kind raw_id flags len =
     (if len < 2 ^ 32
      then Some (BINARY_MAGIC @ [BINARY_ENVELOPE_VERSION, kind, UUID_BYTES] @ raw_id
                 @ [flags] @ be_bytes 4 len)
      else None)"

definition BinaryEnvelope_encode :: "BinaryEnvelope \<Rightarrow> int \<Rightarrow> byte list result" where
  "BinaryEnvelope_encode e max_payload =
     (if int (length (env_payload e)) > max_payload
      then Inl (ProtocolError ''binary payload exceeds negotiated chunk limit'')
      else case uuid_parse (env_request_id e) of
        None \<Rightarrow> Inl (ProtocolError ''binary envelope id must be a UUID'')
      | Some u \<Rightarrow>
          if (case env_offset e of None \<Rightarrow> False | Some off \<Rightarrow> off < 0)
          then Inl (ProtocolError ''binary envelope offset must not be negative'')
          else
            let flags = (if env_end_of_body e then END_OF_BODY else 0);
                framed = (case env_offset e of
                    None \<Rightarrow> Some (flags, env_payload e)
                  | Some off \<Rightarrow>
                      map_option (\<lambda>q. (flags OR HAS_OFFSET, q @ env_payload e)) (pack_Q off))
            in (case framed of
                None \<Rightarrow> Inl StructError
              | Some (flags, wire_payload) \<Rightarrow>
                  (case pack_header (kind_code (env_kind e)) (uuid_bytes u) flags
                          (length wire_payload) of
                     None \<Rightarrow> Inl StructError
                   | Some h \<Rightarrow> Inr (h @ wire_payload))))"

definition BinaryEnvelope_decode :: "byte list \<Rightarrow> int \<Rightarrow> BinaryEnvelope result" where
  "BinaryEnvelope_decode raw max_payload =
     (if length raw < HEADER_SIZE
      then Inl (ProtocolError ''binary envelope is shorter than its header'')
      else
        let magic = take 2 raw;
            version = raw ! 2;
            kind = raw ! 3;
            id_length = raw ! 4;
            raw_id = take 16 (drop 5 raw);
            flags = raw ! 21;
            payload_length = int (bytes_value (take 4 (drop 22 raw)))
        in if magic \<noteq> BINARY_MAGIC
           then Inl (ProtocolError ''invalid binary envelope magic'')
           else if version \<noteq> BINARY_ENVELOPE_VERSION
           then Inl (ProtocolError ''unsupported binary envelope version'')
           else if id_length \<noteq> UUID_BYTES
           then Inl (ProtocolError ''invalid binary envelope UUID length'')
           else case kind_of_code kind of
             None \<Rightarrow> Inl (ProtocolError ''unknown binary envelope kind'')
           | Some binary_kind \<Rightarrow>
               if flags AND NOT (END_OF_BODY OR HAS_OFFSET) \<noteq> 0
               then Inl (ProtocolError ''unknown binary envelope flags'')
               else
                 let wire_limit = max_payload + (if flags AND HAS_OFFSET \<noteq> 0 then 8 else 0);
                     wire_payload = drop HEADER_SIZE raw
                 in if payload_length > wire_limit
                    then Inl (ProtocolError ''binary payload exceeds negotiated chunk limit'')
                    else if int (length wire_payload) \<noteq> payload_length
                    then Inl (ProtocolError ''binary payload length mismatch'')
                    else if flags AND HAS_OFFSET \<noteq> 0 \<and> length wire_payload < 8
                    then Inl (ProtocolError ''offset binary envelope payload is too short'')
                    else
                      let offset = (if flags AND HAS_OFFSET \<noteq> 0
                                    then Some (int (bytes_value (take 8 wire_payload))) else None);
                          payload = (if flags AND HAS_OFFSET \<noteq> 0
                                     then drop 8 wire_payload else wire_payload)
                      in if int (length payload) > max_payload
                         then Inl (ProtocolError ''binary payload exceeds negotiated chunk limit'')
                         else Inr \<lparr>env_request_id = uuid_str (uuid_of_bytes raw_id),
                                   env_kind = binary_kind,
                                   env_payload = payload,
                                   env_end_of_body = (flags AND END_OF_BODY \<noteq> 0),
                                   env_offset = offset\<rparr>)"

section \<open>The hello frame\<close>

definition hello_frame ::
    "int \<Rightarrow> int \<Rightarrow> int \<Rightarrow> int \<Rightarrow> int \<Rightarrow> int \<Rightarrow> bool \<Rightarrow> string option \<Rightarrow> jobj result" where
  "hello_frame protocol_version max_stream_chunk max_inflight stream_window_frames
     max_body_size max_ws_message_size resumable session_id =
     (if protocol_version \<le> 0
      then Inl (ValueError ''protocol_version must be greater than zero'')
      else if max_stream_chunk < MIN_STREAM_CHUNK_BYTES
      then Inl (ValueError ''max_stream_chunk must be at least 1024 bytes'')
      else if max_inflight \<le> 0
      then Inl (ValueError ''max_inflight must be greater than zero'')
      else if stream_window_frames \<le> 0
      then Inl (ValueError ''stream_window_frames must be greater than zero'')
      else if max_body_size \<le> 0
      then Inl (ValueError ''max_body_size must be greater than zero'')
      else if max_ws_message_size \<le> 0
      then Inl (ValueError ''max_ws_message_size must be greater than zero'')
      else bind_result
        (case session_id of
           None \<Rightarrow> Inr None
         | Some s \<Rightarrow>
             if resumable
             then (case canonical_id s of
                     None \<Rightarrow> Inl (ValueError ''resumable hello requires a UUID session_id'')
                   | Some t \<Rightarrow> Inr (Some t))
             else Inr (Some s))
        (\<lambda>session_id.
           let frame =
             [(''type'', JStr ''hello''),
              (''protocol_version'', JInt protocol_version),
              (''max_stream_chunk'', JInt max_stream_chunk),
              (''max_inflight'', JInt max_inflight),
              (''stream_window_frames'', JInt stream_window_frames),
              (''max_body_size'', JInt max_body_size),
              (''max_ws_message_size'', JInt max_ws_message_size)]
           in Inr (if resumable
                   then AList.update ''resume'' (JBool True) frame
                        @ (case session_id of None \<Rightarrow> []
                           | Some s \<Rightarrow> [(''session_id'', JStr s)])
                   else frame)))"

section \<open>Facts about the wire format\<close>

lemmas flag_defs = END_OF_BODY_def HAS_OFFSET_def

text \<open>The flag byte is one of four values, which the two bits determine.\<close>

definition flag_byte :: "bool \<Rightarrow> bool \<Rightarrow> byte" where
  "flag_byte eob has_off = (if eob then END_OF_BODY else 0) OR (if has_off then HAS_OFFSET else 0)"

lemma flag_byte_bits [simp]:
  "flag_byte a b AND NOT (END_OF_BODY OR HAS_OFFSET) = 0"
  "flag_byte a b AND NOT END_OF_BODY AND NOT HAS_OFFSET = 0"
  "flag_byte a b AND HAS_OFFSET \<noteq> 0 \<longleftrightarrow> b"
  "flag_byte a b AND END_OF_BODY \<noteq> 0 \<longleftrightarrow> a"
  by (cases a; cases b; simp add: flag_byte_def flag_defs)+

lemma flag_byte_cases:
  assumes "f AND NOT (END_OF_BODY OR HAS_OFFSET) = 0"
  shows "f = 0 \<or> f = 1 \<or> f = 2 \<or> f = 3"
proof -
  have "f = f AND 3 OR f AND NOT 3" by (simp add: bit_eq_iff bit_simps) auto
  also have "f AND NOT 3 = 0" using assms by (simp add: flag_defs)
  finally have "f = f AND mask 2" by (simp add: mask_eq_exp_minus_1)
  then have f: "f = take_bit 2 f" by (simp add: take_bit_eq_mask)
  have "unat (take_bit 2 f) = take_bit 2 (unat f)" by (rule unsigned_take_bit_eq)
  also have "\<dots> < 4" using take_bit_nat_less_exp [of 2 "unat f"] by simp
  finally have "unat f < 4" using f by simp
  then have "unat f = 0 \<or> unat f = 1 \<or> unat f = 2 \<or> unat f = 3" by linarith
  then show ?thesis by (auto simp: word_unat_eq_iff)
qed

lemma flag_byte_recover:
  "f AND NOT (END_OF_BODY OR HAS_OFFSET) = 0 \<Longrightarrow>
     f = flag_byte (f AND END_OF_BODY \<noteq> 0) (f AND HAS_OFFSET \<noteq> 0)"
  by (drule flag_byte_cases) (auto simp: flag_byte_def flag_defs)

text \<open>The fields of a frame that starts with a packed header.\<close>

lemma length_pack_header:
  "pack_header k i f n = Some h \<Longrightarrow> length i = 16 \<Longrightarrow> length h = HEADER_SIZE"
  by (auto simp: pack_header_def BINARY_MAGIC_def HEADER_SIZE_def split: if_splits)

lemma header_fields:
  assumes "pack_header k i f n = Some h" and "length i = 16"
  shows "take 2 (h @ w) = BINARY_MAGIC" "(h @ w) ! 2 = BINARY_ENVELOPE_VERSION"
    "(h @ w) ! 3 = k" "(h @ w) ! 4 = UUID_BYTES" "take 16 (drop 5 (h @ w)) = i"
    "(h @ w) ! 21 = f" "bytes_value (take 4 (drop 22 (h @ w))) = n"
    "drop HEADER_SIZE (h @ w) = w"
proof -
  from assms have n: "n < 2 ^ 32"
    and hw: "h @ w = BINARY_MAGIC @ [BINARY_ENVELOPE_VERSION, k, UUID_BYTES] @ i @ [f] @ be_bytes 4 n @ w"
    by (auto simp: pack_header_def split: if_splits)
  have eq: "bytes_value (be_bytes 4 n) = n" using n by (simp add: bytes_value_be_bytes)
  show "take 2 (h @ w) = BINARY_MAGIC" "(h @ w) ! 2 = BINARY_ENVELOPE_VERSION"
    "(h @ w) ! 3 = k" "(h @ w) ! 4 = UUID_BYTES" "take 16 (drop 5 (h @ w)) = i"
    "(h @ w) ! 21 = f" "bytes_value (take 4 (drop 22 (h @ w))) = n"
    "drop HEADER_SIZE (h @ w) = w"
    using assms(2) eq by (simp_all add: hw BINARY_MAGIC_def HEADER_SIZE_def nth_append)
qed

text \<open>Conversely a frame of at least the header's length is its own fields.\<close>

lemma frame_split:
  assumes "HEADER_SIZE \<le> length raw"
  shows "raw = take 2 raw @ [raw ! 2, raw ! 3, raw ! 4] @ take 16 (drop 5 raw) @ [raw ! 21]
           @ take 4 (drop 22 raw) @ drop HEADER_SIZE raw"
proof -
  have len: "26 \<le> length raw" using assms by (simp add: HEADER_SIZE_def)
  have "take 4 (drop 22 raw) @ drop 26 raw = drop 22 raw"
    using append_take_drop_id [of 4 "drop 22 raw"] by simp
  moreover have "[raw ! 21] @ drop 22 raw = drop 21 raw"
    using len Cons_nth_drop_Suc [of 21 raw] by simp
  moreover have "take 16 (drop 5 raw) @ drop 21 raw = drop 5 raw"
    using append_take_drop_id [of 16 "drop 5 raw"] by simp
  moreover have "[raw ! 2, raw ! 3, raw ! 4] @ drop 5 raw = drop 2 raw"
    using len Cons_nth_drop_Suc [of 2 raw] Cons_nth_drop_Suc [of 3 raw] Cons_nth_drop_Suc [of 4 raw]
    by simp
  ultimately show ?thesis
    unfolding HEADER_SIZE_def by (metis append_assoc append_take_drop_id)
qed

lemma bytes_value_take4: "bytes_value (take 4 xs) < 2 ^ 32"
proof -
  have "bytes_value (take 4 xs) < 256 ^ length (take 4 xs)" by (rule bytes_value_less)
  also have "\<dots> \<le> 256 ^ 4" by (intro power_increasing) simp_all
  finally show ?thesis by simp
qed

lemma bytes_value_take8: "bytes_value (take 8 xs) < 2 ^ 64"
proof -
  have "bytes_value (take 8 xs) < 256 ^ length (take 8 xs)" by (rule bytes_value_less)
  also have "\<dots> \<le> 256 ^ 8" by (intro power_increasing) simp_all
  finally show ?thesis by simp
qed

text \<open>What encoding produces: a header for the wire payload, and when.\<close>

definition wire_payload :: "BinaryEnvelope \<Rightarrow> byte list" where
  "wire_payload e =
     (case env_offset e of None \<Rightarrow> env_payload e
      | Some off \<Rightarrow> be_bytes 8 (nat off) @ env_payload e)"

lemma encode_eq_Inr:
  "BinaryEnvelope_encode e m = Inr bs \<longleftrightarrow>
     (\<exists>u h. int (length (env_payload e)) \<le> m
        \<and> uuid_parse (env_request_id e) = Some u
        \<and> (\<forall>off. env_offset e = Some off \<longrightarrow> 0 \<le> off \<and> off < 2 ^ 64)
        \<and> pack_header (kind_code (env_kind e)) (uuid_bytes u)
             (flag_byte (env_end_of_body e) (env_offset e \<noteq> None)) (length (wire_payload e)) = Some h
        \<and> bs = h @ wire_payload e)"
  by (cases "env_offset e"; cases "env_end_of_body e")
     (auto simp: BinaryEnvelope_encode_def Let_def wire_payload_def pack_Q_def flag_byte_def
       split: option.splits if_splits)

section \<open>The codec\<close>

definition canonical_envelope :: "BinaryEnvelope \<Rightarrow> BinaryEnvelope" where
  "canonical_envelope e =
     (case canonical_id (env_request_id e) of None \<Rightarrow> e | Some t \<Rightarrow> e\<lparr>env_request_id := t\<rparr>)"

lemma decode_packed:
  assumes "pack_header (kind_code k) (uuid_bytes u) (flag_byte eob (off \<noteq> None)) (length w) = Some h"
    and w: "w = (case off of None \<Rightarrow> p | Some n \<Rightarrow> be_bytes 8 (nat n) @ p)"
    and p: "int (length p) \<le> m" and off: "\<And>n. off = Some n \<Longrightarrow> 0 \<le> n \<and> n < 2 ^ 64"
    and u: "u < uuid_limit"
  shows "BinaryEnvelope_decode (h @ w) m =
    Inr \<lparr>env_request_id = uuid_str u, env_kind = k, env_payload = p,
         env_end_of_body = eob, env_offset = off\<rparr>"
proof -
  define raw where "raw = h @ w"
  note fields = header_fields [OF assms(1) length_uuid_bytes, of w, folded raw_def]
  have "HEADER_SIZE \<le> length raw"
    using length_pack_header [OF assms(1) length_uuid_bytes] by (simp add: raw_def)
  moreover have "int (bytes_value (be_bytes 8 (nat n))) = n" if "off = Some n" for n
  proof -
    have "nat n < 256 ^ 8" "0 \<le> n" using off [OF that] by (simp_all add: nat_less_iff)
    then show ?thesis by (simp only: bytes_value_be_bytes mod_less int_nat_eq if_True)
  qed
  ultimately have "BinaryEnvelope_decode raw m =
      Inr \<lparr>env_request_id = uuid_str u, env_kind = k, env_payload = p,
           env_end_of_body = eob, env_offset = off\<rparr>"
    using p u by (cases off)
      (simp_all add: BinaryEnvelope_decode_def Let_def fields w uuid_of_bytes_bytes)
  then show ?thesis by (simp only: raw_def)
qed

lemma decode_encoded:
  assumes "BinaryEnvelope_encode e m = Inr bs"
  shows "BinaryEnvelope_decode bs m = Inr (canonical_envelope e)"
proof -
  from assms obtain u h where
    e: "int (length (env_payload e)) \<le> m" "uuid_parse (env_request_id e) = Some u"
      "\<And>off. env_offset e = Some off \<Longrightarrow> 0 \<le> off \<and> off < 2 ^ 64"
    and h: "pack_header (kind_code (env_kind e)) (uuid_bytes u)
        (flag_byte (env_end_of_body e) (env_offset e \<noteq> None)) (length (wire_payload e)) = Some h"
    and bs: "bs = h @ wire_payload e"
    unfolding encode_eq_Inr by blast
  have "canonical_envelope e = e\<lparr>env_request_id := uuid_str u\<rparr>"
    using e(2) by (simp add: canonical_envelope_def canonical_id_def)
  with decode_packed [OF h wire_payload_def e(1) e(3) uuid_parse_less [OF e(2)]] show ?thesis
    by (simp add: bs)
qed

lemma uuid_parse_sample: "uuid_parse (uuid_str 0x12345678123456781234567812345678) =
    Some 0x12345678123456781234567812345678"
  by (rule uuid_parse_str) (simp add: uuid_limit_def)

lemma encode_sample:
  "BinaryEnvelope_encode \<lparr>env_request_id = uuid_str 0x12345678123456781234567812345678,
     env_kind = HTTP_REQUEST_DATA, env_payload = [7, 8], env_end_of_body = True,
     env_offset = Some 258\<rparr> 2 =
   Inr [0x59, 0x44, 1, 1, 16,
        0x12, 0x34, 0x56, 0x78, 0x12, 0x34, 0x56, 0x78, 0x12, 0x34, 0x56, 0x78,
        0x12, 0x34, 0x56, 0x78, 3, 0, 0, 0, 10, 0, 0, 0, 0, 0, 0, 1, 2, 7, 8]"
  by (simp add: BinaryEnvelope_encode_def uuid_parse_sample pack_Q_def pack_header_def py_simps
      uuid_bytes_def be_bytes_def BINARY_MAGIC_def BINARY_ENVELOPE_VERSION_def UUID_BYTES_def
      flag_defs)

lemma encode_decoded:
  assumes "BinaryEnvelope_decode raw m = Inr e"
  shows "BinaryEnvelope_encode e m = Inr raw"
proof -
  define w f where "w = drop HEADER_SIZE raw" and "f = raw ! 21"
  define i where "i = take 16 (drop 5 raw)"
  let ?off = "f AND HAS_OFFSET \<noteq> 0"
  note dec = assms [unfolded BinaryEnvelope_decode_def Let_def, folded w_def f_def i_def]
  have len: "HEADER_SIZE \<le> length raw" by (rule ccontr) (use dec in simp)
  have magic: "take 2 raw = BINARY_MAGIC" by (rule ccontr) (use dec len in simp)
  have version: "raw ! 2 = BINARY_ENVELOPE_VERSION" by (rule ccontr) (use dec len magic in simp)
  have idlen: "raw ! 4 = UUID_BYTES" by (rule ccontr) (use dec len magic version in simp)
  obtain k where k: "kind_of_code (raw ! 3) = Some k"
    by (cases "kind_of_code (raw ! 3)") (use dec len magic version idlen in simp_all)
  note dec = dec [simplified len magic version idlen k linorder_not_less [symmetric], simplified len]
  have flags: "f AND NOT (END_OF_BODY OR HAS_OFFSET) = 0" by (rule ccontr) (use dec len in simp)
  have wlen: "length w = bytes_value (take 4 (drop 22 raw))"
    by (rule ccontr) (use dec len flags in \<open>simp split: if_split_asm\<close>)
  have off8: "8 \<le> length w" if ?off by (rule ccontr) (use dec len flags that in \<open>simp split: if_split_asm\<close>)
  let ?pl = "if ?off then drop 8 w else w"
  define e' where "e' = \<lparr>env_request_id = uuid_str (uuid_of_bytes i), env_kind = k,
      env_payload = ?pl, env_end_of_body = (f AND END_OF_BODY \<noteq> 0),
      env_offset = (if ?off then Some (int (bytes_value (take 8 w))) else None)\<rparr>"
  have no8: "\<not> (?off \<and> length w < 8)" using off8 by auto
  have lim: "int (length ?pl) \<le> m" and e_eq: "e = e'"
    using dec len flags no8 by (auto simp: e'_def split: if_split_asm)
  have bound: "int (length (env_payload e)) \<le> m"
    and kind: "kind_of_code (raw ! 3) = Some (env_kind e)"
    and e: "env_request_id e = uuid_str (uuid_of_bytes i)" "env_end_of_body e = (f AND END_OF_BODY \<noteq> 0)"
      "env_offset e = (if ?off then Some (int (bytes_value (take 8 w))) else None)"
      "env_payload e = ?pl"
    using lim k by (simp_all add: e_eq e'_def)
  have i16: "length i = 16" using len by (simp add: i_def HEADER_SIZE_def)
  have f_eq: "f = flag_byte (env_end_of_body e) (env_offset e \<noteq> None)"
  proof -
    have "(env_offset e \<noteq> None) = ?off" by (simp add: e(3))
    then show ?thesis unfolding e(2) by (simp only:) (rule flag_byte_recover [OF flags])
  qed
  have "be_bytes 8 (bytes_value (take 8 w)) = take 8 w" if ?off
    using be_bytes_value [of "take 8 w"] off8 [OF that] by simp
  then have w_eq: "wire_payload e = w"
    using off8 by (auto simp: wire_payload_def e append_take_drop_id)
  have parse: "uuid_parse (env_request_id e) = Some (uuid_of_bytes i)"
    by (simp add: e(1) uuid_parse_str uuid_of_bytes_less i16)
  have "pack_header (kind_code (env_kind e)) (uuid_bytes (uuid_of_bytes i)) f (length w)
      = Some (take 2 raw @ [raw ! 2, raw ! 3, raw ! 4] @ i @ [raw ! 21] @ take 4 (drop 22 raw))"
    using bytes_value_take4 [of "drop 22 raw"] be_bytes_value [of "take 4 (drop 22 raw)"] len
    by (simp add: pack_header_def uuid_bytes_of_bytes i16 kind_code_of_code [OF kind] wlen magic
        version idlen f_def HEADER_SIZE_def)
  moreover have "raw = (take 2 raw @ [raw ! 2, raw ! 3, raw ! 4] @ i @ [raw ! 21]
      @ take 4 (drop 22 raw)) @ w"
    using frame_split [OF len] by (simp add: w_def i_def)
  ultimately obtain h where
    "pack_header (kind_code (env_kind e)) (uuid_bytes (uuid_of_bytes i)) f (length w) = Some h"
    "raw = h @ w" by blast
  moreover have "\<forall>off. env_offset e = Some off \<longrightarrow> 0 \<le> off \<and> off < 2 ^ 64"
    using bytes_value_take8 [of w] e(3) by (auto split: if_splits)
  ultimately show ?thesis
    unfolding encode_eq_Inr w_eq f_eq [symmetric] using bound parse by blast
qed

text \<open>The codec at a fixed chunk limit.\<close>

definition encode_within :: "int \<Rightarrow> BinaryEnvelope \<Rightarrow> byte list option" where
  "encode_within m e = (case BinaryEnvelope_encode e m of Inl _ \<Rightarrow> None | Inr bs \<Rightarrow> Some bs)"

definition decode_within :: "int \<Rightarrow> byte list \<Rightarrow> BinaryEnvelope option" where
  "decode_within m bs = (case BinaryEnvelope_decode bs m of Inl _ \<Rightarrow> None | Inr e \<Rightarrow> Some e)"

lemma within_eq_Some [simp]:
  "encode_within m e = Some bs \<longleftrightarrow> BinaryEnvelope_encode e m = Inr bs"
  "decode_within m bs = Some e \<longleftrightarrow> BinaryEnvelope_decode bs m = Inr e"
  by (auto simp: encode_within_def decode_within_def split: sum.splits)

interpretation envelope_codec: codec "encode_within m" "decode_within m" canonical_envelope for m
  by unfold_locales (auto dest: decode_encoded encode_decoded)

lemma encode_accepts:
  "(\<exists>bs. BinaryEnvelope_encode e m = Inr bs) \<longleftrightarrow>
     int (length (env_payload e)) \<le> m \<and> uuid_parse (env_request_id e) \<noteq> None
     \<and> (case env_offset e of None \<Rightarrow> length (env_payload e) < 2 ^ 32
          | Some off \<Rightarrow> 0 \<le> off \<and> off < 2 ^ 64 \<and> length (env_payload e) + 8 < 2 ^ 32)"
  by (auto simp: encode_eq_Inr pack_header_def wire_payload_def split: option.splits)

text \<open>
  C5: Encoding and decoding round-trip. \<open>encode\<close> accepts exactly the envelopes whose payload is within the
  chunk limit, whose id is a UUID, whose offset fits 64 bits and whose length fits 32 bits; and whatever
  it emits, \<open>decode\<close> accepts under the same limit and returns the same kind, payload, end flag and
  offset, with the request id in the canonical spelling of its UUID.
\<close>

theorem envelope_roundtrip:
  "((\<exists>bs. BinaryEnvelope_encode e m = Inr bs) \<longleftrightarrow>
     int (length (env_payload e)) \<le> m \<and> uuid_parse (env_request_id e) \<noteq> None
     \<and> (case env_offset e of None \<Rightarrow> length (env_payload e) < 2 ^ 32
          | Some off \<Rightarrow> 0 \<le> off \<and> off < 2 ^ 64 \<and> length (env_payload e) + 8 < 2 ^ 32))
   \<and> (\<forall>bs. BinaryEnvelope_encode e m = Inr bs \<longrightarrow> BinaryEnvelope_decode bs m = Inr (canonical_envelope e))"
  using envelope_codec.dec_enc [of m e] by (simp add: encode_accepts)

theorem envelope_roundtrip_witness:
  "BinaryEnvelope_decode [0x59, 0x44, 1, 1, 16,
        0x12, 0x34, 0x56, 0x78, 0x12, 0x34, 0x56, 0x78, 0x12, 0x34, 0x56, 0x78,
        0x12, 0x34, 0x56, 0x78, 3, 0, 0, 0, 10, 0, 0, 0, 0, 0, 0, 1, 2, 7, 8] 2 =
   Inr (canonical_envelope \<lparr>env_request_id = uuid_str 0x12345678123456781234567812345678,
     env_kind = HTTP_REQUEST_DATA, env_payload = [7, 8], env_end_of_body = True,
     env_offset = Some 258\<rparr>)"
  using envelope_roundtrip encode_sample by blast

text \<open>
  C6: The wire form is exact. A frame that \<open>decode\<close> accepts is, byte for byte, what \<open>encode\<close>
  emits for the decoded envelope under the same limit: no two frames decode alike, and nothing
  in a frame is ignored.
\<close>

theorem envelope_wire_exact:
  "BinaryEnvelope_decode raw m = Inr e \<Longrightarrow>
     BinaryEnvelope_encode e m = Inr raw \<and> canonical_envelope e = e"
  using envelope_codec.enc_dec [of m raw e] envelope_codec.dec_canonical [of m raw e] by simp

theorem envelope_wire_exact_witness:
  "BinaryEnvelope_encode
     \<lparr>env_request_id = uuid_str 0, env_kind = WS_BINARY_DATA, env_payload = [7, 8],
      env_end_of_body = False, env_offset = None\<rparr> 2 =
   Inr ([0x59, 0x44, 1, 3, 16, 0, 0, 0, 0, 0, 0, 0, 0, 0, 0, 0, 0, 0, 0, 0, 0, 0, 0, 0, 0, 2]
        @ [7, 8])"
  by (rule envelope_wire_exact [THEN conjunct1])
     (simp add: BinaryEnvelope_decode_def BINARY_MAGIC_def HEADER_SIZE_def UUID_BYTES_def flag_defs
        BINARY_ENVELOPE_VERSION_def kind_of_code_def uuid_of_bytes_def bytes_value_def be_value_def)

section \<open>The hello frame\<close>

lemma hello_frame_eq_Inr:
  "hello_frame pv ch infl win body ws res sid = Inr f \<longleftrightarrow>
     0 < pv \<and> 1024 \<le> ch \<and> 0 < infl \<and> 0 < win \<and> 0 < body \<and> 0 < ws
     \<and> (\<exists>sid'. (case sid of None \<Rightarrow> sid' = None
                | Some s \<Rightarrow> if res then \<exists>t. canonical_id s = Some t \<and> sid' = Some t else sid' = Some s)
         \<and> f = [(''type'', JStr ''hello''), (''protocol_version'', JInt pv),
              (''max_stream_chunk'', JInt ch), (''max_inflight'', JInt infl),
              (''stream_window_frames'', JInt win), (''max_body_size'', JInt body),
              (''max_ws_message_size'', JInt ws)]
             @ (if res then (''resume'', JBool True) # (case sid' of None \<Rightarrow> []
                  | Some s \<Rightarrow> [(''session_id'', JStr s)]) else []))"
  by (auto simp: hello_frame_def MIN_STREAM_CHUNK_BYTES_def Let_def not_le not_less
      split: option.splits if_splits)

end
