(* ===== verification/TunnelConfig.thy ===== *)
theory TunnelConfig
  imports TunnelProtocol "HOL-Library.Sublist"
begin

text \<open>
  The configuration of a tunnel client (\<open>_positive_int_env\<close>, \<open>TunnelClient.__init__\<close>), the
  negotiation of the limits with a peer's \<open>hello\<close> (the \<open>hello\<close> branch of \<open>_proxy_loop\<close>) and the
  header list of a rebuilt request (\<open>_headers_for_rebuilt_request\<close>).
\<close>

section \<open>Limits of one client\<close>

definition MAX_CONFIGURED_BODY_BYTES :: int where
  "MAX_CONFIGURED_BODY_BYTES = 1024 * 1024 * 1024"
definition MAX_CONFIGURED_WS_MESSAGE_BYTES :: int where
  "MAX_CONFIGURED_WS_MESSAGE_BYTES = 8 * 1024 * 1024"
definition MAX_CONFIGURED_STREAM_CHUNK_BYTES :: int where
  "MAX_CONFIGURED_STREAM_CHUNK_BYTES = 64 * 1024"
definition MAX_CONFIGURED_INFLIGHT :: int where "MAX_CONFIGURED_INFLIGHT = 1024"
definition MAX_CONFIGURED_WINDOW_FRAMES :: int where "MAX_CONFIGURED_WINDOW_FRAMES = 1024"
definition OUTBOUND_QUEUE_FRAMES :: int where "OUTBOUND_QUEUE_FRAMES = 512"
definition OUTBOUND_CONTROL_RESERVE :: int where "OUTBOUND_CONTROL_RESERVE = 32"

lemmas limit_defs =
  PROTOCOL_VERSION_def DEFAULT_STREAM_CHUNK_BYTES_def MIN_STREAM_CHUNK_BYTES_def
  DEFAULT_FAST_PATH_BODY_BYTES_def DEFAULT_MAX_INFLIGHT_def DEFAULT_STREAM_WINDOW_FRAMES_def
  DEFAULT_MAX_BODY_BYTES_def DEFAULT_MAX_WS_MESSAGE_BYTES_def MAX_V1_BODY_BYTES_def
  MAX_CONFIGURED_BODY_BYTES_def MAX_CONFIGURED_WS_MESSAGE_BYTES_def
  MAX_CONFIGURED_STREAM_CHUNK_BYTES_def MAX_CONFIGURED_INFLIGHT_def
  MAX_CONFIGURED_WINDOW_FRAMES_def OUTBOUND_QUEUE_FRAMES_def OUTBOUND_CONTROL_RESERVE_def

definition positive_int_env :: "env \<Rightarrow> string \<Rightarrow> int \<Rightarrow> int \<Rightarrow> int result" where
  "positive_int_env environ name dflt maximum =
     bind_result
       (case environ name of
          None \<Rightarrow> Inr dflt
        | Some raw \<Rightarrow>
            (case py_int raw of
               None \<Rightarrow> Inl (ValueError (name @ '' must be a positive integer''))
             | Some n \<Rightarrow> Inr n))
       (\<lambda>v. if v \<le> 0 then Inl (ValueError (name @ '' must be greater than zero''))
            else Inr (min v maximum))"

record tunnel_limits =
  tl_protocol_version :: int
  tl_max_body_size :: int
  tl_max_ws_message_size :: int
  tl_max_stream_chunk :: int
  tl_max_inflight :: int
  tl_stream_window_frames :: int
  tl_fast_path_body_bytes :: int

text \<open>
  The checks and the environment reads of \<open>TunnelClient.__init__\<close>, in its order. The remaining
  attributes it sets are empty handles (loop, thread, events).
\<close>

definition TunnelClient_init :: "env \<Rightarrow> rat \<Rightarrow> rat \<Rightarrow> tunnel_limits result" where
  "TunnelClient_init environ ping_interval ping_timeout =
     (if ping_interval \<le> 0 then Inl (ValueError ''ping_interval must be greater than zero'')
      else if ping_timeout \<le> 0 then Inl (ValueError ''ping_timeout must be greater than zero'')
      else
        bind_result (positive_int_env environ ''YR_TUNNEL_PROTOCOL_VERSION''
                       PROTOCOL_VERSION PROTOCOL_VERSION) (\<lambda>version.
        bind_result (positive_int_env environ ''YR_TUNNEL_MAX_BODY_SIZE''
                       DEFAULT_MAX_BODY_BYTES MAX_CONFIGURED_BODY_BYTES) (\<lambda>body.
        bind_result (positive_int_env environ ''YR_TUNNEL_MAX_WS_MESSAGE_SIZE''
                       DEFAULT_MAX_WS_MESSAGE_BYTES MAX_CONFIGURED_WS_MESSAGE_BYTES) (\<lambda>ws.
        bind_result (positive_int_env environ ''YR_TUNNEL_STREAM_CHUNK_BYTES''
                       DEFAULT_STREAM_CHUNK_BYTES MAX_CONFIGURED_STREAM_CHUNK_BYTES) (\<lambda>chunk.
        bind_result (positive_int_env environ ''YR_TUNNEL_MAX_INFLIGHT''
                       DEFAULT_MAX_INFLIGHT MAX_CONFIGURED_INFLIGHT) (\<lambda>inflight.
        bind_result (positive_int_env environ ''YR_TUNNEL_STREAM_WINDOW_FRAMES''
                       DEFAULT_STREAM_WINDOW_FRAMES MAX_CONFIGURED_WINDOW_FRAMES) (\<lambda>window.
        bind_result (positive_int_env environ ''YR_TUNNEL_FAST_PATH_BODY_BYTES''
                       DEFAULT_FAST_PATH_BODY_BYTES (min body MAX_V1_BODY_BYTES)) (\<lambda>fast.
        Inr \<lparr>tl_protocol_version = version, tl_max_body_size = body,
             tl_max_ws_message_size = ws, tl_max_stream_chunk = max MIN_STREAM_CHUNK_BYTES chunk,
             tl_max_inflight = inflight, tl_stream_window_frames = window,
             tl_fast_path_body_bytes = fast\<rparr>))))))))"

text \<open>What every constructed client's limits satisfy.\<close>

definition limits_ok :: "tunnel_limits \<Rightarrow> bool" where
  "limits_ok L \<longleftrightarrow>
     1 \<le> tl_protocol_version L \<and> tl_protocol_version L \<le> 2
     \<and> 1 \<le> tl_max_body_size L \<and> tl_max_body_size L \<le> 1024 * 1024 * 1024
     \<and> 1 \<le> tl_max_ws_message_size L \<and> tl_max_ws_message_size L \<le> 8 * 1024 * 1024
     \<and> 1024 \<le> tl_max_stream_chunk L \<and> tl_max_stream_chunk L \<le> 64 * 1024
     \<and> 1 \<le> tl_max_inflight L \<and> tl_max_inflight L \<le> 1024
     \<and> 1 \<le> tl_stream_window_frames L \<and> tl_stream_window_frames L \<le> 1024
     \<and> 1 \<le> tl_fast_path_body_bytes L \<and> tl_fast_path_body_bytes L \<le> tl_max_body_size L
     \<and> tl_fast_path_body_bytes L \<le> 5 * 1024 * 1024"

lemma positive_int_env_bounds:
  "positive_int_env environ name d m = Inr v \<Longrightarrow> 1 \<le> m \<Longrightarrow> 1 \<le> v \<and> v \<le> m"
  by (auto simp: positive_int_env_def bind_result_eq_Inr split: if_splits)

lemma init_limits_ok:
  assumes "TunnelClient_init environ interval timeout = Inr L"
  shows "limits_ok L"
proof -
  note bounds = positive_int_env_bounds
  from assms obtain v b w c i f q where
    "positive_int_env environ ''YR_TUNNEL_PROTOCOL_VERSION'' 2 2 = Inr v"
    "positive_int_env environ ''YR_TUNNEL_MAX_BODY_SIZE'' (512 * 1024 * 1024) (1024 * 1024 * 1024) = Inr b"
    "positive_int_env environ ''YR_TUNNEL_MAX_WS_MESSAGE_SIZE'' (8 * 1024 * 1024) (8 * 1024 * 1024) = Inr w"
    "positive_int_env environ ''YR_TUNNEL_STREAM_CHUNK_BYTES'' (64 * 1024) (64 * 1024) = Inr c"
    "positive_int_env environ ''YR_TUNNEL_MAX_INFLIGHT'' 16 1024 = Inr i"
    "positive_int_env environ ''YR_TUNNEL_STREAM_WINDOW_FRAMES'' 16 1024 = Inr f"
    "positive_int_env environ ''YR_TUNNEL_FAST_PATH_BODY_BYTES'' (64 * 1024) (min b (5 * 1024 * 1024)) = Inr q"
    and L: "L = \<lparr>tl_protocol_version = v, tl_max_body_size = b, tl_max_ws_message_size = w,
      tl_max_stream_chunk = max 1024 c, tl_max_inflight = i, tl_stream_window_frames = f,
      tl_fast_path_body_bytes = q\<rparr>"
    unfolding TunnelClient_init_def limit_defs by (auto simp: bind_result_eq_Inr split: if_splits)
  note env = this
  have "1 \<le> b" using bounds [OF env(2)] by simp
  then show ?thesis
    using bounds [OF env(1)] bounds [OF env(2)] bounds [OF env(3)] bounds [OF env(4)]
      bounds [OF env(5)] bounds [OF env(6)] bounds [OF env(7)]
    by (simp add: limits_ok_def L)
qed

section \<open>Negotiation\<close>

record negotiated =
  ng_protocol_version :: int
  ng_stream_chunk :: int
  ng_max_inflight :: int
  ng_stream_window :: int
  ng_max_body_size :: int
  ng_max_ws_message_size :: int

text \<open>The values a connection starts with: version 1 and the client's own limits.\<close>

definition initial_negotiated :: "tunnel_limits \<Rightarrow> negotiated" where
  "initial_negotiated L =
     \<lparr>ng_protocol_version = 1, ng_stream_chunk = tl_max_stream_chunk L,
      ng_max_inflight = tl_max_inflight L, ng_stream_window = tl_stream_window_frames L,
      ng_max_body_size = tl_max_body_size L,
      ng_max_ws_message_size = tl_max_ws_message_size L\<rparr>"

text \<open>The frame the client sends after connecting.\<close>

definition client_hello :: "tunnel_limits \<Rightarrow> string \<Rightarrow> jobj result" where
  "client_hello L session_id =
     hello_frame (tl_protocol_version L) (tl_max_stream_chunk L) (tl_max_inflight L)
       (tl_stream_window_frames L) (tl_max_body_size L) (tl_max_ws_message_size L)
       True (Some session_id)"

definition handle_hello :: "tunnel_limits \<Rightarrow> jobj \<Rightarrow> negotiated \<Rightarrow> negotiated" where
  "handle_hello L frame ng =
     (if ng_protocol_version ng \<ge> PROTOCOL_VERSION then ng
      else
        case (as_int (jget frame ''protocol_version''), as_int (jget frame ''max_stream_chunk''),
              as_int (jget frame ''max_inflight''), as_int (jget frame ''stream_window_frames''),
              as_int (jget_or frame ''max_body_size'' (JInt (tl_max_body_size L))),
              as_int (jget_or frame ''max_ws_message_size'' (JInt (tl_max_ws_message_size L)))) of
          (Some peer_version, Some peer_chunk, Some peer_inflight, Some peer_window,
           Some peer_max_body, Some peer_max_ws_message) \<Rightarrow>
            if tl_protocol_version L \<ge> PROTOCOL_VERSION
               \<and> peer_version \<ge> PROTOCOL_VERSION
               \<and> peer_chunk \<ge> MIN_STREAM_CHUNK_BYTES
               \<and> peer_inflight > 0 \<and> peer_window > 0
               \<and> peer_max_body > 0 \<and> peer_max_ws_message > 0
               \<and> jget frame ''resume'' = JBool True
            then
              let inflight = min (tl_max_inflight L) peer_inflight;
                  window = min (tl_stream_window_frames L) peer_window
              in \<lparr>ng_protocol_version = PROTOCOL_VERSION,
                  ng_stream_chunk = min (tl_max_stream_chunk L) peer_chunk,
                  ng_max_inflight = inflight,
                  ng_stream_window = min window
                    (max 1 ((OUTBOUND_QUEUE_FRAMES - OUTBOUND_CONTROL_RESERVE) div inflight)),
                  ng_max_body_size = min (tl_max_body_size L) peer_max_body,
                  ng_max_ws_message_size = min (tl_max_ws_message_size L) peer_max_ws_message\<rparr>
            else ng
        | _ \<Rightarrow> ng)"

text \<open>What holds of a connection's values at every moment.\<close>

definition negotiated_ok :: "tunnel_limits \<Rightarrow> negotiated \<Rightarrow> bool" where
  "negotiated_ok L ng \<longleftrightarrow>
     ng_protocol_version ng \<in> {1, 2}
     \<and> 1024 \<le> ng_stream_chunk ng \<and> ng_stream_chunk ng \<le> tl_max_stream_chunk L
     \<and> 1 \<le> ng_max_inflight ng \<and> ng_max_inflight ng \<le> tl_max_inflight L
     \<and> 1 \<le> ng_stream_window ng \<and> ng_stream_window ng \<le> tl_stream_window_frames L
     \<and> 1 \<le> ng_max_body_size ng \<and> ng_max_body_size ng \<le> tl_max_body_size L
     \<and> 1 \<le> ng_max_ws_message_size ng \<and> ng_max_ws_message_size ng \<le> tl_max_ws_message_size L
     \<and> (ng_protocol_version ng = 2 \<and> ng_max_inflight ng \<le> 480 \<longrightarrow>
          ng_stream_window ng * ng_max_inflight ng \<le> 480)"

lemma initial_negotiated_ok: "limits_ok L \<Longrightarrow> negotiated_ok L (initial_negotiated L)"
  by (simp add: limits_ok_def negotiated_ok_def initial_negotiated_def)

lemma outbound_share:
  assumes "1 \<le> (i :: int)" "i \<le> 480" "w \<le> max 1 (480 div i)"
  shows "w * i \<le> 480"
proof -
  have "0 < 480 div i" using assms(1,2) by (simp add: pos_imp_zdiv_pos_iff)
  then have "w * i \<le> (480 div i) * i" using assms by (intro mult_right_mono) auto
  also have "\<dots> \<le> 480" using assms(1) by (simp add: minus_mod_eq_div_mult [symmetric])
  finally show ?thesis .
qed

text \<open>A hello either leaves the values alone or sets all of them.\<close>

definition negotiate :: "tunnel_limits \<Rightarrow> int \<Rightarrow> int \<Rightarrow> int \<Rightarrow> int \<Rightarrow> int \<Rightarrow> negotiated" where
  "negotiate L chunk inflight window body ws =
     \<lparr>ng_protocol_version = 2, ng_stream_chunk = min (tl_max_stream_chunk L) chunk,
      ng_max_inflight = min (tl_max_inflight L) inflight,
      ng_stream_window = min (min (tl_stream_window_frames L) window)
        (max 1 (480 div min (tl_max_inflight L) inflight)),
      ng_max_body_size = min (tl_max_body_size L) body,
      ng_max_ws_message_size = min (tl_max_ws_message_size L) ws\<rparr>"

lemma handle_hello_cases:
  obtains "handle_hello L frame ng = ng"
  | chunk inflight window body ws where
      "handle_hello L frame ng = negotiate L chunk inflight window body ws"
      "ng_protocol_version ng < 2" "2 \<le> tl_protocol_version L"
      "1024 \<le> chunk" "0 < inflight" "0 < window" "0 < body" "0 < ws"
      "jget frame ''resume'' = JBool True"
proof (cases "handle_hello L frame ng = ng")
  case False
  then have old: "\<not> ng_protocol_version ng \<ge> PROTOCOL_VERSION"
    by (auto simp: handle_hello_def)
  note stuck = handle_hello_def old
  from False obtain v where v: "as_int (jget frame ''protocol_version'') = Some v"
    by (cases "as_int (jget frame ''protocol_version'')") (simp_all add: stuck)
  from False obtain chunk where c: "as_int (jget frame ''max_stream_chunk'') = Some chunk"
    by (cases "as_int (jget frame ''max_stream_chunk'')") (simp_all add: stuck v)
  from False obtain inflight where i: "as_int (jget frame ''max_inflight'') = Some inflight"
    by (cases "as_int (jget frame ''max_inflight'')") (simp_all add: stuck v c)
  from False obtain window where w: "as_int (jget frame ''stream_window_frames'') = Some window"
    by (cases "as_int (jget frame ''stream_window_frames'')") (simp_all add: stuck v c i)
  from False obtain body where
    b: "as_int (jget_or frame ''max_body_size'' (JInt (tl_max_body_size L))) = Some body"
    by (cases "as_int (jget_or frame ''max_body_size'' (JInt (tl_max_body_size L)))")
      (simp_all add: stuck v c i w)
  from False obtain ws where
    s: "as_int (jget_or frame ''max_ws_message_size'' (JInt (tl_max_ws_message_size L))) = Some ws"
    by (cases "as_int (jget_or frame ''max_ws_message_size'' (JInt (tl_max_ws_message_size L)))")
      (simp_all add: stuck v c i w b)
  note parts = v c i w b s
  have "tl_protocol_version L \<ge> PROTOCOL_VERSION \<and> v \<ge> PROTOCOL_VERSION
      \<and> chunk \<ge> MIN_STREAM_CHUNK_BYTES \<and> inflight > 0 \<and> window > 0 \<and> body > 0 \<and> ws > 0
      \<and> jget frame ''resume'' = JBool True" (is ?acceptable)
  proof (rule ccontr)
    assume no: "\<not> ?acceptable"
    have "handle_hello L frame ng = ng"
      by (simp only: stuck parts prod.case option.case if_False if_not_P [OF no])
    with False show False ..
  qed
  moreover from this have "handle_hello L frame ng = negotiate L chunk inflight window body ws"
    using old by (simp add: handle_hello_def parts negotiate_def limit_defs Let_def)
  ultimately show ?thesis
    using old by (auto simp: limit_defs intro!: that(2) [of chunk inflight window body ws])
qed (rule that)

lemma negotiate_ok:
  assumes "limits_ok L" "1024 \<le> chunk" "0 < inflight" "0 < window" "0 < body" "0 < ws"
  shows "negotiated_ok L (negotiate L chunk inflight window body ws)"
proof -
  let ?i = "min (tl_max_inflight L) inflight"
  have "1 \<le> ?i" using assms by (simp add: limits_ok_def)
  then have "?i \<le> 480 \<Longrightarrow> min (min (tl_stream_window_frames L) window) (max 1 (480 div ?i)) * ?i \<le> 480"
    by (rule outbound_share) simp_all
  then show ?thesis
    using assms by (simp add: negotiated_ok_def negotiate_def limits_ok_def)
qed

lemma handle_hello_ok [inv_intros]:
  assumes "limits_ok L" and "negotiated_ok L ng"
  shows "negotiated_ok L (handle_hello L frame ng)"
  using assms by (cases L frame ng rule: handle_hello_cases) (simp_all add: negotiate_ok)

lemma handle_hello_settled: "2 \<le> ng_protocol_version ng \<Longrightarrow> handle_hello L frame ng = ng"
  by (simp add: handle_hello_def PROTOCOL_VERSION_def)

lemma client_hello_fields:
  assumes "client_hello L sid = Inr f"
  shows "as_int (jget f ''protocol_version'') = Some (tl_protocol_version L)"
    "as_int (jget f ''max_stream_chunk'') = Some (tl_max_stream_chunk L)"
    "as_int (jget f ''max_inflight'') = Some (tl_max_inflight L)"
    "as_int (jget f ''stream_window_frames'') = Some (tl_stream_window_frames L)"
    "as_int (jget_or f ''max_body_size'' d) = Some (tl_max_body_size L)"
    "as_int (jget_or f ''max_ws_message_size'' d) = Some (tl_max_ws_message_size L)"
    "jget f ''resume'' = JBool True"
  using assms by (auto simp: client_hello_def hello_frame_eq_Inr jget_or_def jget_def)

lemma handle_client_hello:
  assumes "limits_ok L" "limits_ok P" "client_hello P sid = Inr f"
  shows "handle_hello L f (initial_negotiated L) =
    (if tl_protocol_version L = 2 \<and> tl_protocol_version P = 2
     then negotiate L (tl_max_stream_chunk P) (tl_max_inflight P) (tl_stream_window_frames P)
       (tl_max_body_size P) (tl_max_ws_message_size P)
     else initial_negotiated L)"
  using assms(1,2)
  by (simp add: handle_hello_def client_hello_fields [OF assms(3)] limits_ok_def limit_defs
      initial_negotiated_def negotiate_def Let_def)

lemma client_hello_total:
  "limits_ok L \<Longrightarrow> canonical_id sid = Some t \<Longrightarrow> \<exists>f. client_hello L sid = Inr f"
  by (simp add: client_hello_def hello_frame_eq_Inr limits_ok_def)

text \<open>
  The limits of a constructed client. Whatever the environment holds, a client that is
  constructed has every limit positive and under its maximum, the stream chunk at least 1024
  bytes, the fast path within both the body limit and the version-1 limit, and its hello frame
  can be built for every session id that is a UUID.
\<close>

theorem constructed_client_limits:
  assumes "TunnelClient_init environ interval timeout = Inr L"
    and "canonical_id sid = Some t"
  shows "limits_ok L \<and> (\<exists>f. client_hello L sid = Inr f)"
  using init_limits_ok [OF assms(1)] client_hello_total [OF _ assms(2)] by blast

lemma canonical_zero: "canonical_id (uuid_str 0) = Some (uuid_str 0)"
  by (simp add: canonical_id_def uuid_parse_str uuid_limit_def)

theorem constructed_client_limits_witness:
  "\<exists>L. TunnelClient_init [''YR_TUNNEL_STREAM_CHUNK_BYTES'' \<mapsto> ''10''] 20 10 = Inr L
     \<and> tl_max_stream_chunk L = 1024 \<and> limits_ok L \<and> (\<exists>f. client_hello L (uuid_str 0) = Inr f)"
proof -
  have "\<exists>L. TunnelClient_init [''YR_TUNNEL_STREAM_CHUNK_BYTES'' \<mapsto> ''10''] 20 10 = Inr L
      \<and> tl_max_stream_chunk L = 1024"
    by (simp add: TunnelClient_init_def positive_int_env_def limit_defs py_int_def int10_digits_def
        is_dec_digit_def dec_value_def strip_by_def lstrip_by_def rstrip_by_def int_space_def
        py_isspace_def be_value_def)
  then show ?thesis using constructed_client_limits [OF _ canonical_zero] by metis
qed


definition sample_limits :: "int \<Rightarrow> int \<Rightarrow> tunnel_limits" where
  "sample_limits inflight window =
     \<lparr>tl_protocol_version = 2, tl_max_body_size = 4096, tl_max_ws_message_size = 4096,
      tl_max_stream_chunk = 1024, tl_max_inflight = inflight, tl_stream_window_frames = window,
      tl_fast_path_body_bytes = 64\<rparr>"


text \<open>
  Every hello keeps the limits. Whatever frame the peer sends, the values in force stay within
  the client's own limits and positive, and once version 2 is agreed with at most 480 requests in
  flight, all windows together leave the outbound queue its 32 slots for control frames.
\<close>

theorem hello_keeps_limits:
  assumes "limits_ok L" and "negotiated_ok L ng"
  shows "negotiated_ok L (handle_hello L frame ng)"
  using assms by (rule handle_hello_ok)

theorem hello_keeps_limits_witness:
  "negotiated_ok (sample_limits 16 500)
     (handle_hello (sample_limits 16 500)
        [(''protocol_version'', JInt 2), (''max_stream_chunk'', JInt 4096),
         (''max_inflight'', JBool True), (''stream_window_frames'', JInt 1000),
         (''resume'', JBool True)]
        (initial_negotiated (sample_limits 16 500)))"
  by (rule hello_keeps_limits) (simp_all add: limits_ok_def sample_limits_def initial_negotiated_ok)

section \<open>Headers of a rebuilt request\<close>

definition HOP_BY_HOP_HEADERS :: "string list" where
  "HOP_BY_HOP_HEADERS =
     [''connection'', ''keep-alive'', ''proxy-authenticate'', ''proxy-authorization'',
      ''proxy-connection'', ''te'', ''trailer'', ''transfer-encoding'', ''upgrade'']"

type_synonym header = "string \<times> string"

definition header_pair :: "json \<Rightarrow> header result" where
  "header_pair item =
     (case item of
        JList [name, val] \<Rightarrow>
          (case (name, val) of
             (JStr n, JStr v) \<Rightarrow> Inr (n, v)
           | _ \<Rightarrow> Inl (TypeError ''tunnel header names and values must be strings''))
      | _ \<Rightarrow> Inl (ValueError ''tunnel headers must be [name, value] pairs''))"

definition connection_tokens :: "header list \<Rightarrow> string list" where
  "connection_tokens pairs =
     concat (map (\<lambda>(name, val).
       if py_lower name = ''connection''
       then map (\<lambda>token. py_lower (py_strip token))
              (filter (\<lambda>token. py_strip token \<noteq> []) (split_on (CHR '','') val))
       else []) pairs)"

definition excluded_headers :: "header list \<Rightarrow> string list" where
  "excluded_headers pairs =
     HOP_BY_HOP_HEADERS @ connection_tokens pairs @ [''host'', ''content-length'', ''expect'']"

definition headers_for_rebuilt_request :: "json \<Rightarrow> header list result" where
  "headers_for_rebuilt_request headers =
     bind_result (py_iter (jor headers (JList [])))  (\<lambda>items.
     bind_result (map_result header_pair items) (\<lambda>pairs.
       Inr (filter (\<lambda>(name, val). py_lower name \<notin> set (excluded_headers pairs)) pairs)))"

definition header_json :: "header list \<Rightarrow> json" where
  "header_json pairs = JList (map (\<lambda>(n, v). JList [JStr n, JStr v]) pairs)"

lemma header_pair_json [simp]: "header_pair (JList [JStr n, JStr v]) = Inr (n, v)"
  by (simp add: header_pair_def)

lemma rebuilt_of_pairs:
  "headers_for_rebuilt_request (header_json pairs) =
     Inr (filter (\<lambda>(n, v). py_lower n \<notin> set (excluded_headers pairs)) pairs)"
proof -
  have "map_result header_pair (map (\<lambda>(n, v). JList [JStr n, JStr v]) pairs) = Inr pairs"
    by (induction pairs) auto
  moreover have "py_iter (jor (header_json pairs) (JList [])) =
      Inr (map (\<lambda>(n, v). JList [JStr n, JStr v]) pairs)"
    by (cases pairs) (simp_all add: jor_def header_json_def)
  ultimately show ?thesis by (simp add: headers_for_rebuilt_request_def)
qed

lemma rebuilt_cases:
  assumes "headers_for_rebuilt_request headers = Inr out"
  obtains pairs where "out = filter (\<lambda>(n, v). py_lower n \<notin> set (excluded_headers pairs)) pairs"
  using assms by (auto simp: headers_for_rebuilt_request_def bind_result_eq_Inr)

lemma no_connection_tokens:
  "\<forall>(n, v)\<in>set pairs. py_lower n \<noteq> ''connection'' \<Longrightarrow> connection_tokens pairs = []"
  by (induction pairs) (auto simp: connection_tokens_def)

lemma rebuilt_again:
  assumes "headers_for_rebuilt_request headers = Inr out"
  shows "headers_for_rebuilt_request (header_json out) = Inr out"
proof -
  from assms obtain pairs where
    out: "out = filter (\<lambda>(n, v). py_lower n \<notin> set (excluded_headers pairs)) pairs"
    by (rule rebuilt_cases)
  have kept: "py_lower n \<notin> set (excluded_headers pairs)" if "(n, v) \<in> set out" for n v
    using that by (auto simp: out)
  have "''connection'' \<in> set (excluded_headers pairs)"
    by (simp add: excluded_headers_def HOP_BY_HOP_HEADERS_def)
  with kept have "connection_tokens out = []" by (intro no_connection_tokens) fastforce
  then have "set (excluded_headers out) \<subseteq> set (excluded_headers pairs)"
    by (auto simp: excluded_headers_def)
  with kept have "filter (\<lambda>(n, v). py_lower n \<notin> set (excluded_headers out)) out = out"
    by (auto simp: filter_id_conv)
  then show ?thesis by (simp add: rebuilt_of_pairs)
qed

interpretation rebuilt_headers: normaliser headers_for_rebuilt_request header_json
  by unfold_locales (rule rebuilt_again)

text \<open>
  The headers of a rebuilt request. Given well-formed pairs, a header is forwarded exactly
  when its lower-cased name is not hop-by-hop, not one of host, content-length and expect, and
  not named by a token of a Connection header; the order and the duplicates are kept, and
  filtering the result again (a second hop) changes nothing.
\<close>

theorem rebuilt_headers_exact:
  "\<exists>out. headers_for_rebuilt_request (header_json pairs) = Inr out
     \<and> (\<forall>h. count_list out h =
          (if py_lower (fst h) \<in> set HOP_BY_HOP_HEADERS \<union> set (connection_tokens pairs)
                \<union> {''host'', ''content-length'', ''expect''}
           then 0 else count_list pairs h))
     \<and> subseq out pairs
     \<and> headers_for_rebuilt_request (header_json out) = Inr out"
proof -
  define keep where "keep = (\<lambda>(n, v :: string). py_lower n \<notin> set (excluded_headers pairs))"
  let ?out = "filter keep pairs"
  have eq: "headers_for_rebuilt_request (header_json pairs) = Inr ?out"
    by (simp add: rebuilt_of_pairs keep_def)
  have excl: "set (excluded_headers pairs) = set HOP_BY_HOP_HEADERS \<union> set (connection_tokens pairs)
                \<union> {''host'', ''content-length'', ''expect''}"
    by (auto simp: excluded_headers_def)
  have "count_list (filter keep ps) h = (if keep h then count_list ps h else 0)" for ps h
    by (induction ps) auto
  moreover have "keep h \<longleftrightarrow> \<not> py_lower (fst h) \<in> set HOP_BY_HOP_HEADERS
      \<union> set (connection_tokens pairs) \<union> {''host'', ''content-length'', ''expect''}" for h
    by (simp add: keep_def excl split_beta)
  ultimately show ?thesis
    using eq rebuilt_again [OF eq] by (intro exI [of _ ?out]) auto
qed

end
