(* ===== verification/TunnelCache.thy ===== *)
theory TunnelCache
  imports TunnelConfig
begin

text \<open>
  The two caches of a tunnel connection (\<open>cleanup_completed\<close>, \<open>remember_terminated\<close> and
  \<open>is_terminated\<close> in \<open>_proxy_loop\<close>): finished responses kept for replay, and the ids of streams
  that ended, kept so that late frames are absorbed. Both are dictionaries in insertion order
  whose entries carry the monotonic time they were stored at; both drop entries older than 300
  seconds and evict oldest first. The clock value is an argument of each operation.
\<close>

section \<open>Frames the client sends\<close>

text \<open>The JSON objects \<open>_proxy_loop\<close> passes to \<open>send_frame\<close>, one constructor per \<open>type\<close>.\<close>

datatype out_frame =
    HttpResp string int "header list" string
  | HttpRespBegin string int "header list" "int option"
  | HttpRespEnd string
  | ErrorFrame string string
  | WindowFrame string int int
  | PongFrame json json
  | PingFrame string int
  | WsConnected string
  | WsMessage string string bool
  | WsClose string int string

section \<open>Oldest-first eviction\<close>

text \<open>\<open>min(c.items(), key=ts)\<close>: the first of the entries with the least time.\<close>

fun oldest :: "('v \<Rightarrow> rat) \<Rightarrow> ('k \<times> 'v) list \<Rightarrow> ('k \<times> 'v) option" where
  "oldest ts [] = None"
| "oldest ts (e # es) =
     (case oldest ts es of
        None \<Rightarrow> Some e
      | Some m \<Rightarrow> if ts (snd m) < ts (snd e) then Some m else Some e)"

text \<open>Entries not older than the time to live.\<close>

definition COMPLETED_FRAME_TTL :: rat where "COMPLETED_FRAME_TTL = 300"
definition COMPLETED_FRAME_LIMIT :: nat where "COMPLETED_FRAME_LIMIT = 1024"
definition COMPLETED_FRAME_BYTES_LIMIT :: nat where "COMPLETED_FRAME_BYTES_LIMIT = 16 * 1024 * 1024"

definition unexpired :: "('v \<Rightarrow> rat) \<Rightarrow> rat \<Rightarrow> ('k \<times> 'v) list \<Rightarrow> ('k \<times> 'v) list" where
  "unexpired ts now c = filter (\<lambda>(k, v). \<not> now - ts v > COMPLETED_FRAME_TTL) c"

text \<open>
  What an eviction loop computes: while \<open>over\<close> holds the oldest entry is removed.
\<close>

lemma oldest_None [simp]: "oldest ts c = None \<longleftrightarrow> c = []"
  by (cases c) (auto split: option.splits)

lemma oldest_in: "oldest ts c = Some e \<Longrightarrow> e \<in> set c"
  by (induction c arbitrary: e) (auto split: option.splits if_splits)

lemma oldest_least: "oldest ts c = Some e \<Longrightarrow> x \<in> set c \<Longrightarrow> ts (snd e) \<le> ts (snd x)"
proof (induction c arbitrary: e)
  case Nil
  then show ?case by simp
next
  case (Cons y c)
  show ?case
  proof (cases "oldest ts c")
    case None
    with Cons.prems show ?thesis by simp
  next
    case (Some m)
    have "ts (snd m) \<le> ts (snd x)" if "x \<in> set c" using Cons.IH [OF Some that] .
    with Some Cons.prems show ?thesis by (fastforce split: if_splits)
  qed
qed

lemma length_delete_less: "k \<in> fst ` set c \<Longrightarrow> length (AList.delete k c) < length c"
  by (auto simp: AList.delete_eq intro!: length_filter_less)

lemma distinct_filter_keys: "distinct (map fst c) \<Longrightarrow> distinct (map fst (filter p c))"
  by (induction c) auto

lemma oldest_delete_less: "oldest ts c = Some e \<Longrightarrow> length (AList.delete (fst e) c) < length c"
  using oldest_in [of ts c e] by (auto intro!: length_delete_less)

function trim :: "(('k \<times> 'v) list \<Rightarrow> bool) \<Rightarrow> ('v \<Rightarrow> rat) \<Rightarrow> ('k \<times> 'v) list \<Rightarrow> ('k \<times> 'v) list" where
  "trim over ts c =
     (if over c then
        (case oldest ts c of None \<Rightarrow> c | Some e \<Rightarrow> trim over ts (AList.delete (fst e) c))
      else c)"
  by pat_completeness auto
termination
  by (relation "measure (\<lambda>(over, ts, c). length c)") (auto dest: oldest_delete_less)

declare trim.simps [simp del]

text \<open>
  A capacity: nothing is over it when empty. A loop that evicts to a capacity ends under it,
  keeps the newest entries, and keeps everything when there is room.
\<close>

locale capacity =
  fixes over :: "('k \<times> 'v) list \<Rightarrow> bool" and ts :: "'v \<Rightarrow> rat"
  assumes over_Nil: "\<not> over []"
begin

lemma trim_fits: "\<not> over (trim over ts c)"
proof (induction "length c" arbitrary: c rule: less_induct)
  case less
  show ?case
  proof (cases "over c")
    case True
    then obtain e where e: "oldest ts c = Some e" using over_Nil by (cases "oldest ts c") auto
    with less [OF oldest_delete_less [OF e]] True show ?thesis by (simp add: trim.simps [of _ _ c])
  qed (simp add: trim.simps)
qed

lemma trim_room: "\<not> over c \<Longrightarrow> trim over ts c = c"
  by (simp add: trim.simps)

lemma trim_subset: "set (trim over ts c) \<subseteq> set c"
proof (induction "length c" arbitrary: c rule: less_induct)
  case less
  show ?case
  proof (cases "oldest ts c")
    case (Some e)
    have "set (AList.delete (fst e) c) \<subseteq> set c" by (auto simp: AList.delete_eq)
    with less [OF oldest_delete_less [OF Some]] Some show ?thesis
      by (subst trim.simps) auto
  qed (subst trim.simps, auto)
qed

lemma trim_distinct: "distinct (map fst c) \<Longrightarrow> distinct (map fst (trim over ts c))"
proof (induction "length c" arbitrary: c rule: less_induct)
  case less
  show ?case
  proof (cases "oldest ts c")
    case (Some e)
    with less(1) [OF oldest_delete_less [OF Some]] less(2) show ?thesis
      by (subst trim.simps) (auto simp: distinct_delete)
  qed (subst trim.simps, auto simp: less)
qed

lemma trim_length: "length (trim over ts c) \<le> length c"
proof (induction "length c" arbitrary: c rule: less_induct)
  case less
  show ?case
  proof (cases "oldest ts c")
    case (Some e)
    with less [OF oldest_delete_less [OF Some]] oldest_delete_less [OF Some] show ?thesis
      by (subst trim.simps) auto
  qed (subst trim.simps, auto)
qed

text \<open>Whatever is dropped is no newer than whatever is kept.\<close>

lemma trim_newest:
  assumes "distinct (map fst c)"
    and "x \<in> set c" "x \<notin> set (trim over ts c)" "y \<in> set (trim over ts c)"
  shows "ts (snd x) \<le> ts (snd y)"
  using assms
proof (induction "length c" arbitrary: c rule: less_induct)
  case less
  show ?case
  proof (cases "over c \<and> c \<noteq> []")
    case False
    with less.prems show ?thesis by (auto simp: trim.simps over_Nil)
  next
    case True
    then obtain e where e: "oldest ts c = Some e" by (cases "oldest ts c") auto
    let ?d = "AList.delete (fst e) c"
    have step: "trim over ts c = trim over ts ?d" using True e by (simp add: trim.simps [of _ _ c])
    show ?thesis
    proof (cases "fst x = fst e")
      case True
      then have "x = e"
        using less.prems(1,2) oldest_in [OF e] by (metis eq_key_imp_eq_value prod.collapse)
      moreover have "y \<in> set c" using less.prems(4) trim_subset by blast
      ultimately show ?thesis using oldest_least [OF e] by blast
    next
      case False
      then have "x \<in> set ?d" using less.prems(2) by (simp add: AList.delete_eq case_prod_unfold)
      then show ?thesis
        using less.hyps [OF oldest_delete_less [OF e]] less.prems step
        by (simp add: distinct_delete)
    qed
  qed
qed

end

section \<open>Finished responses\<close>

type_synonym completed = "(string \<times> (out_frame \<times> rat)) list"

definition headers_bytes :: "header list \<Rightarrow> nat" where
  "headers_bytes hs = (\<Sum>(name, val)\<leftarrow>hs. length name + length val)"

fun cached_frame_bytes :: "out_frame \<Rightarrow> nat" where
  "cached_frame_bytes (HttpResp rid status hs body) = length body + headers_bytes hs"
| "cached_frame_bytes (HttpRespBegin rid status hs clen) = headers_bytes hs"
| "cached_frame_bytes _ = 0"

definition cached_bytes :: "completed \<Rightarrow> nat" where
  "cached_bytes c = (\<Sum>(rid, frame, t)\<leftarrow>c. cached_frame_bytes frame)"

text \<open>The eviction loop, with its running byte count; \<open>min\<close> of an empty dictionary raises.\<close>

function evict_completed :: "completed \<Rightarrow> int \<Rightarrow> completed result" where
  "evict_completed c bytes =
     (if length c > COMPLETED_FRAME_LIMIT \<or> bytes > int COMPLETED_FRAME_BYTES_LIMIT then
        (case oldest snd c of
           None \<Rightarrow> Inl (ValueError ''min() iterable argument is empty'')
         | Some e \<Rightarrow> evict_completed (AList.delete (fst e) c)
                       (bytes - int (cached_frame_bytes (fst (snd e)))))
      else Inr c)"
  by pat_completeness auto
termination
  by (relation "measure (\<lambda>(c, bytes). length c)") (auto dest: oldest_delete_less)

declare evict_completed.simps [simp del]

definition cleanup_completed :: "rat \<Rightarrow> completed \<Rightarrow> completed result" where
  "cleanup_completed now c =
     (let fresh = unexpired snd now c in evict_completed fresh (int (cached_bytes fresh)))"

definition over_completed :: "completed \<Rightarrow> bool" where
  "over_completed c \<longleftrightarrow>
     length c > COMPLETED_FRAME_LIMIT \<or> cached_bytes c > COMPLETED_FRAME_BYTES_LIMIT"

interpretation completed_cache: capacity over_completed snd
  by unfold_locales (simp add: over_completed_def cached_bytes_def)

lemma cached_bytes_delete:
  assumes "distinct (map fst c)" "(k, f, t) \<in> set c"
  shows "cached_bytes c = cached_frame_bytes f + cached_bytes (AList.delete k c)"
  using assms
proof (induction c)
  case (Cons x c)
  then show ?case by (cases x) (fastforce simp: cached_bytes_def image_iff)
qed simp

lemma evict_completed_trim:
  "distinct (map fst c) \<Longrightarrow>
     evict_completed c (int (cached_bytes c)) = Inr (trim over_completed snd c)"
proof (induction "length c" arbitrary: c rule: less_induct)
  case less
  show ?case
  proof (cases "over_completed c")
    case True
    then obtain k f t where e: "oldest snd c = Some (k, f, t)"
      using completed_cache.over_Nil by (cases "oldest snd c") auto
    from less.hyps [OF oldest_delete_less [OF e]] less.prems
    have "evict_completed (AList.delete k c) (int (cached_bytes (AList.delete k c)))
        = Inr (trim over_completed snd (AList.delete k c))"
      by (simp add: distinct_delete)
    moreover have "int (cached_bytes c) - int (cached_frame_bytes f)
        = int (cached_bytes (AList.delete k c))"
      using cached_bytes_delete [OF less.prems oldest_in [OF e]] by simp
    moreover have "COMPLETED_FRAME_LIMIT < length c
        \<or> int COMPLETED_FRAME_BYTES_LIMIT < int (cached_bytes c)"
      using True by (auto simp: over_completed_def)
    note evict_completed.simps [of c "int (cached_bytes c)", unfolded if_P [OF this]]
    ultimately show ?thesis
      using True e by (simp add: trim.simps [of _ _ c])
  qed (simp add: evict_completed.simps [of c] trim.simps over_completed_def)
qed

lemma evict_completed_subset: "evict_completed c n = Inr c' \<Longrightarrow> set c' \<subseteq> set c"
proof (induction "length c" arbitrary: c n rule: less_induct)
  case less
  let ?over = "length c > COMPLETED_FRAME_LIMIT \<or> n > int COMPLETED_FRAME_BYTES_LIMIT"
  show ?case
  proof (cases ?over)
    case True
    note step = evict_completed.simps [of c n, unfolded if_P [OF True]]
    obtain e where e: "oldest snd c = Some e"
      using less.prems step by (cases "oldest snd c") auto
    have "set c' \<subseteq> set (AList.delete (fst e) c)"
      using less.hyps [OF oldest_delete_less [OF e]] less.prems step e by simp
    then show ?thesis by (auto simp: AList.delete_eq)
  next
    case False
    then show ?thesis using less.prems evict_completed.simps [of c n, unfolded if_not_P [OF False]] by simp
  qed
qed

lemma cleanup_completed_subset: "cleanup_completed now c = Inr c' \<Longrightarrow> set c' \<subseteq> set c"
  unfolding cleanup_completed_def Let_def
  by (drule evict_completed_subset) (auto simp: unexpired_def)

lemma distinct_unexpired: "distinct (map fst c) \<Longrightarrow> distinct (map fst (unexpired ts now c))"
  by (simp add: unexpired_def distinct_filter_keys)

lemma cleanup_completed_trim:
  "distinct (map fst c) \<Longrightarrow>
     cleanup_completed now c = Inr (trim over_completed snd (unexpired snd now c))"
  by (simp add: cleanup_completed_def Let_def evict_completed_trim distinct_unexpired)

text \<open>
  The response cache. \<open>cleanup_completed\<close> never fails and always ends: it leaves at most 1024
  frames and at most 16 MiB of them, all unexpired; what it drops besides the expired frames is
  never newer than what it keeps; and when the unexpired frames fit it keeps all of them.
\<close>

theorem completed_cache_bounded:
  assumes "distinct (map fst c)"
  shows "\<exists>c'. cleanup_completed now c = Inr c'
     \<and> length c' \<le> 1024 \<and> cached_bytes c' \<le> 16 * 1024 * 1024 \<and> distinct (map fst c')
     \<and> (\<forall>(rid, f, t) \<in> set c'. (rid, f, t) \<in> set c \<and> now - t \<le> 300)
     \<and> (\<forall>x \<in> set c - set c'. \<forall>y \<in> set c'. now - snd (snd x) \<le> 300 \<longrightarrow> snd (snd x) \<le> snd (snd y))
     \<and> (length (unexpired snd now c) \<le> 1024 \<and> cached_bytes (unexpired snd now c) \<le> 16 * 1024 * 1024
          \<longrightarrow> c' = unexpired snd now c)"
proof -
  let ?u = "unexpired snd now c" and ?c = "trim over_completed snd (unexpired snd now c)"
  have dist: "distinct (map fst ?u)" using assms by (rule distinct_unexpired)
  have sub: "set ?c \<subseteq> set ?u" by (rule completed_cache.trim_subset)
  have "\<not> over_completed ?c" by (rule completed_cache.trim_fits)
  then have size: "length ?c \<le> 1024 \<and> cached_bytes ?c \<le> 16 * 1024 * 1024"
    by (simp add: over_completed_def COMPLETED_FRAME_LIMIT_def COMPLETED_FRAME_BYTES_LIMIT_def)
  have fresh: "\<forall>(rid, f, t) \<in> set ?c. (rid, f, t) \<in> set c \<and> now - t \<le> 300"
    using sub by (auto simp: unexpired_def COMPLETED_FRAME_TTL_def)
  have newest: "\<forall>x \<in> set c - set ?c. \<forall>y \<in> set ?c.
      now - snd (snd x) \<le> 300 \<longrightarrow> snd (snd x) \<le> snd (snd y)"
    using completed_cache.trim_newest [OF dist]
    by (auto simp: unexpired_def COMPLETED_FRAME_TTL_def)
  have room: "length ?u \<le> 1024 \<and> cached_bytes ?u \<le> 16 * 1024 * 1024 \<longrightarrow> ?c = ?u"
    using completed_cache.trim_room [of ?u]
    by (simp add: over_completed_def COMPLETED_FRAME_LIMIT_def COMPLETED_FRAME_BYTES_LIMIT_def)
  show ?thesis
    unfolding cleanup_completed_trim [OF assms]
    by (rule exI [of _ ?c])
       (use size completed_cache.trim_distinct [OF dist] fresh newest room in blast)
qed

theorem completed_cache_bounded_witness:
  "\<exists>c'. cleanup_completed 400 [(''a'', ErrorFrame ''a'' ''x'', 50), (''b'', ErrorFrame ''b'' ''y'', 200)]
     = Inr c' \<and> length c' \<le> 1024"
  using completed_cache_bounded
    [of "[(''a'', ErrorFrame ''a'' ''x'', 50), (''b'', ErrorFrame ''b'' ''y'', 200)]" 400]
  by fastforce

section \<open>Ids of ended streams\<close>

type_synonym terminated = "(string \<times> rat) list"

definition full_terminated :: "terminated \<Rightarrow> bool" where
  "full_terminated t \<longleftrightarrow> length t \<ge> COMPLETED_FRAME_LIMIT"

definition remember_terminated :: "rat \<Rightarrow> string \<Rightarrow> terminated \<Rightarrow> terminated" where
  "remember_terminated now rid t =
     AList.update rid now (trim full_terminated id (unexpired id now t))"

definition is_terminated :: "rat \<Rightarrow> string \<Rightarrow> terminated \<Rightarrow> bool \<times> terminated" where
  "is_terminated now rid t =
     (case map_of t rid of
        None \<Rightarrow> (False, t)
      | Some stamp \<Rightarrow>
          if now - stamp > COMPLETED_FRAME_TTL then (False, AList.delete rid t) else (True, t))"

interpretation terminated_cache: capacity full_terminated id
  by unfold_locales (simp add: full_terminated_def COMPLETED_FRAME_LIMIT_def)

text \<open>What holds of the remembered ids at every moment.\<close>

definition terminated_ok :: "terminated \<Rightarrow> bool" where
  "terminated_ok t \<longleftrightarrow> distinct (map fst t) \<and> length t \<le> 1024"

lemma length_update_le: "length (AList.update k v al) \<le> Suc (length al)"
  by (induction al) auto

lemma remember_terminated_ok [inv_intros]:
  assumes "terminated_ok t"
  shows "terminated_ok (remember_terminated now rid t)"
proof -
  let ?t = "trim full_terminated id (unexpired id now t)"
  have "length ?t < 1024"
    using terminated_cache.trim_fits [of "unexpired id now t"]
    by (simp add: full_terminated_def COMPLETED_FRAME_LIMIT_def)
  moreover have "distinct (map fst ?t)"
    using assms by (auto simp: terminated_ok_def intro!: terminated_cache.trim_distinct distinct_unexpired)
  ultimately show ?thesis
    using length_update_le [of rid now ?t]
    by (simp add: terminated_ok_def remember_terminated_def distinct_update)
qed

lemma is_terminated_ok [inv_intros]:
  "terminated_ok t \<Longrightarrow> terminated_ok (snd (is_terminated now rid t))"
  by (auto simp: terminated_ok_def is_terminated_def AList.delete_eq
      split: option.splits intro: distinct_filter_keys le_trans [OF length_filter_le])

text \<open>
  How long an id is remembered. \<open>S\<close> holds the ids remembered since \<open>rid\<close> was, at time \<open>t0\<close>.
\<close>

definition remembers :: "string \<Rightarrow> rat \<Rightarrow> string set \<Rightarrow> terminated \<Rightarrow> bool" where
  "remembers rid t0 S t \<longleftrightarrow>
     distinct (map fst t) \<and> (rid, t0) \<in> set t
     \<and> (\<forall>(k, v) \<in> set t. k = rid \<or> k \<in> S \<or> v < t0)"

lemma remembers_delete:
  assumes "remembers rid t0 S t" "finite S" "card S < 1023" "full_terminated t"
    and e: "oldest id t = Some e"
  shows "remembers rid t0 S (AList.delete (fst e) t)"
proof -
  have "fst e \<noteq> rid"
  proof
    assume "fst e = rid"
    then have "e = (rid, t0)"
      using assms(1) oldest_in [OF e] by (metis eq_key_imp_eq_value prod.collapse remembers_def)
    then have "t0 \<le> v" if "(k, v) \<in> set t" for k v
      using oldest_least [OF e that] by simp
    then have "set (map fst t) \<subseteq> insert rid S"
      using assms(1) by (fastforce simp: remembers_def)
    then have "card (set (map fst t)) \<le> card (insert rid S)"
      using assms(2) by (intro card_mono) auto
    also have "card (insert rid S) \<le> Suc (card S)" using assms(2) by (simp add: card_insert_if)
    finally have "card (set (map fst t)) \<le> Suc (card S)" .
    moreover have "card (set (map fst t)) = length t"
      using assms(1) distinct_card [of "map fst t"] by (simp add: remembers_def)
    ultimately have "length t \<le> Suc (card S)" by simp
    with assms(3,4) show False by (simp add: full_terminated_def COMPLETED_FRAME_LIMIT_def)
  qed
  with assms(1) show ?thesis
    by (auto simp: remembers_def AList.delete_eq intro: distinct_filter_keys)
qed

lemma remembers_trim:
  assumes "remembers rid t0 S t" "finite S" "card S < 1023"
  shows "remembers rid t0 S (trim full_terminated id t)"
  using assms(1)
proof (induction "length t" arbitrary: t rule: less_induct)
  case less
  show ?case
  proof (cases "full_terminated t")
    case True
    then obtain e where e: "oldest id t = Some e"
      using terminated_cache.over_Nil by (cases "oldest id t") auto
    from remembers_delete [OF less.prems assms(2,3) True e] oldest_delete_less [OF e] less.hyps True e
    show ?thesis by (simp add: trim.simps [of _ _ t])
  next
    case False
    with less.prems show ?thesis by (simp add: trim.simps)
  qed
qed

lemma remembers_step:
  assumes "remembers rid t0 S t" "finite S" "card S < 1023" "rid' \<noteq> rid" "now - t0 \<le> 300"
  shows "remembers rid t0 (insert rid' S) (remember_terminated now rid' t)"
proof -
  have "remembers rid t0 S (unexpired id now t)"
    using assms(1,5)
    by (auto simp: remembers_def unexpired_def COMPLETED_FRAME_TTL_def intro: distinct_filter_keys)
  from remembers_trim [OF this assms(2,3)] assms(4) show ?thesis
    by (auto simp: remembers_def remember_terminated_def distinct_update in_set_update
        terminated_cache.trim_distinct)
qed

lemma terminated_after_remembering:
  assumes "remembers rid t0 S t" "now - t0 \<le> 300"
  shows "is_terminated now rid t = (True, t)"
proof -
  have "map_of t rid = Some t0" using assms(1) by (simp add: remembers_def)
  with assms(2) show ?thesis by (simp add: is_terminated_def COMPLETED_FRAME_TTL_def)
qed

text \<open>A run of \<open>remember_terminated\<close> calls, each with its clock value.\<close>

fun remember_all :: "(rat \<times> string) list \<Rightarrow> terminated \<Rightarrow> terminated" where
  "remember_all [] t = t"
| "remember_all ((now, rid) # ops) t = remember_all ops (remember_terminated now rid t)"

lemma remembers_all:
  assumes "remembers rid t0 S t" "finite S" "card S + length ops \<le> 1023"
    and "\<forall>(now, rid') \<in> set ops. rid' \<noteq> rid \<and> now - t0 \<le> 300"
  shows "\<exists>S'. remembers rid t0 S' (remember_all ops t)"
  using assms
proof (induction ops arbitrary: S t)
  case (Cons op ops)
  obtain now rid' where op: "op = (now, rid')" by (cases op)
  have "remembers rid t0 (insert rid' S) (remember_terminated now rid' t)"
    using Cons.prems op by (intro remembers_step) auto
  moreover have "card (insert rid' S) + length ops \<le> 1023"
    using Cons.prems by (simp add: card_insert_if)
  ultimately show ?case using Cons.prems Cons.IH op by auto
qed auto

lemma remembers_now:
  assumes "terminated_ok t" "\<forall>(k, v) \<in> set t. v < t0"
  shows "remembers rid t0 {} (remember_terminated t0 rid t)"
proof -
  let ?t = "trim full_terminated id (unexpired id t0 t)"
  have "set ?t \<subseteq> set t"
    using terminated_cache.trim_subset [of "unexpired id t0 t"] by (auto simp: unexpired_def)
  moreover have "distinct (map fst ?t)"
    using assms(1) by (auto simp: terminated_ok_def intro!: terminated_cache.trim_distinct distinct_unexpired)
  ultimately show ?thesis
    using assms(2)
    by (fastforce simp: remembers_def remember_terminated_def in_set_update distinct_update
        split: if_splits)
qed

text \<open>
  Late frames are recognised. Once a stream's id is remembered at \<open>t0\<close>, up to 1023 further
  streams may end and 300 seconds may pass, and \<open>is_terminated\<close> still recognises the id; the
  memory never holds more than 1024 ids.
\<close>

theorem terminated_recognised:
  assumes "terminated_ok t" "\<forall>(k, v) \<in> set t. v < t0"
    and "length ops \<le> 1023" "\<forall>(time, rid') \<in> set ops. rid' \<noteq> rid \<and> time - t0 \<le> 300"
    and "now - t0 \<le> 300"
  shows "fst (is_terminated now rid (remember_all ops (remember_terminated t0 rid t)))
    \<and> terminated_ok (remember_all ops (remember_terminated t0 rid t))"
proof -
  have ok: "terminated_ok u \<Longrightarrow> terminated_ok (remember_all ops u)" for u
    by (induction ops u rule: remember_all.induct) (auto intro: inv_intros)
  from remembers_all [OF remembers_now [OF assms(1,2)]] assms(3,4)
  obtain S' where "remembers rid t0 S' (remember_all ops (remember_terminated t0 rid t))" by fastforce
  from terminated_after_remembering [OF this assms(5)] ok [OF remember_terminated_ok [OF assms(1)]]
  show ?thesis by simp
qed

theorem terminated_recognised_witness:
  "fst (is_terminated 300 ''a'' (remember_all [(5, ''b''), (6, ''c'')] (remember_terminated 4 ''a'' [(''a'', 1)])))"
  by (rule terminated_recognised [THEN conjunct1]) (simp_all add: terminated_ok_def)

end
