(* ===== verification/TunnelStreams.thy ===== *)
theory TunnelStreams
  imports TunnelCache
begin

text \<open>
  The two directions of a streamed body in \<open>_proxy_loop\<close>. A request stream takes the chunks the
  sandbox sends and hands them, in order and once each, to the upstream request
  (\<open>handle_http_req_begin\<close>, the request-data branch, \<open>request_content\<close>); a response stream sends
  chunks against credits and keeps them until they are acknowledged (\<open>send_streaming_response\<close>,
  the \<open>window\<close> branch). This theory holds the two state objects, their operations and the laws of
  one stream; \<open>TunnelLoop\<close> puts them behind the receive loop.
\<close>

section \<open>Slices of a body\<close>

definition body_slice :: "int \<Rightarrow> nat \<Rightarrow> byte list \<Rightarrow> byte list" where
  "body_slice off n body = take n (drop (nat off) body)"

section \<open>Request streams\<close>

text \<open>
  \<open>Pulling\<close>: \<open>request_content\<close> waits for a chunk; \<open>Yielded\<close>: it has handed one to the HTTP client
  and has not yet returned its credit; \<open>Exhausted\<close>: it saw the end marker; \<open>Dead\<close>: its task ended or was
  cancelled. \<open>rq_delivered\<close> records the bytes yielded so far; a queue entry \<open>None\<close> is the end marker.
\<close>

datatype consumer = Pulling | Yielded | Exhausted | Dead

record stream =
  rq_queue :: "byte list option list"
  rq_window :: nat
  rq_received :: int
  rq_consumed :: int
  rq_pending_credit :: int
  rq_content_length :: "int option"
  rq_ended :: bool
  rq_consumer :: consumer
  rq_delivered :: "byte list"

definition new_stream :: "int \<Rightarrow> int option \<Rightarrow> stream" where
  "new_stream window content_length =
     \<lparr>rq_queue = [], rq_window = nat window, rq_received = 0, rq_consumed = 0,
      rq_pending_credit = 0, rq_content_length = content_length, rq_ended = False,
      rq_consumer = Pulling, rq_delivered = []\<rparr>"

definition queue_full :: "stream \<Rightarrow> bool" where
  "queue_full s \<longleftrightarrow> 0 < rq_window s \<and> rq_window s \<le> length (rq_queue s)"

text \<open>What the request-data branch decides for a chunk at an offset.\<close>

datatype verdict = Duplicate | Overlap | Gap | AfterEnd | TooLarge | Overflow | Accepted stream

definition accept_chunk :: "int \<Rightarrow> int \<Rightarrow> byte list \<Rightarrow> stream \<Rightarrow> verdict" where
  "accept_chunk max_body chunk_offset payload s =
     (let chunk_end = chunk_offset + int (length payload)
      in if chunk_offset < rq_received s then
           (if chunk_end \<le> rq_received s then Duplicate else Overlap)
         else if chunk_offset > rq_received s then Gap
         else if rq_ended s then AfterEnd
         else if chunk_end > max_body then TooLarge
         else if queue_full s then Overflow
         else Accepted (s\<lparr>rq_queue := rq_queue s @ [Some payload], rq_received := chunk_end\<rparr>))"

text \<open>\<open>request_content\<close>: one turn up to the \<open>yield\<close>, and the credit it sends afterwards.\<close>

definition take_chunk :: "stream \<Rightarrow> stream option" where
  "take_chunk s =
     (case (rq_consumer s, rq_queue s) of
        (Pulling, Some chunk # q) \<Rightarrow>
          Some (s\<lparr>rq_queue := q, rq_consumed := rq_consumed s + int (length chunk),
                  rq_pending_credit := rq_pending_credit s + 1,
                  rq_consumer := Yielded, rq_delivered := rq_delivered s @ chunk\<rparr>)
      | (Pulling, None # q) \<Rightarrow> Some (s\<lparr>rq_queue := q, rq_consumer := Exhausted\<rparr>)
      | _ \<Rightarrow> None)"

definition credit_frame :: "string \<Rightarrow> stream \<Rightarrow> out_frame" where
  "credit_frame rid s = WindowFrame rid 1 (rq_consumed s)"

definition return_credit :: "stream \<Rightarrow> stream option" where
  "return_credit s =
     (if rq_consumer s = Yielded
      then Some (s\<lparr>rq_pending_credit := rq_pending_credit s - 1, rq_consumer := Pulling\<rparr>)
      else None)"

definition put_end :: "stream \<Rightarrow> stream" where
  "put_end s = s\<lparr>rq_queue := rq_queue s @ [None]\<rparr>"

text \<open>The credits a repeated \<open>http_req_begin\<close> is answered with.\<close>

definition remaining_credits :: "int \<Rightarrow> stream \<Rightarrow> int" where
  "remaining_credits window s =
     max 0 (window - int (length (rq_queue s)) - rq_pending_credit s)"

text \<open>The bytes waiting in a queue.\<close>

definition queued :: "stream \<Rightarrow> byte list" where
  "queued s = concat (map (\<lambda>x. case x of None \<Rightarrow> [] | Some chunk \<Rightarrow> chunk) (rq_queue s))"

text \<open>
  The invariant of a request stream. The end marker is the last thing in the queue and is only
  there after the end was seen; the counters are the lengths they stand for.
\<close>

definition stream_ok :: "int \<Rightarrow> stream \<Rightarrow> bool" where
  "stream_ok max_body s \<longleftrightarrow>
     0 < rq_window s \<and> length (rq_queue s) \<le> rq_window s
     \<and> rq_received s = int (length (rq_delivered s) + length (queued s))
     \<and> rq_consumed s = int (length (rq_delivered s))
     \<and> rq_received s \<le> max_body
     \<and> rq_pending_credit s = (if rq_consumer s = Yielded then 1 else rq_pending_credit s)
     \<and> (rq_consumer s \<noteq> Yielded \<and> rq_consumer s \<noteq> Dead \<longrightarrow> rq_pending_credit s = 0)
     \<and> None \<notin> set (butlast (rq_queue s))
     \<and> (None \<in> set (rq_queue s) \<longrightarrow> rq_ended s)
     \<and> (rq_consumer s = Exhausted \<longrightarrow> rq_queue s = [] \<and> rq_ended s)"

lemma queued_append_chunk [simp]:
  "queued (s\<lparr>rq_queue := rq_queue s @ [Some p], rq_received := n\<rparr>) = queued s @ p"
  by (simp add: queued_def)

lemma new_stream_ok: "0 < w \<Longrightarrow> 0 \<le> m \<Longrightarrow> stream_ok m (new_stream w cl)"
  by (simp add: stream_ok_def new_stream_def queued_def)

lemma accept_chunk_cases:
  assumes "accept_chunk m off p s = Accepted s'"
  shows "off = rq_received s" "\<not> rq_ended s" "off + int (length p) \<le> m" "\<not> queue_full s"
    "s' = s\<lparr>rq_queue := rq_queue s @ [Some p], rq_received := off + int (length p)\<rparr>"
  using assms by (auto simp: accept_chunk_def Let_def split: if_splits)

lemma accept_chunk_ok [inv_intros]:
  assumes "stream_ok m s" "accept_chunk m off p s = Accepted s'"
  shows "stream_ok m s'"
proof -
  note a = accept_chunk_cases [OF assms(2)]
  have "None \<notin> set (rq_queue s)" "rq_consumer s \<noteq> Exhausted"
    using assms(1) a(2) by (auto simp: stream_ok_def)
  then show ?thesis
    using assms(1) a by (auto simp: stream_ok_def queue_full_def)
qed

lemma accept_chunk_ok_below:
  assumes "stream_ok M s" "accept_chunk m off p s = Accepted s'" "m \<le> M"
  shows "stream_ok M s'"
proof -
  note a = accept_chunk_cases [OF assms(2)]
  have "accept_chunk M off p s = Accepted s'" using a assms(3) by (simp add: accept_chunk_def)
  with assms(1) show ?thesis by (rule accept_chunk_ok)
qed

lemma take_chunk_ok [inv_intros]:
  assumes "stream_ok m s" "take_chunk s = Some s'"
  shows "stream_ok m s'"
  using assms
  by (auto simp: take_chunk_def stream_ok_def queued_def split: consumer.splits list.splits
      option.splits if_splits)

lemma return_credit_ok [inv_intros]:
  "stream_ok m s \<Longrightarrow> return_credit s = Some s' \<Longrightarrow> stream_ok m s'"
  by (auto simp: return_credit_def stream_ok_def queued_def split: if_splits)

lemma put_end_ok [inv_intros]:
  "stream_ok m s \<Longrightarrow> \<not> queue_full s \<Longrightarrow> rq_ended s \<Longrightarrow> None \<notin> set (rq_queue s)
    \<Longrightarrow> rq_consumer s \<noteq> Exhausted \<Longrightarrow> stream_ok m (put_end s)"
  by (auto simp: put_end_def stream_ok_def queued_def queue_full_def)

text \<open>
  A run of one stream. \<open>Chunk\<close> is a data frame of the sandbox, \<open>Pull\<close> and \<open>Credit\<close> are the two
  turns of \<open>request_content\<close>, \<open>End\<close> is an end whose marker finds room. The run counts the credits
  granted to the sandbox (the window first, then one per \<open>Credit\<close>) and the chunks taken from it.
\<close>

datatype stream_event = Chunk int "byte list" | Pull | Credit | End

record stream_run =
  run_stream :: stream
  run_granted :: int
  run_accepted :: int

definition start_run :: "int \<Rightarrow> int option \<Rightarrow> stream_run" where
  "start_run window content_length =
     \<lparr>run_stream = new_stream window content_length, run_granted = window, run_accepted = 0\<rparr>"

fun stream_step :: "int \<Rightarrow> stream_event \<Rightarrow> stream_run \<Rightarrow> stream_run" where
  "stream_step m (Chunk off p) r =
     (case accept_chunk m off p (run_stream r) of
        Accepted s \<Rightarrow> r\<lparr>run_stream := s, run_accepted := run_accepted r + 1\<rparr>
      | _ \<Rightarrow> r)"
| "stream_step m Pull r =
     (case take_chunk (run_stream r) of None \<Rightarrow> r | Some s \<Rightarrow> r\<lparr>run_stream := s\<rparr>)"
| "stream_step m Credit r =
     (case return_credit (run_stream r) of
        None \<Rightarrow> r | Some s \<Rightarrow> r\<lparr>run_stream := s, run_granted := run_granted r + 1\<rparr>)"
| "stream_step m End r =
     (if rq_ended (run_stream r) \<or> queue_full (run_stream r) then r
      else r\<lparr>run_stream := put_end (run_stream r\<lparr>rq_ended := True\<rparr>)\<rparr>)"

definition stream_execute :: "int \<Rightarrow> stream_event list \<Rightarrow> stream_run \<Rightarrow> stream_run" where
  "stream_execute m es r = fold (stream_step m) es r"

text \<open>
  The abstract view of a request stream over the body the sandbox is sending: what was handed on
  and what waits is the body's prefix of the received length.
\<close>

definition reads :: "byte list \<Rightarrow> stream \<Rightarrow> bool" where
  "reads body s \<longleftrightarrow> rq_delivered s @ queued s = take (nat (rq_received s)) body"

lemma length_reads: "stream_ok m s \<Longrightarrow> reads body s \<Longrightarrow> nat (rq_received s) \<le> length body"
  by (drule arg_cong [of _ _ length] | simp add: stream_ok_def reads_def)+

lemma accept_chunk_reads:
  assumes "stream_ok m s" "reads body s" "accept_chunk m off p s = Accepted s'"
    and "p = body_slice off (length p) body"
  shows "reads body s'"
proof -
  note a = accept_chunk_cases [OF assms(3)]
  have "0 \<le> rq_received s" using assms(1) by (simp add: stream_ok_def)
  then have "take (nat (rq_received s)) body @ p = take (nat (rq_received s + int (length p))) body"
    using assms(4) a(1) by (metis nat_add_distrib nat_int of_nat_0_le_iff body_slice_def take_add)
  with assms(2) a show ?thesis by (simp add: reads_def append_assoc [symmetric] del: append_assoc)
qed

lemma take_chunk_reads: "reads body s \<Longrightarrow> take_chunk s = Some s' \<Longrightarrow> reads body s'"
  by (auto simp: take_chunk_def reads_def queued_def split: consumer.splits list.splits option.splits)

lemma return_credit_reads: "reads body s \<Longrightarrow> return_credit s = Some s' \<Longrightarrow> reads body s'"
  by (auto simp: return_credit_def reads_def queued_def split: if_splits)

lemma put_end_reads: "reads body (put_end (s\<lparr>rq_ended := True\<rparr>)) \<longleftrightarrow> reads body s"
  by (simp add: put_end_def reads_def queued_def)

text \<open>Chunks waiting, and the balance of credits.\<close>

definition chunks_waiting :: "stream \<Rightarrow> int" where
  "chunks_waiting s = int (length (filter (\<lambda>x. x \<noteq> None) (rq_queue s)))"

definition run_ok :: "int \<Rightarrow> byte list \<Rightarrow> stream_run \<Rightarrow> bool" where
  "run_ok m body r \<longleftrightarrow>
     stream_ok m (run_stream r) \<and> reads body (run_stream r) \<and> rq_consumer (run_stream r) \<noteq> Dead
     \<and> run_granted r - run_accepted r =
         int (rq_window (run_stream r)) - chunks_waiting (run_stream r)
           - rq_pending_credit (run_stream r)"

fun event_from :: "byte list \<Rightarrow> stream_event \<Rightarrow> bool" where
  "event_from body (Chunk off p) = (p = body_slice off (length p) body)"
| "event_from body _ = True"

lemma stream_step_ok:
  assumes "run_ok m body r" "event_from body e"
  shows "run_ok m body (stream_step m e r) \<and> rq_window (run_stream (stream_step m e r)) = rq_window (run_stream r)"
proof (cases e)
  case (Chunk off p)
  show ?thesis
  proof (cases "accept_chunk m off p (run_stream r)")
    case (Accepted s')
    let ?s = "run_stream r"
    have "stream_ok m s'" "reads body s'"
      using assms Chunk accept_chunk_ok [OF _ Accepted] accept_chunk_reads [OF _ _ Accepted]
      by (simp_all add: run_ok_def)
    moreover have "chunks_waiting s' = chunks_waiting ?s + 1" "rq_consumer s' = rq_consumer ?s"
      "rq_window s' = rq_window ?s" "rq_pending_credit s' = rq_pending_credit ?s"
      using accept_chunk_cases(5) [OF Accepted] by (simp_all add: chunks_waiting_def)
    ultimately show ?thesis using assms Chunk Accepted by (simp add: run_ok_def)
  qed (use assms Chunk in simp_all)
next
  case Pull
  show ?thesis
  proof (cases "take_chunk (run_stream r)")
    case (Some s')
    with assms Pull show ?thesis
      using take_chunk_ok [OF _ Some] take_chunk_reads [OF _ Some]
      by (auto simp: run_ok_def chunks_waiting_def take_chunk_def split: consumer.splits list.splits
          option.splits)
  qed (use assms Pull in simp)
next
  case Credit
  show ?thesis
  proof (cases "return_credit (run_stream r)")
    case (Some s')
    with assms Credit show ?thesis
      using return_credit_ok [OF _ Some] return_credit_reads [OF _ Some]
      by (auto simp: run_ok_def chunks_waiting_def return_credit_def split: if_splits)
  qed (use assms Credit in simp)
next
  case End
  let ?s = "run_stream r"
  show ?thesis
  proof (cases "rq_ended ?s \<or> queue_full ?s")
    case False
    then have "stream_ok m (put_end (?s\<lparr>rq_ended := True\<rparr>))"
      using assms(1) by (intro put_end_ok) (auto simp: run_ok_def stream_ok_def queued_def queue_full_def)
    with assms(1) False End show ?thesis
      by (simp add: run_ok_def put_end_reads) (simp add: put_end_def chunks_waiting_def)
  qed (use assms End in auto)
qed

lemma stream_execute_ok:
  assumes "run_ok m body r" "\<forall>e \<in> set es. event_from body e"
  shows "run_ok m body (stream_execute m es r)
    \<and> rq_window (run_stream (stream_execute m es r)) = rq_window (run_stream r)"
  using assms
  by (induction es arbitrary: r) (simp_all add: stream_execute_def stream_step_ok)

lemma start_run_ok: "0 < w \<Longrightarrow> 0 \<le> m \<Longrightarrow> run_ok m body (start_run w cl)"
  by (simp add: run_ok_def start_run_def new_stream_ok)
     (simp add: reads_def new_stream_def queued_def chunks_waiting_def)

text \<open>
  C1: The upload arrives in order and once. The sandbox may send the chunks of a body in any order,
  repeat them after a reconnect and send them faster than they are consumed: what the upstream
  request has been given is always a prefix of the body, every byte taken from the sandbox has
  been handed on or is waiting, and the body limit is kept.
\<close>

theorem upload_in_order_once:
  assumes "0 < window" "0 \<le> max_body" "\<forall>e \<in> set es. event_from body e"
    and s: "s = run_stream (stream_execute max_body es (start_run window cl))"
  shows "rq_delivered s = take (length (rq_delivered s)) body
    \<and> rq_delivered s @ queued s = take (nat (rq_received s)) body
    \<and> rq_received s \<le> max_body \<and> length (rq_queue s) \<le> nat window
    \<and> (rq_consumer s = Exhausted \<longrightarrow> rq_delivered s = take (nat (rq_received s)) body)"
proof -
  have ok: "run_ok max_body body (stream_execute max_body es (start_run window cl))"
    and w: "rq_window s = nat window"
    using stream_execute_ok [OF start_run_ok [OF assms(1,2)] assms(3)]
    by (simp_all add: s start_run_def new_stream_def)
  then have "rq_delivered s @ queued s = take (nat (rq_received s)) body"
    by (simp add: run_ok_def reads_def s)
  moreover from this have "rq_delivered s = take (length (rq_delivered s)) body"
    by (metis append_eq_conv_conj min.absorb1 take_take length_take min.bounded_iff append_take_drop_id
        linear take_all)
  moreover have "queued s = []" if "rq_consumer s = Exhausted"
    using ok that by (simp add: run_ok_def stream_ok_def s queued_def)
  ultimately show ?thesis using ok w by (auto simp: run_ok_def stream_ok_def s)
qed

theorem upload_in_order_once_witness:
  "let s = run_stream (stream_execute 100
       [Chunk 0 [1, 2], Chunk 0 [1, 2], Chunk 4 [5], Pull, Chunk 2 [3, 4, 5], Credit, Pull, Credit, End, Pull]
       (start_run 2 None))
   in rq_delivered s = [1, 2, 3, 4, 5] \<and> rq_delivered s @ queued s = take (nat (rq_received s)) [1, 2, 3, 4, 5]"
  using upload_in_order_once [where window = 2 and max_body = 100 and cl = None
      and body = "[1, 2, 3, 4, 5]", OF _ _ _ refl, of
      "[Chunk 0 [1, 2], Chunk 0 [1, 2], Chunk 4 [5], Pull, Chunk 2 [3, 4, 5], Credit, Pull, Credit, End, Pull]"]
  by (simp add: body_slice_def stream_execute_def start_run_def new_stream_def accept_chunk_def
      queue_full_def take_chunk_def return_credit_def put_end_def queued_def)

lemma waiting_not_ended: "stream_ok m s \<Longrightarrow> \<not> rq_ended s \<Longrightarrow> chunks_waiting s = int (length (rq_queue s))"
proof -
  assume "stream_ok m s" "\<not> rq_ended s"
  then have "None \<notin> set (rq_queue s)" by (auto simp: stream_ok_def)
  then have "filter (\<lambda>x. x \<noteq> None) (rq_queue s) = rq_queue s"
    unfolding filter_id_conv by metis
  then show ?thesis by (simp add: chunks_waiting_def)
qed

text \<open>
  C7: The credits are exact. While the body is not ended, the credits granted minus the chunks
  taken is the window less the chunks waiting and the one being handed on. So a sandbox that
  sends a chunk only against a credit never overflows the queue, and a repeated begin after a
  reconnect grants exactly the credits that were left.
\<close>

theorem upload_credits_exact:
  assumes "0 < window" "0 \<le> max_body" "\<forall>e \<in> set es. event_from body e"
    and r: "r = stream_execute max_body es (start_run window cl)"
    and "\<not> rq_ended (run_stream r)"
  shows "remaining_credits window (run_stream r) = max 0 (run_granted r - run_accepted r)
    \<and> (run_granted r - run_accepted r > 0 \<longrightarrow> \<not> queue_full (run_stream r))
    \<and> (run_granted r - run_accepted r \<le> window)"
proof -
  have ok: "run_ok max_body body r" and w: "rq_window (run_stream r) = nat window"
    using stream_execute_ok [OF start_run_ok [OF assms(1,2)] assms(3)] r
    by (simp_all add: start_run_def new_stream_def)
  have ok': "stream_ok max_body (run_stream r)" using ok by (simp add: run_ok_def)
  let ?s = "run_stream r"
  have pending: "0 \<le> rq_pending_credit ?s" "rq_pending_credit ?s \<le> 1"
    using ok by (auto simp: run_ok_def stream_ok_def split: if_splits)
  have balance: "run_granted r - run_accepted r
      = window - int (length (rq_queue ?s)) - rq_pending_credit ?s"
    using ok waiting_not_ended [OF ok' assms(5)] w assms(1) by (simp add: run_ok_def)
  show ?thesis
    using balance pending w assms(1) by (auto simp: remaining_credits_def queue_full_def)
qed

theorem upload_credits_exact_witness:
  "let r = stream_execute 100 [Chunk 0 [1], Chunk 1 [2], Pull] (start_run 3 None)
   in remaining_credits 3 (run_stream r) = max 0 (run_granted r - run_accepted r)
      \<and> run_granted r - run_accepted r = 1"
  using upload_credits_exact [where window = 3 and max_body = 100 and cl = None
      and body = "[1, 2]", OF _ _ _ refl, of "[Chunk 0 [1], Chunk 1 [2], Pull]"]
  by (simp add: body_slice_def stream_execute_def start_run_def new_stream_def accept_chunk_def
      queue_full_def take_chunk_def)

section \<open>Response streams\<close>

text \<open>
  \<open>rp_credits\<close> is the size of the credit queue and \<open>rp_window\<close> its capacity. \<open>rp_sender\<close> is where
  \<open>send_streaming_response\<close> stands: about to send the begin frame, or, with the next chunk, waiting for \<open>ready\<close>, waiting
  for a credit, holding the recorded chunk and waiting for the send lock, or finished.
  \<open>rp_upstream\<close> holds the chunks still to be sent and \<open>rp_failure\<close> the error that follows them.
\<close>

datatype sender = WaitBegin | WaitReady | WaitCredit | WaitLock int "byte list" | Finished

record response_state =
  rp_credits :: nat
  rp_window :: nat
  rp_unacked :: "(int \<times> byte list) list"
  rp_next_offset :: int
  rp_ready :: bool
  rp_ended :: bool
  rp_begin :: out_frame
  rp_sender :: sender
  rp_upstream :: "byte list list"
  rp_failure :: "string option"

text \<open>\<open>for offset in range(0, len(raw), n): raw[offset : offset + n]\<close> over the raw chunks.\<close>

function cut_chunk :: "nat \<Rightarrow> byte list \<Rightarrow> byte list list" where
  "cut_chunk n raw =
     (if raw = [] \<or> n = 0 then [] else take n raw # cut_chunk n (drop n raw))"
  by pat_completeness auto
termination by (relation "measure (\<lambda>(n, raw). length raw)") auto

declare cut_chunk.simps [simp del]

lemma cut_chunk_Nil [simp]: "cut_chunk n [] = []"
  by (simp add: cut_chunk.simps)

lemma concat_cut_chunk: "0 < n \<Longrightarrow> concat (cut_chunk n raw) = raw"
proof (induction n raw rule: cut_chunk.induct)
  case (1 n raw)
  then show ?case by (subst cut_chunk.simps) auto
qed

lemma cut_chunk_size: "c \<in> set (cut_chunk n raw) \<Longrightarrow> c \<noteq> [] \<and> length c \<le> n"
proof (induction n raw rule: cut_chunk.induct)
  case (1 n raw)
  show ?case
  proof (cases "raw = [] \<or> n = 0")
    case True
    with 1(2) show ?thesis by (subst (asm) cut_chunk.simps) simp
  next
    case False
    then have "cut_chunk n raw = take n raw # cut_chunk n (drop n raw)"
      by (subst cut_chunk.simps) simp
    with 1(2) False 1(1) [OF False] show ?thesis by auto
  qed
qed

text \<open>
  The body of \<open>send_streaming_response\<close> read as a plan: the chunks it gets to send for the raw
  chunks of the upstream response, and how it ends.
\<close>

fun response_plan ::
  "nat \<Rightarrow> int \<Rightarrow> int \<Rightarrow> byte list list \<Rightarrow> byte list list \<times> int result" where
  "response_plan n max_body sz [] = ([], Inr sz)"
| "response_plan n max_body sz (raw # rest) =
     (let sz' = sz + int (length raw)
      in if sz' > max_body
         then ([], Inl (ProtocolError ''response body exceeds tunnel limit''))
         else let (chunks, ending) = response_plan n max_body sz' rest
              in (cut_chunk n raw @ chunks, ending))"

text \<open>A declared length over a limit.\<close>

definition exceeds :: "int option \<Rightarrow> int \<Rightarrow> bool" where
  "exceeds content_length limit = (case content_length of None \<Rightarrow> False | Some n \<Rightarrow> n > limit)"

lemma exceeds_iff [simp]: "exceeds content_length limit \<longleftrightarrow> (\<exists>n. content_length = Some n \<and> n > limit)"
  by (simp add: exceeds_def split: option.splits)

definition send_streaming_response ::
  "negotiated \<Rightarrow> bool \<Rightarrow> int option \<Rightarrow> byte list list \<Rightarrow> byte list list \<times> unit result" where
  "send_streaming_response ng body_expected content_length raw_chunks =
     (if body_expected \<and> exceeds content_length (ng_max_body_size ng)
      then ([], Inl (ProtocolError ''response body exceeds tunnel limit''))
      else
        let (chunks, ending) =
              response_plan (nat (ng_stream_chunk ng)) (ng_max_body_size ng) 0 raw_chunks
        in (chunks,
            bind_result ending (\<lambda>sz.
              if body_expected \<and> content_length \<noteq> None \<and> content_length \<noteq> Some sz
              then Inl (ProtocolError ''response content length mismatch'')
              else Inr ())))"

lemma response_plan_props:
  assumes "response_plan n m sz raws = (chunks, ending)" "0 < n" "sz \<le> m"
  shows "sz + int (length (concat chunks)) \<le> m \<and> (\<forall>c \<in> set chunks. c \<noteq> [] \<and> length c \<le> n)
    \<and> (\<exists>rest. concat raws = concat chunks @ rest
         \<and> (\<forall>final. ending = Inr final \<longrightarrow> rest = [] \<and> final = sz + int (length (concat raws))))"
  using assms
proof (induction raws arbitrary: sz chunks)
  case (Cons raw raws)
  let ?sz = "sz + int (length raw)"
  show ?case
  proof (cases "?sz > m")
    case True
    with Cons.prems show ?thesis by auto
  next
    case False
    obtain cs e where plan: "response_plan n m ?sz raws = (cs, e)" by fastforce
    with False Cons.prems(1) have out: "chunks = cut_chunk n raw @ cs" "ending = e"
      by (auto simp: Let_def)
    from Cons.IH [OF plan [folded out(2)] Cons.prems(2)] False out
    have IH: "?sz + int (length (concat cs)) \<le> m" "\<forall>c \<in> set cs. c \<noteq> [] \<and> length c \<le> n"
      and "\<exists>rest. concat raws = concat cs @ rest
         \<and> (\<forall>final. ending = Inr final \<longrightarrow> rest = [] \<and> final = ?sz + int (length (concat raws)))"
      by auto
    then obtain rest where rest: "concat raws = concat cs @ rest"
        "\<forall>final. ending = Inr final \<longrightarrow> rest = [] \<and> final = ?sz + int (length (concat raws))"
      by blast
    have whole: "concat chunks = raw @ concat cs"
      using out(1) concat_cut_chunk [OF Cons.prems(2)] by simp
    have "sz + int (length (concat chunks)) \<le> m" using IH(1) whole by simp
    moreover have "\<forall>c \<in> set chunks. c \<noteq> [] \<and> length c \<le> n"
      using IH(2) out(1) by (auto dest: cut_chunk_size)
    moreover have "concat (raw # raws) = concat chunks @ rest" using rest(1) whole by simp
    moreover have "\<forall>final. ending = Inr final \<longrightarrow> rest = [] \<and> final = sz + int (length (concat (raw # raws)))"
      using rest(2) by (simp add: add.assoc)
    ultimately show ?thesis by blast
  qed
qed auto

text \<open>
  A streamed response is the upstream body. Whatever the upstream sends, the chunks sent are
  non-empty, at most the negotiated size each and at most the body limit together, and are a
  prefix of the upstream body; when the stream ends without an error they are all of it, with the
  declared content length.
\<close>

theorem streamed_response_exact:
  assumes "limits_ok L" "negotiated_ok L ng"
    and "send_streaming_response ng body_expected content_length raws = (chunks, ending)"
  shows "(\<forall>c \<in> set chunks. c \<noteq> [] \<and> int (length c) \<le> ng_stream_chunk ng)
    \<and> int (length (concat chunks)) \<le> ng_max_body_size ng
    \<and> (\<exists>rest. concat raws = concat chunks @ rest \<and> (ending = Inr () \<longrightarrow> rest = []
         \<and> (\<forall>n. body_expected \<and> content_length = Some n \<longrightarrow> n = int (length (concat raws)))))"
proof -
  obtain cs e where plan: "response_plan (nat (ng_stream_chunk ng)) (ng_max_body_size ng) 0 raws = (cs, e)"
    by fastforce
  have "0 < nat (ng_stream_chunk ng)" "0 \<le> ng_max_body_size ng"
    using assms(2) by (simp_all add: negotiated_ok_def)
   then obtain rest where props: "int (length (concat cs)) \<le> ng_max_body_size ng"
      "\<forall>c \<in> set cs. c \<noteq> [] \<and> length c \<le> nat (ng_stream_chunk ng)"
      "concat raws = concat cs @ rest"
      "\<And>final. e = Inr final \<Longrightarrow> rest = [] \<and> final = int (length (concat raws))"
    using response_plan_props [OF plan, unfolded add_0] by blast
  consider "chunks = []" "ending \<noteq> Inr ()"
    | "chunks = cs" "ending = Inr () \<Longrightarrow> \<exists>sz. e = Inr sz
        \<and> (\<forall>n. body_expected \<and> content_length = Some n \<longrightarrow> n = sz)"
    using assms(3) plan
    by (fastforce simp: send_streaming_response_def bind_result_eq_Inr split: if_splits)
  then show ?thesis
  proof cases
    case 1
    with \<open>0 \<le> ng_max_body_size ng\<close> show ?thesis by auto
  next
    case 2
    have chunks: "\<forall>c \<in> set chunks. c \<noteq> [] \<and> int (length c) \<le> ng_stream_chunk ng"
      using props(2) 2(1) \<open>0 < nat (ng_stream_chunk ng)\<close> by fastforce
    have "rest = [] \<and> (\<forall>n. body_expected \<and> content_length = Some n \<longrightarrow> n = int (length (concat raws)))"
      if "ending = Inr ()"
      using 2(2) [OF that] props(4) by auto
    with chunks props(1,3) 2(1) show ?thesis by blast
  qed
qed

definition sample_negotiated :: "int \<Rightarrow> negotiated" where
  "sample_negotiated body =
     \<lparr>ng_protocol_version = 2, ng_stream_chunk = 1024, ng_max_inflight = 16,
      ng_stream_window = 4, ng_max_body_size = body, ng_max_ws_message_size = 4096\<rparr>"

lemma sample_negotiated_ok:
  "1 \<le> body \<Longrightarrow> body \<le> 4096 \<Longrightarrow> negotiated_ok (sample_limits 16 4) (sample_negotiated body)"
  by (simp add: negotiated_ok_def sample_negotiated_def sample_limits_def)

theorem streamed_response_exact_witness:
  "concat (fst (send_streaming_response (sample_negotiated 5) True (Some 4) [[1, 2], [3, 4]]))
     = [1, 2, 3, 4]"
proof -
  have run: "send_streaming_response (sample_negotiated 5) True (Some 4) [[1, 2], [3, 4]]
      = ([[1, 2], [3, 4]], Inr ())"
    by (simp add: send_streaming_response_def sample_negotiated_def cut_chunk.simps)
  have "limits_ok (sample_limits 16 4)" by (simp add: limits_ok_def sample_limits_def)
  from streamed_response_exact [OF this sample_negotiated_ok run] show ?thesis by (simp add: run)
qed

definition begin_response ::
  "int \<Rightarrow> out_frame \<Rightarrow> byte list list \<Rightarrow> string option \<Rightarrow> response_state" where
  "begin_response window begin_frame chunks failure =
     \<lparr>rp_credits = 0, rp_window = nat window, rp_unacked = [], rp_next_offset = 0,
      rp_ready = True, rp_ended = False, rp_begin = begin_frame, rp_sender = WaitBegin,
      rp_upstream = chunks, rp_failure = failure\<rparr>"

definition response_data :: "string \<Rightarrow> int \<times> byte list \<Rightarrow> BinaryEnvelope" where
  "response_data rid c =
     \<lparr>env_request_id = rid, env_kind = HTTP_RESPONSE_DATA, env_payload = snd c,
      env_end_of_body = False, env_offset = Some (fst c)\<rparr>"

datatype wire = Text out_frame | Binary BinaryEnvelope

text \<open>One turn of the sender: up to its next suspension. \<open>None\<close>: it stays suspended.\<close>

definition sender_turn ::
  "bool \<Rightarrow> string \<Rightarrow> response_state \<Rightarrow> (response_state \<times> wire list) option" where
  "sender_turn lock_free rid s =
     (case rp_sender s of
        WaitBegin \<Rightarrow> Some (s\<lparr>rp_sender := WaitReady\<rparr>, [Text (rp_begin s)])
      | WaitReady \<Rightarrow>
          (case rp_upstream s of
             [] \<Rightarrow>
               (case rp_failure s of
                  None \<Rightarrow> Some (s\<lparr>rp_ended := True, rp_sender := Finished\<rparr>, [Text (HttpRespEnd rid)])
                | Some msg \<Rightarrow> Some (s\<lparr>rp_sender := Finished\<rparr>, [Text (ErrorFrame rid msg)]))
           | _ # _ \<Rightarrow> if rp_ready s then Some (s\<lparr>rp_sender := WaitCredit\<rparr>, []) else None)
      | WaitCredit \<Rightarrow>
          (case (rp_credits s, rp_upstream s) of
             (Suc n, chunk # rest) \<Rightarrow>
               Some (s\<lparr>rp_credits := n, rp_upstream := rest,
                       rp_unacked := rp_unacked s @ [(rp_next_offset s, chunk)],
                       rp_next_offset := rp_next_offset s + int (length chunk),
                       rp_sender := WaitLock (rp_next_offset s) chunk\<rparr>, [])
           | _ \<Rightarrow> None)
      | WaitLock off chunk \<Rightarrow>
          if lock_free
          then Some (s\<lparr>rp_sender := WaitReady\<rparr>, [Binary (response_data rid (off, chunk))])
          else None
      | Finished \<Rightarrow> None)"

text \<open>The \<open>window\<close> branch: validation, acknowledgement, credits, and the replay after a reconnect.\<close>

definition parse_window :: "jobj \<Rightarrow> (int \<times> int option) result" where
  "parse_window frame =
     (case as_int (jget frame ''credits'') of
        None \<Rightarrow> Inl (ProtocolError ''window must carry credits or a valid ack_offset'')
      | Some credits \<Rightarrow>
          (let ack = jget frame ''ack_offset''
           in if credits < 0 \<or> (credits = 0 \<and> as_int ack = None)
                 \<or> (ack \<noteq> JNull \<and> (as_int ack = None \<or> the (as_int ack) < 0))
              then Inl (ProtocolError ''window must carry credits or a valid ack_offset'')
              else Inr (credits, as_int ack)))"

definition acknowledge :: "int option \<Rightarrow> response_state \<Rightarrow> response_state" where
  "acknowledge ack s =
     (case ack of
        None \<Rightarrow> s
      | Some a \<Rightarrow>
          s\<lparr>rp_unacked := filter (\<lambda>(off, p). off + int (length p) > a) (rp_unacked s)\<rparr>)"

definition add_credits :: "int \<Rightarrow> int \<Rightarrow> response_state \<Rightarrow> response_state" where
  "add_credits window credits s =
     s\<lparr>rp_credits := max (rp_credits s)
         (min (rp_window s) (rp_credits s + nat (min credits window)))\<rparr>"

text \<open>
  One turn of the replay, which runs in the receive loop: \<open>k\<close> is the position in \<open>unacked\<close>. The
  result says where it continues (\<open>None\<close>: it is done); no result: it waits for a credit.
\<close>

definition replay_turn ::
  "string \<Rightarrow> nat \<Rightarrow> response_state \<Rightarrow> (response_state \<times> wire list \<times> nat option) option" where
  "replay_turn rid k s =
     (if k < length (rp_unacked s) then
        (case rp_credits s of
           0 \<Rightarrow> None
         | Suc n \<Rightarrow> Some (s\<lparr>rp_credits := n\<rparr>,
                          [Binary (response_data rid (rp_unacked s ! k))], Some (Suc k)))
      else Some (s\<lparr>rp_ready := True\<rparr>, (if rp_ended s then [Text (HttpRespEnd rid)] else []), None))"

text \<open>
  A run of one response stream. Window frames are only handled while no replay is running, since
  the replay runs in the receive loop; \<open>Drop\<close> is the loss of the connection. The run records the
  data frames sent and the highest offset acknowledged.
\<close>

datatype response_event = Turn | Window int "int option" | Drop | Replay

record response_run =
  rr_state :: response_state
  rr_replay :: "nat option"
  rr_sent :: "(int \<times> byte list) list"
  rr_acked :: int

fun data_sent :: "wire list \<Rightarrow> (int \<times> byte list) list" where
  "data_sent [] = []"
| "data_sent (Text f # ws) = data_sent ws"
| "data_sent (Binary e # ws) =
     (case env_offset e of None \<Rightarrow> data_sent ws | Some off \<Rightarrow> (off, env_payload e) # data_sent ws)"

fun response_step :: "int \<Rightarrow> string \<Rightarrow> response_event \<Rightarrow> response_run \<Rightarrow> response_run" where
  "response_step w rid Turn r =
     (case sender_turn (rr_replay r = None) rid (rr_state r) of
        None \<Rightarrow> r
      | Some (s, ws) \<Rightarrow> r\<lparr>rr_state := s, rr_sent := rr_sent r @ data_sent ws\<rparr>)"
| "response_step w rid (Window credits ack) r =
     (if rr_replay r \<noteq> None then r
      else
        let s = add_credits w credits (acknowledge ack (rr_state r))
        in r\<lparr>rr_state := s, rr_replay := (if rp_ready s then None else Some 0),
             rr_acked := (case ack of None \<Rightarrow> rr_acked r | Some a \<Rightarrow> max (rr_acked r) a)\<rparr>)"
| "response_step w rid Drop r =
     (if rr_replay r \<noteq> None then r else r\<lparr>rr_state := rr_state r\<lparr>rp_ready := False\<rparr>\<rparr>)"
| "response_step w rid Replay r =
     (case rr_replay r of
        None \<Rightarrow> r
      | Some k \<Rightarrow>
          (case replay_turn rid k (rr_state r) of
             None \<Rightarrow> r
           | Some (s, ws, k') \<Rightarrow>
               r\<lparr>rr_state := s, rr_replay := k', rr_sent := rr_sent r @ data_sent ws\<rparr>))"

definition response_execute ::
  "int \<Rightarrow> string \<Rightarrow> response_event list \<Rightarrow> response_run \<Rightarrow> response_run" where
  "response_execute w rid es r = fold (response_step w rid) es r"

definition start_response ::
  "int \<Rightarrow> out_frame \<Rightarrow> byte list list \<Rightarrow> string option \<Rightarrow> response_run" where
  "start_response w begin_frame chunks failure =
     \<lparr>rr_state = begin_response w begin_frame chunks failure, rr_replay = None, rr_sent = [],
      rr_acked = 0\<rparr>"

text \<open>Chunks that follow each other from one offset to another.\<close>

fun contiguous :: "int \<Rightarrow> (int \<times> byte list) list \<Rightarrow> int \<Rightarrow> bool" where
  "contiguous a [] b = (a = b)"
| "contiguous a ((off, p) # xs) b = (off = a \<and> p \<noteq> [] \<and> contiguous (a + int (length p)) xs b)"

lemma contiguous_snoc:
  "contiguous a (xs @ [(off, p)]) b \<longleftrightarrow> contiguous a xs off \<and> p \<noteq> [] \<and> b = off + int (length p)"
  by (induction a xs off rule: contiguous.induct) auto

lemma contiguous_bounds:
  "contiguous a xs b \<Longrightarrow> a \<le> b"
  "contiguous a xs b \<Longrightarrow> (off, p) \<in> set xs \<Longrightarrow> a \<le> off \<and> a < off + int (length p) \<and> off + int (length p) \<le> b"
  by (induction a xs b rule: contiguous.induct) (fastforce simp: less_le)+

lemma contiguous_ack:
  "contiguous a xs b \<Longrightarrow>
     \<exists>a'. contiguous a' (filter (\<lambda>(off, p). off + int (length p) > k) xs) b \<and> a \<le> a' \<and> a' \<le> max a k"
proof (induction a xs b rule: contiguous.induct)
  case (2 a off p xs b)
  show ?case
  proof (cases "a + int (length p) > k")
    case True
    have "filter (\<lambda>(off, p). off + int (length p) > k) xs = xs"
      using contiguous_bounds(2) [of "a + int (length p)" xs b] 2(2) True
      by (fastforce simp: filter_id_conv)
    with 2 True show ?thesis by (intro exI [of _ a]) auto
  next
    case False
    with 2 obtain a' where "contiguous a' (filter (\<lambda>(off, p). off + int (length p) > k) xs) b"
      "a + int (length p) \<le> a'" "a' \<le> max (a + int (length p)) k" by auto
    with 2 False show ?thesis by (intro exI [of _ a']) auto
  qed
qed auto

lemma contiguous_cover:
  "contiguous a xs b \<Longrightarrow> a \<le> i \<Longrightarrow> i < b \<Longrightarrow>
     \<exists>(off, p) \<in> set xs. off \<le> i \<and> i < off + int (length p)"
  by (induction a xs b rule: contiguous.induct) (auto, force)

definition chunk_of :: "byte list \<Rightarrow> int \<times> byte list \<Rightarrow> bool" where
  "chunk_of body c \<longleftrightarrow> 0 \<le> fst c \<and> snd c = body_slice (fst c) (length (snd c)) body"

definition response_ok :: "byte list \<Rightarrow> response_run \<Rightarrow> bool" where
  "response_ok body r \<longleftrightarrow>
     (let s = rr_state r
      in 0 \<le> rp_next_offset s
         \<and> take (nat (rp_next_offset s)) body @ concat (rp_upstream s) = body
         \<and> nat (rp_next_offset s) \<le> length body
         \<and> [] \<notin> set (rp_upstream s)
         \<and> (\<forall>c \<in> set (rr_sent r). chunk_of body c)
         \<and> (\<forall>c \<in> set (rp_unacked s). chunk_of body c)
         \<and> (\<forall>off p. rp_sender s = WaitLock off p \<longrightarrow> chunk_of body (off, p))
         \<and> (\<exists>a. 0 \<le> a \<and> a \<le> rr_acked r \<and> contiguous a (rp_unacked s) (rp_next_offset s))
         \<and> rp_credits s \<le> rp_window s
         \<and> (rp_ended s \<longrightarrow> rp_upstream s = []))"

lemma sender_credit_ok:
  assumes "response_ok body r" "rp_sender (rr_state r) = WaitCredit"
    and "rp_credits (rr_state r) = Suc n" "rp_upstream (rr_state r) = chunk # rest"
  shows "response_ok body (r\<lparr>rr_state := (rr_state r)\<lparr>rp_credits := n, rp_upstream := rest,
     rp_unacked := rp_unacked (rr_state r) @ [(rp_next_offset (rr_state r), chunk)],
     rp_next_offset := rp_next_offset (rr_state r) + int (length chunk),
     rp_sender := WaitLock (rp_next_offset (rr_state r)) chunk\<rparr>\<rparr>)"
proof -
  define s off where "s = rr_state r" and "off = rp_next_offset s"
  note ok = assms(1) [unfolded response_ok_def Let_def, folded s_def off_def]
  have off: "0 \<le> off" "nat off \<le> length body" "take (nat off) body @ chunk @ concat rest = body"
    using ok assms(4) by (simp_all add: s_def)
  then have drop: "drop (nat off) body = chunk @ concat rest"
    by (metis append_eq_conv_conj length_take min.absorb2)
  then have slice: "chunk_of body (off, chunk)"
    using off(1) by (simp add: chunk_of_def body_slice_def)
  have nat: "nat (off + int (length chunk)) = nat off + length chunk" using off(1) by simp
  have "take (nat off + length chunk) body @ concat rest = body"
    using off(3) drop by (simp add: take_add)
  moreover have "nat off + length chunk \<le> length body"
    using off(2,3) by (metis (no_types, lifting) append_assoc le_add1 length_append length_take min.absorb2)
  ultimately show ?thesis
    using ok assms(2-4) off(1) slice nat
    by (auto simp: response_ok_def Let_def s_def [symmetric] off_def [symmetric] contiguous_snoc)
qed

lemma response_turn_ok:
  assumes "response_ok body r"
  shows "response_ok body (response_step w rid Turn r)"
proof (cases "sender_turn (rr_replay r = None) rid (rr_state r)")
  case (Some out)
  show ?thesis
  proof (cases "rp_sender (rr_state r)")
    case WaitCredit
    with Some obtain n chunk rest where
      "rp_credits (rr_state r) = Suc n" "rp_upstream (rr_state r) = chunk # rest"
      by (auto simp: sender_turn_def split: nat.splits list.splits)
    from sender_credit_ok [OF assms WaitCredit this] Some WaitCredit this show ?thesis
      by (auto simp: sender_turn_def)
  qed (use assms Some in \<open>auto simp: sender_turn_def response_ok_def Let_def response_data_def
        chunk_of_def split: list.splits option.splits if_splits\<close>)
qed (use assms in simp)

lemma acknowledge_ok:
  assumes "response_ok body r"
  shows "response_ok body (r\<lparr>rr_state := acknowledge ack (rr_state r),
    rr_acked := (case ack of None \<Rightarrow> rr_acked r | Some a \<Rightarrow> max (rr_acked r) a)\<rparr>)"
proof (cases ack)
  case (Some k)
  obtain a where "0 \<le> a" "a \<le> rr_acked r"
    "contiguous a (rp_unacked (rr_state r)) (rp_next_offset (rr_state r))"
    using assms by (auto simp: response_ok_def Let_def)
  moreover from contiguous_ack [OF this(3), of k] obtain a' where
    "contiguous a' (filter (\<lambda>(off, p). off + int (length p) > k) (rp_unacked (rr_state r)))
        (rp_next_offset (rr_state r))" "a \<le> a'" "a' \<le> max a k" by blast
  ultimately have "\<exists>a. 0 \<le> a \<and> a \<le> max (rr_acked r) k
      \<and> contiguous a (filter (\<lambda>(off, p). off + int (length p) > k) (rp_unacked (rr_state r)))
          (rp_next_offset (rr_state r))"
    by (intro exI [of _ a']) auto
  with assms Some show ?thesis by (auto simp: response_ok_def Let_def acknowledge_def)
qed (use assms in \<open>simp add: acknowledge_def\<close>)

lemma response_step_ok:
  assumes "response_ok body r"
  shows "response_ok body (response_step w rid e r)"
proof (cases e)
  case (Window credits ack)
  have "response_ok body (r\<lparr>rr_state := add_credits w credits s, rr_replay := k, rr_acked := n\<rparr>)"
    if "response_ok body (r\<lparr>rr_state := s, rr_acked := n\<rparr>)" for s n k
    using that by (simp add: response_ok_def Let_def add_credits_def)
  from this [OF acknowledge_ok [OF assms]] Window assms show ?thesis by (simp add: Let_def)
next
  case Replay
  show ?thesis
  proof (cases "rr_replay r")
    case (Some k)
    show ?thesis
    proof (cases "k < length (rp_unacked (rr_state r))")
      case True
      then have "rp_unacked (rr_state r) ! k \<in> set (rp_unacked (rr_state r))" by simp
      with assms Some True Replay show ?thesis
        by (auto simp: replay_turn_def response_ok_def Let_def response_data_def chunk_of_def
            split: nat.splits)
    qed (use assms Some Replay in \<open>simp add: replay_turn_def response_ok_def Let_def\<close>)
  qed (use assms Replay in simp)
next
  case Turn
  with assms show ?thesis by (simp only: response_turn_ok)
qed (use assms in \<open>simp add: response_ok_def Let_def\<close>)

lemma start_response_ok:
  assumes "[] \<notin> set chunks"
  shows "response_ok (concat chunks) (start_response w bf chunks failure)"
  using assms by (auto simp: response_ok_def Let_def start_response_def begin_response_def)

lemma response_execute_ok: "response_ok body r \<Longrightarrow> response_ok body (response_execute w rid es r)"
  by (induction es arbitrary: r) (simp_all add: response_execute_def response_step_ok)

text \<open>
  C2: A response survives reconnects. However the sender's turns, the peer's windows and
  acknowledgements, lost connections and replays interleave, every data frame sent carries the
  bytes the body has at its offset, and every byte already taken from upstream that lies at or
  after the highest acknowledged offset is still kept for replay.
\<close>

theorem response_survives_reconnects:
  assumes "[] \<notin> set chunks"
    and r: "r = response_execute w rid es (start_response w bf chunks failure)"
  shows "(\<forall>(off, p) \<in> set (rr_sent r). p = body_slice off (length p) (concat chunks))
    \<and> (\<forall>i. rr_acked r \<le> i \<and> i < rp_next_offset (rr_state r) \<longrightarrow>
          (\<exists>(off, p) \<in> set (rp_unacked (rr_state r)). off \<le> i \<and> i < off + int (length p)
             \<and> p = body_slice off (length p) (concat chunks)))
    \<and> rp_credits (rr_state r) \<le> rp_window (rr_state r)"
proof -
  let ?s = "rr_state r"
  have ok: "response_ok (concat chunks) r"
    unfolding r by (rule response_execute_ok [OF start_response_ok [OF assms(1)]])
  then obtain a where a: "a \<le> rr_acked r" "contiguous a (rp_unacked ?s) (rp_next_offset ?s)"
    by (auto simp: response_ok_def Let_def)
  have "\<exists>(off, p) \<in> set (rp_unacked ?s). off \<le> i \<and> i < off + int (length p)
      \<and> p = body_slice off (length p) (concat chunks)"
    if "rr_acked r \<le> i" "i < rp_next_offset ?s" for i
    using contiguous_cover [OF a(2) order_trans [OF a(1) that(1)] that(2)] ok
    by (fastforce simp: response_ok_def Let_def chunk_of_def)
  with ok show ?thesis by (fastforce simp: response_ok_def Let_def chunk_of_def)
qed

theorem response_survives_reconnects_witness:
  "let r = response_execute 4 ''r''
       [Window 1 None, Turn, Turn, Turn, Turn, Drop, Window 2 (Some 0), Replay, Replay]
       (start_response 4 (HttpRespEnd ''r'') [[1, 2], [3]] None)
   in rr_sent r = [(0, [1, 2]), (0, [1, 2])]
      \<and> (\<forall>(off, p) \<in> set (rr_sent r). p = body_slice off (length p) [1, 2, 3])"
proof -
  let ?es = "[Window 1 None, Turn, Turn, Turn, Turn, Drop, Window 2 (Some 0), Replay, Replay]"
  let ?r = "response_execute 4 ''r'' ?es (start_response 4 (HttpRespEnd ''r'') [[1, 2], [3]] None)"
  have "rr_sent ?r = [(0, [1, 2]), (0, [1, 2])]"
    by (simp add: response_execute_def start_response_def begin_response_def Let_def add_credits_def
        acknowledge_def sender_turn_def replay_turn_def response_data_def numeral_2_eq_2)
  moreover have "\<forall>(off, p) \<in> set (rr_sent ?r). p = body_slice off (length p) (concat [[1, 2], [3]])"
    by (rule response_survives_reconnects [THEN conjunct1, OF _ refl]) simp
  ultimately show ?thesis by (simp add: Let_def body_slice_def)
qed

end
