(* ===== verification/TunnelLoop.thy ===== *)
theory TunnelLoop
  imports TunnelStreams
begin

text \<open>
  The receive loop of a tunnel connection and the tasks around it (\<open>_proxy_loop\<close>). One record
  holds what the coroutines share; a label names who moves next, and \<open>conn_step\<close> is one move up
  to the next suspension. Stream objects live in a store, \<open>cn_objs\<close>: a dictionary entry, a task
  and a suspended \<open>put\<close> may refer to the same object after it left the dictionary.
  The clock value a move reads is part of its label. Ids are strings: a frame whose id is none
  ends the loop with a \<open>TypeError\<close>.
\<close>

section \<open>The shared state\<close>

datatype channel_item = ChanBinary BinaryEnvelope | ChanFrame jobj

record channel =
  ch_limit :: nat
  ch_queue :: "channel_item list"

text \<open>
  The tasks of \<open>http_tasks\<close>: a streamed request with its object, a plain request being fetched,
  and the sending of one frame.
\<close>

datatype task = StreamTask string nat | FetchTask string jobj | SendTask out_frame | SleepTask

text \<open>
  Where the receive loop stands: ready for a message, suspended in the \<open>put\<close> of an end marker, in
  the replay of a response, in a \<open>send_frame\<close> that waits for the connection to be ready again
  (with the frame and what the handler does after it), left by an exception, or left because the
  connection ended.
\<close>

datatype after_send = Continue | ThenDrop rat string nat

datatype loop_state =
    Receiving
  | Putting nat
  | Replaying string nat
  | Wedged out_frame after_send
  | Raised py_exc
  | Ended

record conn =
  cn_neg :: negotiated
  cn_objs :: "stream list"
  cn_requests :: "(string \<times> nat) list"
  cn_responses :: "(string \<times> response_state) list"
  cn_inflight :: "string list"
  cn_completed :: completed
  cn_terminated :: terminated
  cn_tasks :: "task list"
  cn_channels :: "(string \<times> channel) list"
  cn_open :: bool
  cn_ws_ready :: bool
  cn_pong_received :: bool
  cn_pending_ping :: "string option"
  cn_sent :: "wire list"
  cn_loop :: loop_state

definition initial_conn :: "tunnel_limits \<Rightarrow> conn" where
  "initial_conn L =
     \<lparr>cn_neg = initial_negotiated L, cn_objs = [], cn_requests = [], cn_responses = [],
      cn_inflight = [], cn_completed = [], cn_terminated = [], cn_tasks = [], cn_channels = [],
      cn_open = True, cn_ws_ready = True, cn_pong_received = False, cn_pending_ping = None,
      cn_sent = [], cn_loop = Receiving\<rparr>"

definition raise_exc :: "py_exc \<Rightarrow> conn \<Rightarrow> conn" where
  "raise_exc e c = c\<lparr>cn_loop := Raised e\<rparr>"

text \<open>A send by a task: whether it went out, and the state after it.\<close>

definition task_send :: "wire list \<Rightarrow> conn \<Rightarrow> bool \<times> conn" where
  "task_send ws c =
     (if ws = [] then (True, c)
      else if cn_ws_ready c \<and> cn_open c then (True, c\<lparr>cn_sent := cn_sent c @ ws\<rparr>)
      else (False, c\<lparr>cn_ws_ready := False\<rparr>))"

definition remember :: "rat \<Rightarrow> string \<Rightarrow> conn \<Rightarrow> conn" where
  "remember now rid c = c\<lparr>cn_terminated := remember_terminated now rid (cn_terminated c)\<rparr>"

text \<open>A frame for an id that has no stream: absorbed when the stream ended recently.\<close>

definition absorb :: "rat \<Rightarrow> string \<Rightarrow> string \<Rightarrow> conn \<Rightarrow> conn" where
  "absorb now rid msg c =
     (let (known, t) = is_terminated now rid (cn_terminated c);
          c' = c\<lparr>cn_terminated := t\<rparr>
      in if known then c' else raise_exc (ProtocolError msg) c')"

definition set_obj :: "nat \<Rightarrow> stream \<Rightarrow> conn \<Rightarrow> conn" where
  "set_obj i s c = c\<lparr>cn_objs := (cn_objs c)[i := s]\<rparr>"

definition cancel_stream :: "nat \<Rightarrow> conn \<Rightarrow> conn" where
  "cancel_stream i c = set_obj i ((cn_objs c ! i)\<lparr>rq_consumer := Dead\<rparr>) c"

text \<open>\<open>request_state["task"].cancel(); stream_requests.pop(rid, None); remember_terminated(rid)\<close>.\<close>

definition drop_stream :: "rat \<Rightarrow> string \<Rightarrow> nat \<Rightarrow> conn \<Rightarrow> conn" where
  "drop_stream now rid i c =
     remember now rid ((cancel_stream i c)\<lparr>cn_requests := AList.delete rid (cn_requests c)\<rparr>)"

text \<open>
  \<open>await send_frame(f)\<close> in the receive loop, then the rest of the handler. On a closed connection
  the send clears \<open>ws_ready\<close> and waits for it.
\<close>

definition after :: "after_send \<Rightarrow> conn \<Rightarrow> conn" where
  "after a c = (case a of Continue \<Rightarrow> c | ThenDrop now rid i \<Rightarrow> drop_stream now rid i c)"

definition loop_send :: "out_frame \<Rightarrow> after_send \<Rightarrow> conn \<Rightarrow> conn" where
  "loop_send f a c =
     (if cn_ws_ready c \<and> cn_open c then after a (c\<lparr>cn_sent := cn_sent c @ [Text f]\<rparr>)
      else c\<lparr>cn_ws_ready := False, cn_loop := Wedged f a\<rparr>)"

text \<open>\<open>request_state["ended"] = True; await request_state["queue"].put(None)\<close>.\<close>

definition end_stream :: "nat \<Rightarrow> conn \<Rightarrow> conn" where
  "end_stream i c =
     (set_obj i ((cn_objs c ! i)\<lparr>rq_ended := True\<rparr>) c)\<lparr>cn_loop := Putting i\<rparr>"

section \<open>Binary frames\<close>

definition recv_request_data :: "rat \<Rightarrow> BinaryEnvelope \<Rightarrow> conn \<Rightarrow> conn" where
  "recv_request_data now env c =
     (let rid = env_request_id env
      in case map_of (cn_requests c) rid of
           None \<Rightarrow> absorb now rid ''request data for unknown stream'' c
         | Some i \<Rightarrow>
             (case env_offset env of
                None \<Rightarrow> raise_exc (ProtocolError ''resumable request chunk is missing offset'') c
              | Some off \<Rightarrow>
                  (let s = cn_objs c ! i
                   in case accept_chunk (ng_max_body_size (cn_neg c)) off (env_payload env) s of
                        Duplicate \<Rightarrow> loop_send (WindowFrame rid 0 (rq_received s)) Continue c
                      | Overlap \<Rightarrow> raise_exc (ProtocolError ''overlapping request chunk for stream'') c
                      | Gap \<Rightarrow> raise_exc (ProtocolError ''request chunk gap for stream'') c
                      | AfterEnd \<Rightarrow> c
                      | TooLarge \<Rightarrow>
                          loop_send (ErrorFrame rid ''request body exceeds tunnel limit'')
                            (ThenDrop now rid i) c
                      | Overflow \<Rightarrow>
                          loop_send (ErrorFrame rid ''request stream exceeded advertised window'')
                            (ThenDrop now rid i) c
                      | Accepted s' \<Rightarrow>
                          if env_end_of_body env then end_stream i (set_obj i s' c)
                          else set_obj i s' c)))"

definition channel_full :: "channel \<Rightarrow> bool" where
  "channel_full ch \<longleftrightarrow> 0 < ch_limit ch \<and> ch_limit ch \<le> length (ch_queue ch)"

text \<open>\<open>channel.put_nowait(item)\<close>, or the removal of a channel that is full.\<close>

definition push_channel :: "rat \<Rightarrow> string \<Rightarrow> channel \<Rightarrow> channel_item \<Rightarrow> conn \<Rightarrow> conn" where
  "push_channel now rid ch item c =
     (if channel_full ch
      then loop_send (ErrorFrame rid ''WebSocket channel queue limit reached'') Continue
             (remember now rid (c\<lparr>cn_channels := AList.delete rid (cn_channels c)\<rparr>))
      else c\<lparr>cn_channels :=
               AList.update rid (ch\<lparr>ch_queue := ch_queue ch @ [item]\<rparr>) (cn_channels c)\<rparr>)"

definition recv_ws_binary :: "rat \<Rightarrow> BinaryEnvelope \<Rightarrow> conn \<Rightarrow> conn" where
  "recv_ws_binary now env c =
     (case map_of (cn_channels c) (env_request_id env) of
        None \<Rightarrow> absorb now (env_request_id env) ''WebSocket data for unknown channel'' c
      | Some ch \<Rightarrow> push_channel now (env_request_id env) ch (ChanBinary env) c)"

definition recv_binary :: "rat \<Rightarrow> byte list \<Rightarrow> conn \<Rightarrow> conn" where
  "recv_binary now raw c =
     (case BinaryEnvelope_decode raw (ng_stream_chunk (cn_neg c)) of
        Inl e \<Rightarrow> raise_exc e c
      | Inr env \<Rightarrow>
          if env_kind env = WS_BINARY_DATA then recv_ws_binary now env c
          else if env_kind env \<noteq> HTTP_REQUEST_DATA
          then raise_exc (ProtocolError ''unexpected binary frame kind'') c
          else recv_request_data now env c)"

section \<open>Text frames\<close>

text \<open>\<open>frame.get("id", "")\<close>.\<close>

definition with_id :: "jobj \<Rightarrow> (string \<Rightarrow> conn \<Rightarrow> conn) \<Rightarrow> conn \<Rightarrow> conn" where
  "with_id frame k c =
     (case jget_or frame ''id'' (JStr []) of
        JStr rid \<Rightarrow> k rid c
      | _ \<Rightarrow> raise_exc (TypeError ''frame id is not a string'') c)"

definition recv_hello :: "tunnel_limits \<Rightarrow> jobj \<Rightarrow> conn \<Rightarrow> conn" where
  "recv_hello L frame c = c\<lparr>cn_neg := handle_hello L frame (cn_neg c)\<rparr>"

text \<open>\<open>handle_http_req\<close>: what is scheduled for a plain request.\<close>

definition handle_http_req :: "rat \<Rightarrow> string \<Rightarrow> jobj \<Rightarrow> conn \<Rightarrow> conn" where
  "handle_http_req now rid frame c =
     (case cleanup_completed now (cn_completed c) of
        Inl e \<Rightarrow> raise_exc e c
      | Inr completed \<Rightarrow>
          (let c = c\<lparr>cn_completed := completed\<rparr>;
               spawn = (\<lambda>t c. c\<lparr>cn_tasks := cn_tasks c @ [t]\<rparr>)
           in case (if rid = [] then None else map_of (cn_responses c) rid) of
                Some rs \<Rightarrow> spawn (SendTask (rp_begin rs)) c
              | None \<Rightarrow>
                  (case (if rid = [] then None else map_of completed rid) of
                     Some (cached, _) \<Rightarrow> spawn (SendTask cached) c
                   | None \<Rightarrow>
                       if rid \<noteq> [] \<and> rid \<in> set (cn_inflight c) then spawn SleepTask c
                       else spawn (FetchTask rid frame)
                              (if rid = [] then c
                               else c\<lparr>cn_inflight := cn_inflight c @ [rid]\<rparr>))))"

definition recv_http_req :: "rat \<Rightarrow> jobj \<Rightarrow> string \<Rightarrow> conn \<Rightarrow> conn" where
  "recv_http_req now frame rid c =
     (let is_existing = rid \<in> set (cn_inflight c) \<or> map_of (cn_completed c) rid \<noteq> None
      in if \<not> is_existing \<and> int (length (cn_tasks c)) \<ge> ng_max_inflight (cn_neg c)
         then loop_send (ErrorFrame rid ''tunnel max_inflight limit reached'') Continue c
         else handle_http_req now rid frame c)"

definition start_stream :: "string \<Rightarrow> int option \<Rightarrow> conn \<Rightarrow> conn" where
  "start_stream rid content_length c =
     (let window = ng_stream_window (cn_neg c); i = length (cn_objs c)
      in loop_send (WindowFrame rid window 0) Continue
           (c\<lparr>cn_objs := cn_objs c @ [new_stream window content_length],
              cn_requests := AList.update rid i (cn_requests c),
              cn_tasks := cn_tasks c @ [StreamTask rid i]\<rparr>))"

definition handle_http_req_begin :: "jobj \<Rightarrow> conn \<Rightarrow> conn" where
  "handle_http_req_begin frame c =
     (case as_str (jget frame ''id'') of
        None \<Rightarrow> raise_exc (ProtocolError ''streaming request id must be a UUID string'') c
      | Some rid \<Rightarrow>
          if uuid_parse rid = None
          then raise_exc (ProtocolError ''streaming request id must be a UUID string'') c
          else
            case map_of (cn_requests c) rid of
              Some i \<Rightarrow>
                loop_send (WindowFrame rid
                    (remaining_credits (ng_stream_window (cn_neg c)) (cn_objs c ! i))
                    (rq_consumed (cn_objs c ! i))) Continue c
            | None \<Rightarrow>
                (case map_of (cn_responses c) rid of
                   Some rs \<Rightarrow> loop_send (rp_begin rs) Continue c
                 | None \<Rightarrow>
                     (let raw = jget frame ''content_length''
                      in if raw \<noteq> JNull \<and> (as_int raw = None \<or> the (as_int raw) < 0)
                         then raise_exc (ProtocolError ''invalid streaming request content_length'') c
                         else if raw \<noteq> JNull \<and> the (as_int raw) > ng_max_body_size (cn_neg c)
                         then loop_send (ErrorFrame rid ''request body exceeds tunnel limit'')
                                Continue c
                         else if int (length (cn_tasks c)) \<ge> ng_max_inflight (cn_neg c)
                         then loop_send (ErrorFrame rid ''tunnel max_inflight limit reached'')
                                Continue c
                         else start_stream rid (as_int raw) c)))"

definition recv_http_req_begin :: "jobj \<Rightarrow> conn \<Rightarrow> conn" where
  "recv_http_req_begin frame c =
     (if ng_protocol_version (cn_neg c) < PROTOCOL_VERSION
      then raise_exc (ProtocolError ''received streaming request before V2 negotiation'') c
      else handle_http_req_begin frame c)"

definition recv_http_req_end :: "rat \<Rightarrow> string \<Rightarrow> conn \<Rightarrow> conn" where
  "recv_http_req_end now rid c =
     (case map_of (cn_requests c) rid of
        None \<Rightarrow> absorb now rid ''request end for unknown stream'' c
      | Some i \<Rightarrow>
          (let s = cn_objs c ! i
           in if rq_ended s then c
              else if rq_content_length s \<noteq> None \<and> rq_content_length s \<noteq> Some (rq_received s)
              then loop_send (ErrorFrame rid ''request content length mismatch'')
                     (ThenDrop now rid i) c
              else end_stream i c))"

definition recv_window :: "jobj \<Rightarrow> string \<Rightarrow> conn \<Rightarrow> conn" where
  "recv_window frame rid c =
     (case parse_window frame of
        Inl e \<Rightarrow> raise_exc e c
      | Inr (credits, ack) \<Rightarrow>
          (case map_of (cn_responses c) rid of
             None \<Rightarrow> c
           | Some rs \<Rightarrow>
               (let rs = acknowledge ack rs
                in if jget frame ''complete'' = JBool True
                   then c\<lparr>cn_responses := AList.delete rid (cn_responses c)\<rparr>
                   else
                     let rs = add_credits (ng_stream_window (cn_neg c)) credits rs;
                         c = c\<lparr>cn_responses := AList.update rid rs (cn_responses c)\<rparr>
                     in if rp_ready rs then c else c\<lparr>cn_loop := Replaying rid 0\<rparr>)))"

definition is_fetch :: "string \<Rightarrow> task \<Rightarrow> bool" where
  "is_fetch rid t = (case t of FetchTask rid' _ \<Rightarrow> rid' = rid | _ \<Rightarrow> False)"

definition recv_error :: "rat \<Rightarrow> string \<Rightarrow> conn \<Rightarrow> conn" where
  "recv_error now rid c =
     (let c = c\<lparr>cn_responses := AList.delete rid (cn_responses c)\<rparr>
      in case map_of (cn_requests c) rid of
           Some i \<Rightarrow> drop_stream now rid i c
         | None \<Rightarrow>
             if rid \<in> set (cn_inflight c)
             then c\<lparr>cn_inflight := removeAll rid (cn_inflight c),
                    cn_tasks := filter (\<lambda>t. \<not> is_fetch rid t) (cn_tasks c)\<rparr>
             else if map_of (cn_channels c) rid \<noteq> None
             then remember now rid (c\<lparr>cn_channels := AList.delete rid (cn_channels c)\<rparr>)
             else c)"

text \<open>The capacity of a channel's queue: a message of the largest size, and two frames more.\<close>

definition WS_CHANNEL_QUEUE_LIMIT :: int where "WS_CHANNEL_QUEUE_LIMIT = 100"

definition channel_limit :: "negotiated \<Rightarrow> int" where
  "channel_limit ng =
     (if ng_protocol_version ng \<ge> PROTOCOL_VERSION
      then (ng_max_ws_message_size ng + ng_stream_chunk ng - 1) div ng_stream_chunk ng + 2
      else WS_CHANNEL_QUEUE_LIMIT)"

definition recv_ws_connect :: "rat \<Rightarrow> string \<Rightarrow> conn \<Rightarrow> conn" where
  "recv_ws_connect now rid c =
     (if rid = [] then c
      else
        let known = map_of (cn_channels c) rid \<noteq> None;
            (dead, t) = (if known then (False, cn_terminated c)
                         else is_terminated now rid (cn_terminated c));
            c = c\<lparr>cn_terminated := t\<rparr>
        in if known \<or> dead
           then loop_send (ErrorFrame rid ''duplicate WebSocket channel id'') Continue c
           else if int (length (cn_channels c)) \<ge> ng_max_inflight (cn_neg c)
           then loop_send (ErrorFrame rid ''tunnel WebSocket channel limit reached'') Continue c
           else c\<lparr>cn_channels := AList.update rid
                    \<lparr>ch_limit = nat (channel_limit (cn_neg c)), ch_queue = []\<rparr> (cn_channels c)\<rparr>)"

definition recv_ws_frame :: "rat \<Rightarrow> jobj \<Rightarrow> string \<Rightarrow> conn \<Rightarrow> conn" where
  "recv_ws_frame now frame rid c =
     (case map_of (cn_channels c) rid of
        None \<Rightarrow> c
      | Some ch \<Rightarrow> push_channel now rid ch (ChanFrame frame) c)"

definition recv_ping :: "jobj \<Rightarrow> conn \<Rightarrow> conn" where
  "recv_ping frame c =
     loop_send (PongFrame (jget_or frame ''id'' (JStr [])) (jget_or frame ''timestamp'' (JInt 0)))
       Continue c"

definition recv_pong :: "jobj \<Rightarrow> conn \<Rightarrow> conn" where
  "recv_pong frame c =
     (case cn_pending_ping c of
        None \<Rightarrow> c
      | Some ping \<Rightarrow>
          if jget frame ''id'' = JStr ping then c\<lparr>cn_pong_received := True\<rparr> else c)"

definition recv_frame :: "tunnel_limits \<Rightarrow> rat \<Rightarrow> jobj \<Rightarrow> conn \<Rightarrow> conn" where
  "recv_frame L now frame c =
     (let ftype = jget frame ''type''
      in if ftype = JStr ''hello'' then recv_hello L frame c
         else if ftype = JStr ''http_req'' then with_id frame (recv_http_req now frame) c
         else if ftype = JStr ''http_req_begin'' then recv_http_req_begin frame c
         else if ftype = JStr ''http_req_end'' then with_id frame (recv_http_req_end now) c
         else if ftype = JStr ''window'' then with_id frame (recv_window frame) c
         else if ftype = JStr ''error'' then with_id frame (recv_error now) c
         else if ftype = JStr ''ws_connect'' then with_id frame (recv_ws_connect now) c
         else if ftype = JStr ''ws_message'' \<or> ftype = JStr ''ws_close''
         then with_id frame (recv_ws_frame now frame) c
         else if ftype = JStr ''ping'' then recv_ping frame c
         else if ftype = JStr ''pong'' then recv_pong frame c
         else c)"

text \<open>
  One message. A text that is no JSON is skipped (\<open>None\<close>); a JSON value that is no object has no
  \<open>get\<close>.
\<close>

datatype message = BytesMessage "byte list" | TextMessage "json option"

definition receive :: "tunnel_limits \<Rightarrow> rat \<Rightarrow> message \<Rightarrow> conn \<Rightarrow> conn" where
  "receive L now m c =
     (case m of
        BytesMessage raw \<Rightarrow> recv_binary now raw c
      | TextMessage None \<Rightarrow> c
      | TextMessage (Some v) \<Rightarrow>
          (case as_obj v of
             None \<Rightarrow> raise_exc (AttributeError ''get'') c
           | Some frame \<Rightarrow> recv_frame L now frame c))"

section \<open>Moves\<close>

text \<open>
  \<open>Respond\<close>: the upstream answered a streamed request, or a plain one whose answer is streamed, and
  its task enters \<open>send_streaming_response\<close>. \<open>FinishStream\<close> and \<open>FinishFetch\<close>: the task of a request
  ends, with an error message or a frame to send. \<open>ChannelSend\<close>, \<open>ChannelTake\<close> and \<open>ChannelEnd\<close>: the task
  of a WebSocket channel sends frames, takes an item from its queue, or ends with its last frame
  (\<open>TunnelRelay\<close> and \<open>TunnelChannels\<close> say which frames and what becomes of the items). \<open>LeaveLoop\<close>: \<open>_proxy_loop\<close> returns or raises and
  \<open>_connect_loop\<close> cleans up; \<open>Reconnect\<close>: it connects again.
\<close>

datatype label =
    Receive rat message
  | PutMarker
  | ResumeSend
  | ReplayTurn
  | TakeChunk nat
  | ReturnCredit string nat
  | Respond string out_frame "byte list list" "string option"
  | SenderTurn string
  | FinishStream rat string nat "string option"
  | FinishFetch rat string jobj "out_frame option"
  | RunSend out_frame
  | RunSleep
  | ChannelSend string "wire list"
  | ChannelTake string
  | ChannelEnd rat string "wire list"
  | Heartbeat string int
  | HeartbeatTimeout
  | ClosePeer
  | LeaveLoop rat
  | Reconnect

definition step_loop :: "label \<Rightarrow> conn \<Rightarrow> conn option" where
  "step_loop l c =
     (case (l, cn_loop c) of
        (PutMarker, Putting i) \<Rightarrow>
          if queue_full (cn_objs c ! i) then None
          else Some ((set_obj i (put_end (cn_objs c ! i)) c)\<lparr>cn_loop := Receiving\<rparr>)
      | (ResumeSend, Wedged f a) \<Rightarrow>
          if cn_ws_ready c then Some (loop_send f a (c\<lparr>cn_loop := Receiving\<rparr>)) else None
      | (ReplayTurn, Replaying rid k) \<Rightarrow>
          (case map_of (cn_responses c) rid of
             None \<Rightarrow> None
           | Some rs \<Rightarrow>
               (case replay_turn rid k rs of
                  None \<Rightarrow> None
                | Some (rs', ws, k') \<Rightarrow>
                    (case task_send ws c of
                       (True, c') \<Rightarrow>
                         Some (c'\<lparr>cn_responses := AList.update rid rs' (cn_responses c),
                                  cn_loop := (case k' of None \<Rightarrow> Receiving | Some k \<Rightarrow> Replaying rid k)\<rparr>)
                     | (False, c') \<Rightarrow> Some c')))
      | _ \<Rightarrow> None)"

definition finish_stream :: "rat \<Rightarrow> string \<Rightarrow> nat \<Rightarrow> conn \<Rightarrow> conn" where
  "finish_stream now rid i c =
     (drop_stream now rid i c)\<lparr>cn_tasks := removeAll (StreamTask rid i) (cn_tasks c)\<rparr>"

definition store_completed :: "rat \<Rightarrow> string \<Rightarrow> out_frame \<Rightarrow> completed \<Rightarrow> completed" where
  "store_completed now rid f cache =
     (let c = AList.update rid (f, now) cache
      in case cleanup_completed now c of Inl _ \<Rightarrow> c | Inr c' \<Rightarrow> c')"

definition finish_fetch :: "rat \<Rightarrow> string \<Rightarrow> jobj \<Rightarrow> out_frame option \<Rightarrow> conn \<Rightarrow> conn" where
  "finish_fetch now rid frame out c =
     c\<lparr>cn_inflight := removeAll rid (cn_inflight c),
       cn_completed := (case out of
          None \<Rightarrow> cn_completed c
        | Some f \<Rightarrow> if rid = [] then cn_completed c else store_completed now rid f (cn_completed c)),
       cn_tasks := remove1 (FetchTask rid frame) (cn_tasks c)
         @ (case out of None \<Rightarrow> [] | Some f \<Rightarrow> [SendTask f])\<rparr>"

text \<open>The two ways a channel's task changes what the loop sees of it.\<close>

definition item_waiting :: "string \<Rightarrow> conn \<Rightarrow> bool" where
  "item_waiting rid c = (case map_of (cn_channels c) rid of None \<Rightarrow> False | Some ch \<Rightarrow> ch_queue ch \<noteq> [])"

definition take_item :: "string \<Rightarrow> conn \<Rightarrow> conn" where
  "take_item rid c =
     c\<lparr>cn_channels := map (\<lambda>(k, ch). (k, if k = rid then ch\<lparr>ch_queue := tl (ch_queue ch)\<rparr> else ch)) (cn_channels c)\<rparr>"

definition end_channel :: "rat \<Rightarrow> string \<Rightarrow> conn \<Rightarrow> conn" where
  "end_channel now rid c = remember now rid (c\<lparr>cn_channels := AList.delete rid (cn_channels c)\<rparr>)"

text \<open>\<open>heartbeat_loop\<close>: a ping goes out; when no pong to it has arrived in time, the connection is closed.\<close>

definition heartbeat_ping :: "string \<Rightarrow> int \<Rightarrow> conn \<Rightarrow> conn" where
  "heartbeat_ping ping stamp c =
     snd (task_send [Text (PingFrame ping stamp)] (c\<lparr>cn_pending_ping := Some ping, cn_pong_received := False\<rparr>))"

definition unanswered :: "conn \<Rightarrow> bool" where
  "unanswered c \<longleftrightarrow> cn_pending_ping c \<noteq> None \<and> \<not> cn_pong_received c"

definition heartbeat_timeout :: "conn \<Rightarrow> conn" where
  "heartbeat_timeout c = c\<lparr>cn_open := False\<rparr>"

declare heartbeat_ping_def [simp] heartbeat_timeout_def [simp] unanswered_def [simp]

text \<open>Whether the receive loop holds the send lock of a response.\<close>

definition replaying :: "string \<Rightarrow> conn \<Rightarrow> bool" where
  "replaying rid c = (case cn_loop c of Replaying rid' _ \<Rightarrow> rid' = rid | _ \<Rightarrow> False)"

definition step_task :: "label \<Rightarrow> conn \<Rightarrow> conn option" where
  "step_task l c =
     (case l of
        TakeChunk i \<Rightarrow>
          if i < length (cn_objs c)
          then map_option (\<lambda>s. set_obj i s c) (take_chunk (cn_objs c ! i)) else None
      | ReturnCredit rid i \<Rightarrow>
          if StreamTask rid i \<in> set (cn_tasks c) \<and> i < length (cn_objs c) then
            (case return_credit (cn_objs c ! i) of
               None \<Rightarrow> None
             | Some s \<Rightarrow>
                 (case task_send [Text (credit_frame rid (cn_objs c ! i))] c of
                    (True, c') \<Rightarrow> Some (set_obj i s c') | (False, c') \<Rightarrow> Some c'))
          else None
      | Respond rid bf chunks failure \<Rightarrow>
          if map_of (cn_responses c) rid = None
             \<and> (\<exists>t \<in> set (cn_tasks c). is_fetch rid t
                  \<or> (\<exists>i \<in> set [0..<length (cn_objs c)]. t = StreamTask rid i))
          then Some (c\<lparr>cn_responses := AList.update rid
                        (begin_response (ng_stream_window (cn_neg c)) bf chunks failure)
                        (cn_responses c)\<rparr>)
          else None
      | SenderTurn rid \<Rightarrow>
          (case map_of (cn_responses c) rid of
             None \<Rightarrow> None
           | Some rs \<Rightarrow>
               (case sender_turn (\<not> replaying rid c) rid rs of
                  None \<Rightarrow> None
                | Some (rs', ws) \<Rightarrow>
                    (case task_send ws c of
                       (True, c') \<Rightarrow> Some (c'\<lparr>cn_responses := AList.update rid rs' (cn_responses c)\<rparr>)
                     | (False, c') \<Rightarrow> Some c')))
      | FinishStream now rid i failure \<Rightarrow>
          if StreamTask rid i \<in> set (cn_tasks c) then
            (case task_send (case failure of None \<Rightarrow> [] | Some m \<Rightarrow> [Text (ErrorFrame rid m)]) c of
               (True, c') \<Rightarrow> Some (finish_stream now rid i c') | (False, c') \<Rightarrow> Some c')
          else None
      | FinishFetch now rid frame out \<Rightarrow>
          if FetchTask rid frame \<in> set (cn_tasks c) then Some (finish_fetch now rid frame out c)
          else None
      | RunSend f \<Rightarrow>
          if SendTask f \<in> set (cn_tasks c) then
            (case task_send [Text f] c of
               (True, c') \<Rightarrow> Some (c'\<lparr>cn_tasks := remove1 (SendTask f) (cn_tasks c)\<rparr>)
             | (False, c') \<Rightarrow> Some c')
          else None
      | RunSleep \<Rightarrow>
          if SleepTask \<in> set (cn_tasks c)
          then Some (c\<lparr>cn_tasks := remove1 SleepTask (cn_tasks c)\<rparr>) else None
      | ChannelSend rid ws \<Rightarrow>
          if map_of (cn_channels c) rid = None then None
          else (case task_send ws c of (True, c') \<Rightarrow> Some c' | (False, c') \<Rightarrow> Some c')
      | ChannelTake rid \<Rightarrow> if item_waiting rid c then Some (take_item rid c) else None
      | ChannelEnd now rid ws \<Rightarrow>
          if map_of (cn_channels c) rid = None then None
          else
            (case task_send ws c of
               (True, c') \<Rightarrow> Some (end_channel now rid c') | (False, c') \<Rightarrow> Some c')
      | Heartbeat ping stamp \<Rightarrow>
          Some (heartbeat_ping ping stamp c)
      | HeartbeatTimeout \<Rightarrow>
          if unanswered c then Some (heartbeat_timeout c) else None
      | ClosePeer \<Rightarrow> Some (c\<lparr>cn_open := False\<rparr>)
      | _ \<Rightarrow> None)"

text \<open>The tasks of the open channels are cancelled; each remembers its id as it ends.\<close>

definition leave_loop :: "rat \<Rightarrow> conn \<Rightarrow> conn" where
  "leave_loop now c =
     c\<lparr>cn_terminated := fold (remember_terminated now) (map fst (cn_channels c)) (cn_terminated c),
       cn_open := False, cn_ws_ready := False, cn_channels := [], cn_pending_ping := None,
       cn_responses := map (\<lambda>(rid, rs). (rid, rs\<lparr>rp_ready := False\<rparr>)) (cn_responses c),
       cn_loop := Ended\<rparr>"

definition conn_step :: "tunnel_limits \<Rightarrow> label \<Rightarrow> conn \<Rightarrow> conn option" where
  "conn_step L l c =
     (case l of
        Receive now m \<Rightarrow> if cn_loop c = Receiving then Some (receive L now m c) else None
      | LeaveLoop now \<Rightarrow>
          (case cn_loop c of
             Receiving \<Rightarrow> if cn_open c then None else Some (leave_loop now c)
           | Raised e \<Rightarrow> Some (leave_loop now c)
           | _ \<Rightarrow> None)
      | Reconnect \<Rightarrow>
          if cn_loop c = Ended
          then Some (c\<lparr>cn_neg := initial_negotiated L, cn_open := True, cn_ws_ready := True,
                       cn_pong_received := False, cn_loop := Receiving\<rparr>)
          else None
      | PutMarker \<Rightarrow> step_loop l c
      | ResumeSend \<Rightarrow> step_loop l c
      | ReplayTurn \<Rightarrow> step_loop l c
      | _ \<Rightarrow> step_task l c)"

text \<open>A run: every label in turn, when each move is possible.\<close>

fun conn_run :: "tunnel_limits \<Rightarrow> label list \<Rightarrow> conn \<Rightarrow> conn option" where
  "conn_run L [] c = Some c"
| "conn_run L (l # ls) c = (case conn_step L l c of None \<Rightarrow> None | Some c' \<Rightarrow> conn_run L ls c')"

lemma conn_run_append:
  "conn_run L (ls @ ls') c = Some c' \<longleftrightarrow>
     (\<exists>d. conn_run L ls c = Some d \<and> conn_run L ls' d = Some c')"
  by (induction ls arbitrary: c) (auto split: option.splits)

lemma conn_run_trans:
  "conn_run L ls c = Some d \<Longrightarrow> conn_run L ls' d = Some c' \<Longrightarrow> conn_run L (ls @ ls') c = Some c'"
  by (simp add: conn_run_append)

lemma conn_run_invariant:
  assumes "\<And>l c c'. P c \<Longrightarrow> conn_step L l c = Some c' \<Longrightarrow> P c'"
    and "P c" "conn_run L ls c = Some c'"
  shows "P c'"
  using assms(2,3) by (induction ls arbitrary: c) (auto split: option.splits intro: assms(1))

lemma channel_simps [simp]:
  "cn_neg (take_item rid c) = cn_neg c" "cn_objs (take_item rid c) = cn_objs c"
  "cn_requests (take_item rid c) = cn_requests c" "cn_responses (take_item rid c) = cn_responses c"
  "cn_inflight (take_item rid c) = cn_inflight c" "cn_tasks (take_item rid c) = cn_tasks c"
  "cn_ws_ready (take_item rid c) = cn_ws_ready c" "cn_open (take_item rid c) = cn_open c"
  "cn_sent (take_item rid c) = cn_sent c" "cn_loop (take_item rid c) = cn_loop c"
  "cn_completed (take_item rid c) = cn_completed c"
  "cn_neg (end_channel now rid c) = cn_neg c" "cn_objs (end_channel now rid c) = cn_objs c"
  "cn_requests (end_channel now rid c) = cn_requests c" "cn_responses (end_channel now rid c) = cn_responses c"
  "cn_inflight (end_channel now rid c) = cn_inflight c" "cn_tasks (end_channel now rid c) = cn_tasks c"
  "cn_ws_ready (end_channel now rid c) = cn_ws_ready c" "cn_open (end_channel now rid c) = cn_open c"
  "cn_sent (end_channel now rid c) = cn_sent c" "cn_loop (end_channel now rid c) = cn_loop c"
  "cn_completed (end_channel now rid c) = cn_completed c"
  by (simp_all add: take_item_def end_channel_def remember_def)

lemma task_send_simps [simp]:
  "cn_loop (snd (task_send ws c)) = cn_loop c" "cn_objs (snd (task_send ws c)) = cn_objs c"
  "cn_responses (snd (task_send ws c)) = cn_responses c"
  by (simp_all add: task_send_def)

lemma task_send_ready:
  "task_send ws c = (b, c') \<Longrightarrow> \<not> cn_ws_ready c \<Longrightarrow> \<not> cn_ws_ready c' \<and> cn_sent c' = cn_sent c \<and> (b \<longrightarrow> ws = [])"
  by (auto simp: task_send_def split: if_splits)

lemma task_send_keeps:
  "task_send ws c = (b, c') \<Longrightarrow>
     cn_loop c' = cn_loop c \<and> cn_objs c' = cn_objs c \<and> cn_responses c' = cn_responses c"
  by (auto simp: task_send_def split: if_splits)

lemma drop_stream_keeps [simp]:
  "cn_loop (drop_stream now rid i c) = cn_loop c"
  "cn_responses (drop_stream now rid i c) = cn_responses c"
  "cn_ws_ready (drop_stream now rid i c) = cn_ws_ready c"
  "cn_sent (drop_stream now rid i c) = cn_sent c"
  "cn_objs (drop_stream now rid i c) = (cn_objs c)[i := (cn_objs c ! i)\<lparr>rq_consumer := Dead\<rparr>]"
  by (simp_all add: drop_stream_def remember_def cancel_stream_def set_obj_def)

section \<open>What holds in every reachable state\<close>

text \<open>
  The streams: the values in force are within the limits, every stream object satisfies its
  invariant under the client's body limit, dictionary entries refer to existing objects, and an
  end marker is only being put into a stream that was just ended.
\<close>

definition ending :: "stream \<Rightarrow> bool" where
  "ending s \<longleftrightarrow> rq_ended s \<and> None \<notin> set (rq_queue s) \<and> rq_consumer s \<noteq> Exhausted"

definition streams_inv :: "tunnel_limits \<Rightarrow> conn \<Rightarrow> bool" where
  "streams_inv L c \<longleftrightarrow>
     negotiated_ok L (cn_neg c)
     \<and> (\<forall>s \<in> set (cn_objs c). stream_ok (tl_max_body_size L) s)
     \<and> (\<forall>(rid, i) \<in> set (cn_requests c). i < length (cn_objs c))
     \<and> (\<forall>i. cn_loop c = Putting i \<longrightarrow> i < length (cn_objs c) \<and> ending (cn_objs c ! i))"

lemma streams_inv_same:
  assumes "streams_inv L c" "cn_neg c' = cn_neg c" "cn_objs c' = cn_objs c"
    "set (cn_requests c') \<subseteq> set (cn_requests c)"
    "cn_loop c' = cn_loop c \<or> (\<forall>i. cn_loop c' \<noteq> Putting i)"
  shows "streams_inv L c'"
  using assms by (auto simp: streams_inv_def)

text \<open>Replacing one object, in a loop that is not waiting to put or after which its stream still ends.\<close>

lemma streams_inv_set_obj:
  assumes "streams_inv L c" "i < length (cn_objs c) \<Longrightarrow> stream_ok (tl_max_body_size L) s"
    and "cn_loop c = Putting i \<Longrightarrow> ending s"
  shows "streams_inv L (set_obj i s c)"
proof -
  have "stream_ok (tl_max_body_size L) x" if "x \<in> set ((cn_objs c)[i := s])" for x
  proof (cases "i < length (cn_objs c)")
    case True
    then show ?thesis
      using that assms(1,2) set_update_subset_insert [of "cn_objs c" i s] by (auto simp: streams_inv_def)
  qed (use that assms(1) in \<open>auto simp: streams_inv_def list_update_beyond\<close>)
  moreover have "ending ((cn_objs c)[i := s] ! j)" if "cn_loop c = Putting j" for j
    using that assms(1,3) by (cases "i = j") (auto simp: streams_inv_def)
  ultimately show ?thesis using assms(1) by (auto simp: streams_inv_def set_obj_def)
qed

lemma stream_ok_dead: "stream_ok m s \<Longrightarrow> stream_ok m (s\<lparr>rq_consumer := Dead\<rparr>)"
  by (auto simp: stream_ok_def queued_def)

lemma ending_dead: "ending s \<Longrightarrow> ending (s\<lparr>rq_consumer := Dead\<rparr>)"
  by (simp add: ending_def)

lemma streams_inv_objs:
  "streams_inv L c \<Longrightarrow> i < length (cn_objs c) \<Longrightarrow> stream_ok (tl_max_body_size L) (cn_objs c ! i)"
  by (auto simp: streams_inv_def)

lemma streams_inv_index:
  "streams_inv L c \<Longrightarrow> map_of (cn_requests c) rid = Some i \<Longrightarrow> i < length (cn_objs c)"
  by (auto simp: streams_inv_def dest: map_of_SomeD)

lemma drop_stream_inv [inv_intros]:
  assumes "streams_inv L c"
  shows "streams_inv L (drop_stream now rid i c)"
proof -
  have "streams_inv L (cancel_stream i c)"
    unfolding cancel_stream_def
    using assms
    by (intro streams_inv_set_obj stream_ok_dead ending_dead)
      (auto simp: streams_inv_objs, auto simp: streams_inv_def)
  then show ?thesis
    by (rule streams_inv_same)
      (auto simp: drop_stream_def remember_def cancel_stream_def set_obj_def AList.delete_eq)
qed

lemma loop_send_inv [inv_intros]:
  assumes "streams_inv L c"
  shows "streams_inv L (loop_send f a c)"
proof -
  have sent: "streams_inv L (c\<lparr>cn_sent := ws\<rparr>)" for ws
    using assms by (rule streams_inv_same) simp_all
  show ?thesis
  proof (cases "cn_ws_ready c \<and> cn_open c")
    case True
    then show ?thesis
      using sent by (auto simp: loop_send_def after_def intro: drop_stream_inv split: after_send.split)
  next
    case False
    then have "streams_inv L (c\<lparr>cn_ws_ready := False, cn_loop := Wedged f a\<rparr>)"
      using assms by (intro streams_inv_same [OF assms]) simp_all
    moreover have "loop_send f a c = c\<lparr>cn_ws_ready := False, cn_loop := Wedged f a\<rparr>"
      using False by (simp only: loop_send_def if_False)
    ultimately show ?thesis by simp
  qed
qed

lemma raise_exc_inv [inv_intros]: "streams_inv L c \<Longrightarrow> streams_inv L (raise_exc e c)"
  by (erule streams_inv_same) (simp_all add: raise_exc_def)

lemma absorb_inv [inv_intros]: "streams_inv L c \<Longrightarrow> streams_inv L (absorb now rid msg c)"
  by (erule streams_inv_same) (simp_all add: absorb_def raise_exc_def split_beta Let_def)

lemma end_stream_inv [inv_intros]:
  assumes "streams_inv L c" "i < length (cn_objs c)" "\<not> rq_ended (cn_objs c ! i)"
  shows "streams_inv L (end_stream i c)"
proof -
  let ?s = "(cn_objs c ! i)\<lparr>rq_ended := True\<rparr>"
  have ok: "stream_ok (tl_max_body_size L) (cn_objs c ! i)" using assms by (simp add: streams_inv_objs)
  then have "stream_ok (tl_max_body_size L) ?s" and ending: "ending ?s"
    using assms(3) by (auto simp: stream_ok_def ending_def queued_def)
  then have "streams_inv L (set_obj i ?s c)" using assms by (intro streams_inv_set_obj) auto
  with ending assms(2) show ?thesis
    by (auto simp: streams_inv_def end_stream_def set_obj_def)
qed

lemma recv_request_data_inv [inv_intros]:
  assumes "streams_inv L c" "cn_loop c = Receiving"
  shows "streams_inv L (recv_request_data now env c)"
proof (cases "map_of (cn_requests c) (env_request_id env)")
  case (Some i)
  note i = streams_inv_index [OF assms(1) Some]
  show ?thesis
  proof (cases "env_offset env")
    case (Some off)
    let ?s = "cn_objs c ! i"
    show ?thesis
    proof (cases "accept_chunk (ng_max_body_size (cn_neg c)) off (env_payload env) ?s")
      case (Accepted s')
      have "stream_ok (tl_max_body_size L) s'"
        using accept_chunk_ok_below [OF streams_inv_objs [OF assms(1) i] Accepted] assms(1)
        by (simp add: streams_inv_def negotiated_ok_def)
      then have "streams_inv L (set_obj i s' c)" using assms by (intro streams_inv_set_obj) auto
      moreover have "\<not> rq_ended s'" using accept_chunk_cases(2,5) [OF Accepted] by simp
      ultimately show ?thesis
        using i \<open>map_of (cn_requests c) (env_request_id env) = Some i\<close> Some Accepted
        by (auto simp: recv_request_data_def Let_def set_obj_def intro!: end_stream_inv)
    qed (use assms Some \<open>map_of (cn_requests c) (env_request_id env) = Some i\<close> in
        \<open>auto simp: recv_request_data_def Let_def intro!: inv_intros\<close>)
  qed (use assms Some in \<open>auto simp: recv_request_data_def intro!: inv_intros\<close>)
qed (use assms in \<open>auto simp: recv_request_data_def intro!: inv_intros\<close>)

lemma set_alist_update: "set (AList.update k v al) \<subseteq> insert (k, v) (set al)"
  by (induction al) auto

lemma start_stream_inv [inv_intros]:
  assumes "streams_inv L c" "limits_ok L" "cn_loop c = Receiving"
  shows "streams_inv L (start_stream rid cl c)"
proof -
  have "stream_ok (tl_max_body_size L) (new_stream (ng_stream_window (cn_neg c)) cl)"
    using assms(1,2) by (intro new_stream_ok) (auto simp: streams_inv_def negotiated_ok_def limits_ok_def)
  then have "streams_inv L (c\<lparr>cn_objs := cn_objs c @ [new_stream (ng_stream_window (cn_neg c)) cl],
      cn_requests := AList.update rid (length (cn_objs c)) (cn_requests c),
      cn_tasks := ts\<rparr>)" for ts
    using assms(1,3) set_alist_update [of rid "length (cn_objs c)" "cn_requests c"]
    by (fastforce simp: streams_inv_def)
  then show ?thesis by (simp add: start_stream_def Let_def loop_send_inv)
qed

lemma handle_http_req_begin_inv [inv_intros]:
  assumes "streams_inv L c" "limits_ok L" "cn_loop c = Receiving"
  shows "streams_inv L (handle_http_req_begin frame c)"
  using assms
  by (auto simp: handle_http_req_begin_def Let_def intro!: inv_intros split: option.splits)

lemma recv_http_req_end_inv [inv_intros]:
  assumes "streams_inv L c"
  shows "streams_inv L (recv_http_req_end now rid c)"
  using assms streams_inv_index [OF assms, of rid]
  by (auto simp: recv_http_req_end_def Let_def intro!: inv_intros split: option.splits)

lemma recv_hello_inv [inv_intros]:
  "streams_inv L c \<Longrightarrow> limits_ok L \<Longrightarrow> streams_inv L (recv_hello L frame c)"
  by (auto simp: streams_inv_def recv_hello_def intro: handle_hello_ok)

lemma push_channel_inv [inv_intros]:
  assumes "streams_inv L c"
  shows "streams_inv L (push_channel now rid ch item c)"
proof -
  have "streams_inv L (c\<lparr>cn_channels := x, cn_terminated := y\<rparr>)" "streams_inv L (c\<lparr>cn_channels := x\<rparr>)" for x y
    using assms by (auto intro: streams_inv_same [OF assms])
  then show ?thesis by (simp add: push_channel_def remember_def loop_send_inv)
qed

lemma recv_binary_inv [inv_intros]:
  assumes "streams_inv L c" "cn_loop c = Receiving"
  shows "streams_inv L (recv_binary now raw c)"
  using assms
  by (auto simp: recv_binary_def recv_ws_binary_def intro!: inv_intros split: sum.splits option.splits)

lemma handle_http_req_inv [inv_intros]:
  assumes "streams_inv L c"
  shows "streams_inv L (handle_http_req now rid frame c)"
proof -
  have "streams_inv L (c\<lparr>cn_completed := x, cn_tasks := y\<rparr>)"
    "streams_inv L (c\<lparr>cn_completed := x, cn_inflight := z, cn_tasks := y\<rparr>)" for x y z
    by (auto intro: streams_inv_same [OF assms])
  then show ?thesis
    using assms by (auto simp: handle_http_req_def Let_def intro: inv_intros split: sum.splits option.splits)
qed

lemma recv_window_inv [inv_intros]:
  "streams_inv L c \<Longrightarrow> cn_loop c = Receiving \<Longrightarrow> streams_inv L (recv_window frame rid c)"
  by (erule streams_inv_same)
    (auto simp: recv_window_def raise_exc_def Let_def split: sum.splits option.splits)

lemma recv_error_inv [inv_intros]:
  assumes "streams_inv L c"
  shows "streams_inv L (recv_error now rid c)"
proof -
  have 1: "streams_inv L (c\<lparr>cn_responses := x\<rparr>)" for x
    by (auto intro: streams_inv_same [OF assms])
  have "streams_inv L (c\<lparr>cn_responses := x, cn_inflight := y, cn_tasks := z\<rparr>)"
    "streams_inv L (c\<lparr>cn_responses := x, cn_channels := y', cn_terminated := z'\<rparr>)" for x y z y' z'
    by (auto intro: streams_inv_same [OF assms])
  with 1 show ?thesis
    by (auto simp: recv_error_def Let_def remember_def intro: inv_intros split: option.splits)
qed

lemma recv_ws_connect_inv [inv_intros]:
  assumes "streams_inv L c"
  shows "streams_inv L (recv_ws_connect now rid c)"
proof -
  have "streams_inv L (c\<lparr>cn_terminated := x\<rparr>)" "streams_inv L (c\<lparr>cn_terminated := x, cn_channels := y\<rparr>)" for x y
    by (auto intro: streams_inv_same [OF assms])
  then show ?thesis using assms
    by (auto simp: recv_ws_connect_def Let_def intro: inv_intros split: prod.splits)
qed

lemma recv_frame_inv [inv_intros]:
  assumes "streams_inv L c" "limits_ok L" "cn_loop c = Receiving"
  shows "streams_inv L (recv_frame L now frame c)"
proof -
  have id: "streams_inv L (with_id frame k c)" if "\<And>rid. streams_inv L (k rid c)" for k
    using that assms(1) by (auto simp: with_id_def intro: inv_intros split: json.splits)
  have http: "streams_inv L (recv_http_req now frame rid c)" for rid
    using assms(1) by (simp add: recv_http_req_def Let_def inv_intros)
  have beginning: "streams_inv L (recv_http_req_begin frame c)"
    using assms by (simp add: recv_http_req_begin_def inv_intros)
  have ws: "streams_inv L (recv_ws_frame now frame rid c)" for rid
    using assms(1) by (auto simp: recv_ws_frame_def intro: inv_intros split: option.splits)
  have ping: "streams_inv L (recv_ping frame c)"
    using assms(1) by (simp add: recv_ping_def inv_intros)
  have pong: "streams_inv L (recv_pong frame c)"
    using assms(1) by (rule streams_inv_same) (simp_all add: recv_pong_def split: option.splits)
  show ?thesis
    unfolding recv_frame_def Let_def
    using assms http beginning ws ping pong by (simp add: inv_intros id)
qed

lemma receive_inv [inv_intros]:
  "streams_inv L c \<Longrightarrow> limits_ok L \<Longrightarrow> cn_loop c = Receiving \<Longrightarrow> streams_inv L (receive L now m c)"
  by (auto simp: receive_def intro: inv_intros split: message.splits option.splits)

lemma task_send_inv [inv_intros]:
  assumes "streams_inv L c" "task_send ws c = (b, c')"
  shows "streams_inv L c'"
  using assms(2) by (intro streams_inv_same [OF assms(1)]) (auto simp: task_send_def split: if_splits)

lemma step_loop_inv:
  assumes "streams_inv L c" "step_loop l c = Some c'"
  shows "streams_inv L c'"
proof -
  consider (put) i where "l = PutMarker" "cn_loop c = Putting i"
    | (resume) f a where "l = ResumeSend" "cn_loop c = Wedged f a"
    | (replay) rid k where "l = ReplayTurn" "cn_loop c = Replaying rid k"
    using assms(2) by (cases l; cases "cn_loop c") (auto simp: step_loop_def)
  then show ?thesis
  proof cases
    case put
    then have c': "c' = (set_obj i (put_end (cn_objs c ! i)) c)\<lparr>cn_loop := Receiving\<rparr>"
      and room: "\<not> queue_full (cn_objs c ! i)"
      using assms(2) by (auto simp: step_loop_def split: if_splits)
    have i: "i < length (cn_objs c)" "ending (cn_objs c ! i)"
      using assms(1) put by (auto simp: streams_inv_def)
    then have "stream_ok (tl_max_body_size L) (put_end (cn_objs c ! i))"
      using streams_inv_objs [OF assms(1) i(1)] room by (intro put_end_ok) (auto simp: ending_def)
    then have "stream_ok (tl_max_body_size L) s" if "s \<in> set ((cn_objs c)[i := put_end (cn_objs c ! i)])" for s
      using that assms(1) set_update_subset_insert [of "cn_objs c" i] by (auto simp: streams_inv_def)
    then show ?thesis using assms(1) by (auto simp: streams_inv_def c' set_obj_def)
  next
    case resume
    have "streams_inv L (c\<lparr>cn_loop := Receiving\<rparr>)" by (auto intro: streams_inv_same [OF assms(1)])
    with resume assms(2) show ?thesis
      by (auto simp: step_loop_def intro: loop_send_inv split: if_splits)
  next
    case replay
    then obtain ws b d where d: "task_send ws c = (b, d)"
      and "c' = d \<or> (\<exists>rs st. c' = d\<lparr>cn_responses := rs, cn_loop := st\<rparr> \<and> (\<forall>i. st \<noteq> Putting i))"
      using assms(2) by (fastforce simp: step_loop_def split: option.splits prod.splits bool.splits)
    then show ?thesis
      by (auto intro: streams_inv_same [OF task_send_inv [OF assms(1) d]])
  qed
qed

lemma take_chunk_ending: "ending s \<Longrightarrow> take_chunk s = Some s' \<Longrightarrow> ending s'"
  by (auto simp: ending_def take_chunk_def split: consumer.splits list.splits option.splits)

lemma return_credit_ending: "ending s \<Longrightarrow> return_credit s = Some s' \<Longrightarrow> ending s'"
  by (auto simp: ending_def return_credit_def split: if_splits)

lemma streams_inv_ending: "streams_inv L c \<Longrightarrow> cn_loop c = Putting i \<Longrightarrow> ending (cn_objs c ! i)"
  by (simp add: streams_inv_def)

lemma step_task_inv:
  assumes "streams_inv L c" "step_task l c = Some c'"
  shows "streams_inv L c'"
proof -
  have same: "streams_inv L d'" if "streams_inv L d" "cn_neg d' = cn_neg d" "cn_objs d' = cn_objs d"
    "cn_requests d' = cn_requests d" "cn_loop d' = cn_loop d" for d d'
    using that by (intro streams_inv_same [OF that(1)]) auto
  show ?thesis
  proof (cases l)
    case (TakeChunk i)
    with assms(2) obtain s where "i < length (cn_objs c)" "take_chunk (cn_objs c ! i) = Some s"
      and "c' = set_obj i s c" by (auto simp: step_task_def split: if_splits)
    with assms(1) show ?thesis
      by (auto intro!: streams_inv_set_obj intro: take_chunk_ok streams_inv_objs
          take_chunk_ending streams_inv_ending)
  next
    case (ReturnCredit rid i)
    with assms(2) obtain s ws b d where i: "i < length (cn_objs c)"
      and s: "return_credit (cn_objs c ! i) = Some s" and d: "task_send ws c = (b, d)"
      and c': "c' = (if b then set_obj i s d else d)"
      by (auto simp: step_task_def split: if_splits option.splits prod.splits bool.splits)
    note inv = task_send_inv [OF assms(1) d]
    have "ending s" if "cn_loop c = Putting i"
      using return_credit_ending [OF streams_inv_ending [OF assms(1) that] s] .
    then have "streams_inv L (set_obj i s d)"
      using inv task_send_keeps [OF d] i s
      by (intro streams_inv_set_obj) (auto intro: return_credit_ok streams_inv_objs [OF assms(1)])
    with inv c' show ?thesis by simp
  next
    case (FinishStream now rid i failure)
    with assms(2) obtain ws b d where d: "task_send ws c = (b, d)"
      and c': "c' = (if b then finish_stream now rid i d else d)"
      by (auto simp: step_task_def split: if_splits prod.splits bool.splits)
    note inv = task_send_inv [OF assms(1) d]
    have "streams_inv L (finish_stream now rid i d)"
      unfolding finish_stream_def by (rule same [OF drop_stream_inv [OF inv]]) simp_all
    with inv c' show ?thesis by simp
  next
    case (SenderTurn rid)
    with assms(2) obtain ws b d rs where d: "task_send ws c = (b, d)"
      and c': "c' = d \<or> c' = d\<lparr>cn_responses := rs\<rparr>"
      by (auto simp: step_task_def split: option.splits prod.splits bool.splits)
    with task_send_inv [OF assms(1) d] show ?thesis by (auto intro: same)
  next
    case (RunSend f)
    with assms(2) obtain ws b d ts where d: "task_send ws c = (b, d)"
      and c': "c' = d \<or> c' = d\<lparr>cn_tasks := ts\<rparr>"
      by (auto simp: step_task_def split: if_splits prod.splits bool.splits)
    with task_send_inv [OF assms(1) d] show ?thesis by (auto intro: same)
  next
    case (ChannelSend rid ws)
    with assms(2) obtain b where "task_send ws c = (b, c')"
      by (auto simp: step_task_def split: if_splits prod.splits bool.splits)
    with assms(1) show ?thesis by (rule task_send_inv)
  next
    case (ChannelEnd now rid ws)
    with assms(2) obtain b d where d: "task_send ws c = (b, d)" and c': "c' = (if b then end_channel now rid d else d)"
      by (auto simp: step_task_def split: if_splits prod.splits bool.splits)
    with task_send_inv [OF assms(1) d] show ?thesis by (auto intro: same)
  next
    case (Heartbeat ping stamp)
    have "streams_inv L (c\<lparr>cn_pending_ping := Some ping, cn_pong_received := False\<rparr>)"
      by (auto intro: same [OF assms(1)])
    from task_send_inv [OF this prod.collapse [symmetric]] Heartbeat assms(2) show ?thesis
      by (auto simp: step_task_def)
  qed (use assms in \<open>auto simp: step_task_def finish_fetch_def intro: same [OF assms(1)]
        split: if_splits\<close>)
qed

lemma conn_step_inv:
  assumes "streams_inv L c" "limits_ok L" "conn_step L l c = Some c'"
  shows "streams_inv L c'"
proof -
  have other: "streams_inv L c'"
    if "conn_step L l c = step_loop l c \<or> conn_step L l c = step_task l c"
    using that assms(3) step_loop_inv [OF assms(1)] step_task_inv [OF assms(1)] by metis
  show ?thesis
  proof (cases l)
  case (Receive now m)
  with assms show ?thesis by (auto simp: conn_step_def intro: receive_inv split: if_splits)
next
  case (LeaveLoop now)
  have "streams_inv L (leave_loop now c)"
    by (rule streams_inv_same [OF assms(1)]) (simp_all add: leave_loop_def)
  with LeaveLoop assms(3) show ?thesis by (auto simp: conn_step_def split: loop_state.splits if_splits)
next
  case Reconnect
  with assms show ?thesis
    by (auto simp: conn_step_def streams_inv_def initial_negotiated_ok split: if_splits)
  qed (rule other, simp add: conn_step_def)+
qed

section \<open>Channels\<close>

text \<open>
  At most the client's number of channels, each with a queue within its capacity; the capacity covers a
  message of the largest size.
\<close>

definition channel_ok :: "tunnel_limits \<Rightarrow> channel \<Rightarrow> bool" where
  "channel_ok L ch \<longleftrightarrow>
     0 < ch_limit ch \<and> length (ch_queue ch) \<le> ch_limit ch
     \<and> int (ch_limit ch) \<le> max 100 (tl_max_ws_message_size L div 1024 + 3)"

definition channels_inv :: "tunnel_limits \<Rightarrow> (string \<times> channel) list \<Rightarrow> bool" where
  "channels_inv L chs \<longleftrightarrow>
     distinct (map fst chs) \<and> int (length chs) \<le> tl_max_inflight L \<and> (\<forall>(rid, ch)\<in>set chs. channel_ok L ch)"

lemma channel_limit_bounds:
  assumes "limits_ok L" "negotiated_ok L ng"
  shows "0 < channel_limit ng \<and> channel_limit ng \<le> max 100 (tl_max_ws_message_size L div 1024 + 3)"
proof (cases "ng_protocol_version ng \<ge> PROTOCOL_VERSION")
  case True
  let ?w = "ng_max_ws_message_size ng" and ?c = "ng_stream_chunk ng"
  have bounds: "1 \<le> ?w" "?w \<le> tl_max_ws_message_size L" "1024 \<le> ?c"
    using assms(2) by (simp_all add: negotiated_ok_def)
  have "(?w + ?c - 1) div ?c = (?w - 1) div ?c + 1"
    using div_add_self2 [of ?c "?w - 1"] bounds by (simp add: algebra_simps)
  moreover have "(?w - 1) div ?c \<le> (?w - 1) div 1024" using bounds by (intro zdiv_mono2) simp_all
  moreover have "(?w - 1) div 1024 \<le> tl_max_ws_message_size L div 1024" using bounds by (intro zdiv_mono1) simp_all
  moreover have "0 \<le> (?w - 1) div ?c" using bounds by (simp add: pos_imp_zdiv_nonneg_iff)
  ultimately show ?thesis using True by (simp add: channel_limit_def)
next
  case False
  then show ?thesis by (simp add: channel_limit_def WS_CHANNEL_QUEUE_LIMIT_def)
qed

lemma channels_inv_delete [inv_intros]:
  assumes "channels_inv L chs"
  shows "channels_inv L (AList.delete rid chs)"
proof -
  have "length (AList.delete rid chs) \<le> length chs" by (rule length_delete_le)
  moreover have "set (AList.delete rid chs) \<subseteq> set chs" by (auto simp: AList.delete_eq)
  moreover have "distinct (map fst (AList.delete rid chs))"
    using assms by (auto simp: channels_inv_def intro: distinct_delete)
  ultimately show ?thesis using assms by (auto simp: channels_inv_def)
qed

lemma channels_inv_update:
  assumes "channels_inv L chs" "map_of chs rid \<noteq> None" "channel_ok L ch"
  shows "channels_inv L (AList.update rid ch chs)"
proof -
  have "rid \<in> fst ` set chs" using assms(2) by (simp add: map_of_eq_None_iff)
  then have "length (AList.update rid ch chs) = length chs"
    using assms(1) by (induction chs) (auto simp: channels_inv_def)
  with assms(1,3) show ?thesis by (auto simp: channels_inv_def distinct_update in_set_update split: if_splits)
qed

lemma channels_inv_new:
  assumes "channels_inv L chs" "int (length chs) < tl_max_inflight L" "channel_ok L ch"
  shows "channels_inv L (AList.update rid ch chs)"
proof -
  have "length (AList.update rid ch chs) \<le> Suc (length chs)"
    by (induction chs) auto
  with assms show ?thesis by (auto simp: channels_inv_def distinct_update in_set_update split: if_splits)
qed

lemma channels_inv_take:
  assumes "channels_inv L chs"
  shows "channels_inv L (map (\<lambda>(k, ch). (k, if k = rid then ch\<lparr>ch_queue := tl (ch_queue ch)\<rparr> else ch)) chs)"
  using assms by (auto simp: channels_inv_def channel_ok_def comp_def case_prod_unfold)

lemma keeps_channels [simp]:
  "cn_channels (raise_exc e c) = cn_channels c" "cn_channels (remember now rid c) = cn_channels c"
  "cn_channels (set_obj i s c) = cn_channels c" "cn_channels (drop_stream now rid i c) = cn_channels c"
  "cn_channels (absorb now rid msg c) = cn_channels c" "cn_channels (loop_send f a c) = cn_channels c"
  "cn_channels (end_stream i c) = cn_channels c" "cn_channels (snd (task_send ws c)) = cn_channels c"
  by (simp_all add: raise_exc_def remember_def set_obj_def drop_stream_def cancel_stream_def absorb_def
      loop_send_def after_def end_stream_def task_send_def Let_def split_beta split: after_send.splits)

lemma recv_keeps_channels [simp]:
  "cn_channels (recv_request_data now env c) = cn_channels c"
  "cn_channels (recv_hello L frame c) = cn_channels c"
  "cn_channels (recv_http_req now frame rid c) = cn_channels c"
  "cn_channels (recv_http_req_begin frame c) = cn_channels c"
  "cn_channels (recv_http_req_end now rid c) = cn_channels c"
  "cn_channels (recv_window frame rid c) = cn_channels c"
  "cn_channels (recv_ping frame c) = cn_channels c" "cn_channels (recv_pong frame c) = cn_channels c"
  by (auto simp: recv_request_data_def recv_hello_def recv_http_req_def handle_http_req_def recv_http_req_begin_def
      handle_http_req_begin_def start_stream_def recv_http_req_end_def recv_window_def recv_ping_def recv_pong_def Let_def
      split: option.splits verdict.splits sum.splits)

lemma channels_inv_find:
  "channels_inv L chs \<Longrightarrow> map_of chs rid = Some ch \<Longrightarrow> channel_ok L ch"
  by (auto simp: channels_inv_def dest: map_of_SomeD)

lemma push_channel_channels:
  assumes "channels_inv L (cn_channels c)" "map_of (cn_channels c) rid = Some ch"
  shows "channels_inv L (cn_channels (push_channel now rid ch item c))"
proof -
  have "channel_ok L (ch\<lparr>ch_queue := ch_queue ch @ [item]\<rparr>)" if "\<not> channel_full ch"
    using channels_inv_find [OF assms] that by (auto simp: channel_ok_def channel_full_def)
  then show ?thesis
    using assms by (auto simp: push_channel_def intro: channels_inv_delete channels_inv_update)
qed

lemma recv_ws_connect_channels:
  assumes "channels_inv L (cn_channels c)" "limits_ok L" "negotiated_ok L (cn_neg c)"
  shows "channels_inv L (cn_channels (recv_ws_connect now rid c))"
proof -
  have "channel_ok L \<lparr>ch_limit = nat (channel_limit (cn_neg c)), ch_queue = []\<rparr>"
    using channel_limit_bounds [OF assms(2,3)] by (auto simp: channel_ok_def)
  moreover have "int (length (cn_channels c)) < ng_max_inflight (cn_neg c) \<Longrightarrow>
      int (length (cn_channels c)) < tl_max_inflight L"
    using assms(3) by (simp add: negotiated_ok_def)
  ultimately show ?thesis
    using assms(1)
    by (auto simp: recv_ws_connect_def Let_def intro!: channels_inv_new split: prod.splits)
qed

lemma recv_error_channels:
  "channels_inv L (cn_channels c) \<Longrightarrow> channels_inv L (cn_channels (recv_error now rid c))"
  by (auto simp: recv_error_def Let_def intro: channels_inv_delete split: option.splits)

lemma recv_ws_channels:
  assumes "channels_inv L (cn_channels c)"
  shows "channels_inv L (cn_channels (recv_ws_frame now frame rid c))"
    and "channels_inv L (cn_channels (recv_ws_binary now env c))"
  using assms
  by (auto simp: recv_ws_frame_def recv_ws_binary_def intro: push_channel_channels split: option.splits)

lemma receive_channels:
  assumes "channels_inv L (cn_channels c)" "limits_ok L" "negotiated_ok L (cn_neg c)"
  shows "channels_inv L (cn_channels (receive L now m c))"
proof -
  have id: "channels_inv L (cn_channels (with_id frame k c))"
    if "\<And>rid. channels_inv L (cn_channels (k rid c))" for frame k
    using that assms(1) by (auto simp: with_id_def split: json.splits)
  have begin': "cn_channels (recv_http_req_begin frame c) = cn_channels c" for frame by simp
  have "channels_inv L (cn_channels (recv_frame L now frame c))" for frame
    unfolding recv_frame_def Let_def
    using assms by (simp add: id recv_ws_channels recv_error_channels recv_ws_connect_channels)
  moreover have "channels_inv L (cn_channels (recv_binary now raw c))" for raw
    using assms(1) by (auto simp: recv_binary_def recv_ws_channels split: sum.splits)
  ultimately show ?thesis
    using assms(1) by (auto simp: receive_def split: message.splits option.splits)
qed

lemma task_send_channels: "task_send ws c = (b, c') \<Longrightarrow> cn_channels c' = cn_channels c"
  by (auto simp: task_send_def split: if_splits)

lemma after_channels [simp]: "cn_channels (after a c) = cn_channels c"
  by (simp add: after_def split: after_send.splits)

lemma step_loop_channels:
  "step_loop l c = Some c' \<Longrightarrow> cn_channels c' = cn_channels c"
  by (auto simp: step_loop_def dest!: task_send_channels
      split: label.splits loop_state.splits if_splits option.splits prod.splits bool.splits)

lemma step_task_channels:
  assumes "channels_inv L (cn_channels c)" "step_task l c = Some c'"
  shows "channels_inv L (cn_channels c')"
proof (cases l)
  case (ChannelTake rid)
  with assms show ?thesis by (auto simp: step_task_def take_item_def intro: channels_inv_take split: if_splits)
next
  case (ChannelEnd now rid ws)
  with assms(2) obtain b d where "task_send ws c = (b, d)" "c' = (if b then end_channel now rid d else d)"
    by (auto simp: step_task_def split: if_splits prod.splits bool.splits)
  with assms(1) show ?thesis
    by (auto simp: end_channel_def task_send_channels intro: channels_inv_delete)
qed (use assms in \<open>auto simp: step_task_def finish_stream_def finish_fetch_def dest!: task_send_channels
      split: if_splits option.splits prod.splits bool.splits\<close>)

lemma conn_step_channels:
  assumes "channels_inv L (cn_channels c)" "streams_inv L c" "limits_ok L" "conn_step L l c = Some c'"
  shows "channels_inv L (cn_channels c')"
proof -
  have other: "channels_inv L (cn_channels c')"
    if "conn_step L l c = step_loop l c \<or> conn_step L l c = step_task l c"
    using that assms(1,4) step_loop_channels step_task_channels by metis
  show ?thesis
  proof (cases l)
    case (Receive now m)
    with assms show ?thesis
      by (auto simp: conn_step_def streams_inv_def intro: receive_channels split: if_splits)
  next
    case (LeaveLoop now)
    have "0 \<le> tl_max_inflight L" using assms(3) by (simp add: limits_ok_def)
    with LeaveLoop assms(4) show ?thesis
      by (auto simp: conn_step_def leave_loop_def channels_inv_def split: loop_state.splits if_splits)
  next
    case Reconnect
    with assms(1,4) show ?thesis by (auto simp: conn_step_def split: if_splits)
  qed (rule other, simp add: conn_step_def)+
qed

text \<open>
  C3: Memory stays bounded. In every state a connection can reach, over any number of reconnects and
  whatever the sandbox sends, the values in force are within the client's limits, no request
  stream holds more frames than its window or more bytes than the body limit, its counters are
  the lengths of what was taken and handed on, and every entry of the table of streams refers to
  an existing stream. There are at most \<open>max_inflight\<close> WebSocket channels, none twice, and no queue of
  a channel is longer than its capacity, which is at most 100 items or what a message of the largest size
  takes in the smallest chunks.
\<close>

theorem reachable_streams_bounded:
  assumes "limits_ok L" "conn_run L ls (initial_conn L) = Some c"
  shows "negotiated_ok L (cn_neg c)
    \<and> (\<forall>s \<in> set (cn_objs c). length (rq_queue s) \<le> rq_window s
         \<and> int (length (queued s)) \<le> tl_max_body_size L
         \<and> rq_consumed s = int (length (rq_delivered s))
         \<and> rq_received s = rq_consumed s + int (length (queued s)))
    \<and> (\<forall>(rid, i) \<in> set (cn_requests c). i < length (cn_objs c))
    \<and> distinct (map fst (cn_channels c)) \<and> int (length (cn_channels c)) \<le> tl_max_inflight L
    \<and> (\<forall>(rid, ch) \<in> set (cn_channels c). length (ch_queue ch) \<le> ch_limit ch
         \<and> int (ch_limit ch) \<le> max 100 (tl_max_ws_message_size L div 1024 + 3))"
proof -
  define I where "I c \<longleftrightarrow> streams_inv L c \<and> channels_inv L (cn_channels c)" for c
  have "I (initial_conn L)"
    using assms(1)
    by (simp add: I_def streams_inv_def channels_inv_def initial_conn_def initial_negotiated_ok limits_ok_def)
  then have "I c"
  proof (rule conn_run_invariant [where P = I, rotated])
    show "conn_run L ls (initial_conn L) = Some c" by (rule assms(2))
    show "I c''" if "I c'" "conn_step L l c' = Some c''" for l c' c''
      using that assms(1) unfolding I_def by (blast intro: conn_step_inv conn_step_channels)
  qed
  then show ?thesis
    by (auto simp: I_def streams_inv_def stream_ok_def channels_inv_def channel_ok_def)
qed

theorem reachable_streams_bounded_witness:
  "\<exists>c. conn_run (sample_limits 16 4)
       [Receive 0 (TextMessage (Some (JObj [(''type'', JStr ''ws_connect''), (''id'', JStr ''w'')]))),
        Receive 0 (TextMessage (Some (JObj [(''type'', JStr ''ws_close''), (''id'', JStr ''w'')])))]
       (initial_conn (sample_limits 16 4)) = Some c
     \<and> length (cn_channels c) = 1 \<and> int (length (cn_channels c)) \<le> tl_max_inflight (sample_limits 16 4)"
proof -
  let ?ls = "[Receive 0 (TextMessage (Some (JObj [(''type'', JStr ''ws_connect''), (''id'', JStr ''w'')]))),
        Receive 0 (TextMessage (Some (JObj [(''type'', JStr ''ws_close''), (''id'', JStr ''w'')])))]"
  have ok: "limits_ok (sample_limits 16 4)" by (simp add: limits_ok_def sample_limits_def)
  have "case conn_run (sample_limits 16 4) ?ls (initial_conn (sample_limits 16 4)) of
      None \<Rightarrow> False | Some c \<Rightarrow> length (cn_channels c) = 1"
    by code_simp
  then obtain c where "conn_run (sample_limits 16 4) ?ls (initial_conn (sample_limits 16 4)) = Some c"
    and "length (cn_channels c) = 1" by (auto split: option.splits)
  with reachable_streams_bounded [OF ok this(1)] show ?thesis by blast
qed

section \<open>A plain request is fetched once\<close>

definition fetches :: "string \<Rightarrow> conn \<Rightarrow> nat" where
  "fetches rid c = length (filter (is_fetch rid) (cn_tasks c))"

text \<open>The ids in flight are the non-empty ids that have a fetching task, and each has one.\<close>

definition fetch_inv :: "conn \<Rightarrow> bool" where
  "fetch_inv c \<longleftrightarrow>
     (\<forall>rid. rid \<noteq> [] \<longrightarrow> fetches rid c = (if rid \<in> set (cn_inflight c) then 1 else 0))"

definition same_fetches :: "conn \<Rightarrow> conn \<Rightarrow> bool" where
  "same_fetches c c' \<longleftrightarrow> cn_inflight c' = cn_inflight c \<and> (\<forall>rid. fetches rid c' = fetches rid c)"

lemma fetch_inv_same: "fetch_inv c \<Longrightarrow> same_fetches c c' \<Longrightarrow> fetch_inv c'"
  by (simp add: fetch_inv_def same_fetches_def)

lemma same_fetches_tasks:
  "cn_inflight c' = cn_inflight c \<Longrightarrow> cn_tasks c' = cn_tasks c \<Longrightarrow> same_fetches c c'"
  by (simp add: same_fetches_def fetches_def)

lemma same_fetches_append:
  "cn_inflight c' = cn_inflight c \<Longrightarrow> cn_tasks c' = cn_tasks c @ [t] \<Longrightarrow> (\<And>rid. \<not> is_fetch rid t)
    \<Longrightarrow> same_fetches c c'"
  by (simp add: same_fetches_def fetches_def)

lemma same_fetches_remove:
  assumes "cn_inflight c' = cn_inflight c" "\<And>rid. \<not> is_fetch rid t"
    and "cn_tasks c' = remove1 t (cn_tasks c) \<or> cn_tasks c' = removeAll t (cn_tasks c)"
  shows "same_fetches c c'"
proof -
  have "filter (is_fetch rid) (remove1 t ts) = filter (is_fetch rid) ts"
    "filter (is_fetch rid) (removeAll t ts) = filter (is_fetch rid) ts" for rid ts
    using assms(2) by (induction ts) auto
  with assms(1,3) show ?thesis by (auto simp: same_fetches_def fetches_def)
qed

lemma loop_send_tasks [simp]:
  "cn_tasks (loop_send f a c) = cn_tasks c" "cn_inflight (loop_send f a c) = cn_inflight c"
  by (simp_all add: loop_send_def after_def drop_stream_def remember_def cancel_stream_def set_obj_def
      split: after_send.split)

lemma drop_stream_tasks [simp]:
  "cn_tasks (drop_stream now rid i c) = cn_tasks c"
  "cn_inflight (drop_stream now rid i c) = cn_inflight c"
  by (simp_all add: drop_stream_def remember_def cancel_stream_def set_obj_def)

lemma task_send_tasks:
  "task_send ws c = (b, c') \<Longrightarrow> cn_tasks c' = cn_tasks c \<and> cn_inflight c' = cn_inflight c"
  by (auto simp: task_send_def split: if_splits)

lemma absorb_tasks [simp]:
  "cn_tasks (absorb now rid msg c) = cn_tasks c" "cn_inflight (absorb now rid msg c) = cn_inflight c"
  by (simp_all add: absorb_def raise_exc_def Let_def split_beta)

lemma recv_binary_tasks:
  "cn_tasks (recv_binary now raw c) = cn_tasks c \<and> cn_inflight (recv_binary now raw c) = cn_inflight c"
  by (auto simp: recv_binary_def recv_ws_binary_def recv_request_data_def raise_exc_def Let_def
      push_channel_def remember_def end_stream_def set_obj_def
      split: sum.splits option.splits verdict.splits)

lemma raise_exc_fetch: "fetch_inv c \<Longrightarrow> fetch_inv (raise_exc e c)"
  by (rule fetch_inv_same [OF _ same_fetches_tasks]) (simp_all add: raise_exc_def)

lemma is_fetch_unique: "is_fetch r t \<Longrightarrow> is_fetch r' t \<Longrightarrow> r = r'"
  by (auto simp: is_fetch_def split: task.splits)

text \<open>The two ways a plain request is scheduled.\<close>

lemma handle_http_req_cases:
  assumes clean: "cleanup_completed now (cn_completed c) = Inr kept"
  obtains (other) t where "\<And>rid. \<not> is_fetch rid t"
      "handle_http_req now rid frame c = c\<lparr>cn_completed := kept, cn_tasks := cn_tasks c @ [t]\<rparr>"
      "rid \<noteq> []" "rid \<in> set (cn_inflight c) \<or> map_of (cn_responses c) rid \<noteq> None
        \<or> (\<exists>f stamp. map_of kept rid = Some (f, stamp) \<and> t = SendTask f)"
  | (fetch) "rid \<notin> set (cn_inflight c) \<or> rid = []"
      "rid \<noteq> [] \<Longrightarrow> map_of (cn_responses c) rid = None \<and> map_of kept rid = None"
      "handle_http_req now rid frame c = c\<lparr>cn_completed := kept,
         cn_inflight := (if rid = [] then cn_inflight c else cn_inflight c @ [rid]),
         cn_tasks := cn_tasks c @ [FetchTask rid frame]\<rparr>"
proof (cases "rid = []")
  case True
  then show thesis using clean by (intro fetch) (simp_all add: handle_http_req_def)
next
  case False
  note unfolded = handle_http_req_def clean Let_def False is_fetch_def
  show thesis
  proof (cases "map_of (cn_responses c) rid")
    case (Some rs)
    then show thesis by (intro other [of "SendTask (rp_begin rs)"]) (simp_all add: unfolded)
  next
    case None
    note unfolded = unfolded None
    show thesis
    proof (cases "map_of kept rid")
      case (Some e)
      then show thesis
        by (cases e) (auto intro!: other [of "SendTask (fst e)"] simp: unfolded)
    next
      case None
      note unfolded = unfolded None
      show thesis
      proof (cases "rid \<in> set (cn_inflight c)")
        case True
        then show thesis by (intro other [of SleepTask]) (simp_all add: unfolded)
      next
        case False
        then show thesis by (intro fetch) (simp_all add: unfolded)
      qed
    qed
  qed
qed

lemma handle_http_req_fetch:
  assumes "fetch_inv c"
  shows "fetch_inv (handle_http_req now rid frame c)"
proof (cases "cleanup_completed now (cn_completed c)")
  case (Inl e)
  then show ?thesis
    using assms by (simp add: handle_http_req_def raise_exc_fetch)
next
  case (Inr kept)
  then show ?thesis
  proof (cases rule: handle_http_req_cases [where rid = rid and frame = frame])
    case (other t)
    then show ?thesis
      by (intro fetch_inv_same [OF assms same_fetches_append [of _ _ t]]) simp_all
  next
    case fetch
    have "fetches rid' (handle_http_req now rid frame c) = fetches rid' c + (if rid' = rid then 1 else 0)" for rid'
      by (simp add: fetch(3) fetches_def is_fetch_def)
    with assms fetch show ?thesis by (auto simp: fetch_inv_def)
  qed
qed

lemma recv_error_fetch:
  assumes "fetch_inv c"
  shows "fetch_inv (recv_error now rid c)"
proof (cases "map_of (cn_requests c) rid = None \<and> rid \<in> set (cn_inflight c)")
  case True
  have "filter (is_fetch rid') (filter (\<lambda>t. \<not> is_fetch rid t) ts)
      = (if rid' = rid then [] else filter (is_fetch rid') ts)" for rid' ts
    by (auto simp: filter_empty_conv dest: is_fetch_unique intro!: filter_cong)
  with True assms show ?thesis by (auto simp: recv_error_def Let_def fetch_inv_def fetches_def)
next
  case False
  then have "same_fetches c (recv_error now rid c)"
    by (intro same_fetches_tasks) (auto simp: recv_error_def Let_def remember_def split: option.splits)
  with assms show ?thesis by (rule fetch_inv_same)
qed

lemma start_stream_fetch: "same_fetches c (start_stream rid cl c)"
  by (rule same_fetches_append [where t = "StreamTask rid (length (cn_objs c))"])
    (simp_all add: start_stream_def Let_def is_fetch_def)

lemma recv_frame_fetch:
  assumes "fetch_inv c"
  shows "fetch_inv (recv_frame L now frame c)"
proof -
  have id: "fetch_inv (with_id frame k c)" if "\<And>rid. fetch_inv (k rid c)" for k
    using that assms
    by (auto simp: with_id_def intro: raise_exc_fetch split: json.splits)
  have same: "fetch_inv d" if "cn_tasks d = cn_tasks c" "cn_inflight d = cn_inflight c" for d
    using that assms by (auto intro: fetch_inv_same same_fetches_tasks)
  have http: "fetch_inv (recv_http_req now frame rid c)" for rid
    using handle_http_req_fetch [OF assms] same [of "loop_send f a c" for f a]
    by (simp add: recv_http_req_def Let_def)
  have beginning: "fetch_inv (recv_http_req_begin frame c)"
    using fetch_inv_same [OF assms start_stream_fetch] raise_exc_fetch [OF assms]
      same [of "loop_send f a c" for f a]
    by (simp add: recv_http_req_begin_def handle_http_req_begin_def Let_def split: option.splits)
  have ending: "fetch_inv (recv_http_req_end now rid c)" for rid
    by (rule same) (simp_all add: recv_http_req_end_def end_stream_def set_obj_def Let_def split: option.splits)
  have window: "fetch_inv (recv_window frame rid c)" for rid
    by (rule same) (simp_all add: recv_window_def raise_exc_def Let_def split: sum.splits option.splits)
  have ws: "fetch_inv (recv_ws_connect now rid c)" "fetch_inv (recv_ws_frame now frame rid c)" for rid
    by (rule same; simp add: recv_ws_connect_def recv_ws_frame_def push_channel_def remember_def
        Let_def split: prod.splits option.splits)+
  have rest: "fetch_inv (recv_ping frame c)" "fetch_inv (recv_pong frame c)" "fetch_inv (recv_hello L frame c)"
    by (rule same; simp add: recv_ping_def recv_pong_def recv_hello_def split: option.splits)+
  show ?thesis
    unfolding recv_frame_def Let_def
    using assms http beginning ending window ws rest recv_error_fetch [OF assms] by (simp add: id)
qed

lemma receive_fetch: "fetch_inv c \<Longrightarrow> fetch_inv (receive L now m c)"
  using fetch_inv_same [OF _ same_fetches_tasks, of c "recv_binary now raw c" for raw]
  by (auto simp: receive_def recv_binary_tasks intro: raise_exc_fetch recv_frame_fetch
      split: message.splits option.splits)

lemma step_loop_fetch:
  assumes "fetch_inv c" "step_loop l c = Some c'"
  shows "fetch_inv c'"
proof -
  have "cn_tasks c' = cn_tasks c \<and> cn_inflight c' = cn_inflight c"
    using assms(2)
    by (cases l; cases "cn_loop c")
      (auto simp: step_loop_def set_obj_def split: if_splits option.splits prod.splits bool.splits
        dest!: task_send_tasks)
  then show ?thesis using assms(1) by (blast intro: fetch_inv_same same_fetches_tasks)
qed

lemma finish_fetch_inv:
  assumes "fetch_inv c" "FetchTask rid frame \<in> set (cn_tasks c)"
  shows "fetch_inv (finish_fetch now rid frame out c)"
proof -
  have out: "filter (is_fetch r) (case out of None \<Rightarrow> [] | Some f \<Rightarrow> [SendTask f]) = []" for r
    by (cases out) (simp_all add: is_fetch_def)
  have "length (filter (is_fetch r) (remove1 (FetchTask rid frame) ts))
      = (if r = rid then length (filter (is_fetch r) ts) - 1 else length (filter (is_fetch r) ts))"
    if "FetchTask rid frame \<in> set ts" for r ts
  proof -
    have "filter (is_fetch r) (remove1 (FetchTask rid frame) ts)
        = remove1 (FetchTask rid frame) (filter (is_fetch r) ts)"
      by (simp add: filter_remove1)
    moreover have "is_fetch r (FetchTask rid frame) \<longleftrightarrow> r = rid" by (auto simp: is_fetch_def)
    ultimately show ?thesis using that by (auto simp: length_remove1)
  qed
  from this [OF assms(2)] have "fetches r (finish_fetch now rid frame out c)
      = (if r = rid then fetches r c - 1 else fetches r c)" for r
    using out by (simp add: finish_fetch_def fetches_def)
  with assms(1) show ?thesis by (auto simp: fetch_inv_def finish_fetch_def)
qed

lemma step_task_fetch:
  assumes "fetch_inv c" "step_task l c = Some c'"
  shows "fetch_inv c'"
proof -
  have keep: "fetch_inv d" if "cn_tasks d = cn_tasks c" "cn_inflight d = cn_inflight c" for d
    using fetch_inv_same [OF assms(1) same_fetches_tasks] that by blast
  show ?thesis
  proof (cases l)
    case (FinishFetch now rid frame out)
    with assms show ?thesis by (auto simp: step_task_def intro: finish_fetch_inv split: if_splits)
  next
    case (FinishStream now rid i failure)
    with assms(2) obtain ws b d where d: "task_send ws c = (b, d)"
      and c': "c' = (if b then finish_stream now rid i d else d)"
      by (auto simp: step_task_def split: if_splits prod.splits bool.splits)
    have "same_fetches c c'" if b
      using task_send_tasks [OF d] that c'
      by (intro same_fetches_remove [where t = "StreamTask rid i"])
        (simp_all add: finish_stream_def is_fetch_def)
    then show ?thesis using keep [of c'] task_send_tasks [OF d] c' fetch_inv_same [OF assms(1)] by metis
  next
    case (RunSend f)
    with assms(2) obtain b d where d: "task_send [Text f] c = (b, d)"
      and c': "c' = (if b then d\<lparr>cn_tasks := remove1 (SendTask f) (cn_tasks c)\<rparr> else d)"
      by (auto simp: step_task_def split: if_splits prod.splits bool.splits)
    have "same_fetches c c'" if b
      using task_send_tasks [OF d] that c'
      by (intro same_fetches_remove [where t = "SendTask f"]) (simp_all add: is_fetch_def)
    then show ?thesis using keep [of c'] task_send_tasks [OF d] c' fetch_inv_same [OF assms(1)] by metis
  next
    case RunSleep
    with assms(2) have "same_fetches c c'"
      by (intro same_fetches_remove [where t = SleepTask])
        (auto simp: step_task_def is_fetch_def split: if_splits)
    with assms(1) show ?thesis by (rule fetch_inv_same)
  next
    case (Heartbeat ping stamp)
    with assms(2) show ?thesis by (intro keep) (auto simp: step_task_def task_send_def)
  qed (use assms(2) in \<open>auto simp: step_task_def set_obj_def intro!: keep dest!: task_send_tasks
        split: if_splits option.splits prod.splits bool.splits\<close>)
qed

lemma conn_step_fetch:
  assumes "fetch_inv c" "conn_step L l c = Some c'"
  shows "fetch_inv c'"
proof -
  have other: "fetch_inv c'"
    if "conn_step L l c = step_loop l c \<or> conn_step L l c = step_task l c"
    using that assms step_loop_fetch step_task_fetch by metis
  have keep: "fetch_inv d" if "cn_tasks d = cn_tasks c" "cn_inflight d = cn_inflight c" for d
    using fetch_inv_same [OF assms(1) same_fetches_tasks] that by blast
  show ?thesis
  proof (cases l)
    case (Receive now m)
    with assms show ?thesis by (auto simp: conn_step_def intro: receive_fetch split: if_splits)
  next
    case (LeaveLoop now)
    with assms(2) show ?thesis
      by (intro keep) (auto simp: conn_step_def leave_loop_def split: loop_state.splits if_splits)
  next
    case Reconnect
    with assms(2) show ?thesis by (intro keep) (auto simp: conn_step_def split: if_splits)
  qed (rule other, simp add: conn_step_def)+
qed



section \<open>Where the loop can stop for ever\<close>

text \<open>
  \<open>proxy_loop\<close> has to return before \<open>_connect_loop\<close> can connect again and set \<open>ws_ready\<close>; a queue
  is emptied only by its consumer; credits come only through the receive loop.
\<close>

definition loop_stuck :: "conn \<Rightarrow> bool" where
  "loop_stuck c =
     (case cn_loop c of
        Wedged f a \<Rightarrow> \<not> cn_ws_ready c
      | Putting i \<Rightarrow> i < length (cn_objs c) \<and> queue_full (cn_objs c ! i)
          \<and> rq_consumer (cn_objs c ! i) = Dead
      | Replaying rid k \<Rightarrow>
          (case map_of (cn_responses c) rid of
             None \<Rightarrow> False | Some rs \<Rightarrow> k < length (rp_unacked rs) \<and> rp_credits rs = 0)
      | _ \<Rightarrow> False)"

text \<open>What a move of a task leaves alone, as far as the receive loop is concerned.\<close>

definition dead_kept :: "stream list \<Rightarrow> stream list \<Rightarrow> bool" where
  "dead_kept objs objs' \<longleftrightarrow>
     length objs' = length objs
     \<and> (\<forall>i < length objs. rq_consumer (objs ! i) = Dead \<longrightarrow>
          rq_consumer (objs' ! i) = Dead \<and> rq_queue (objs' ! i) = rq_queue (objs ! i)
          \<and> rq_window (objs' ! i) = rq_window (objs ! i))"

lemma dead_kept_refl [simp]: "dead_kept objs objs"
  by (simp add: dead_kept_def)

lemma dead_kept_update:
  assumes "rq_consumer (objs ! i) = Dead \<Longrightarrow>
    rq_consumer s = Dead \<and> rq_queue s = rq_queue (objs ! i) \<and> rq_window s = rq_window (objs ! i)"
  shows "dead_kept objs (objs[i := s])"
proof -
  have "rq_consumer (objs[i := s] ! j) = Dead \<and> rq_queue (objs[i := s] ! j) = rq_queue (objs ! j)
      \<and> rq_window (objs[i := s] ! j) = rq_window (objs ! j)"
    if "j < length objs" "rq_consumer (objs ! j) = Dead" for j
    using assms that by (cases "j = i") auto
  then show ?thesis by (simp add: dead_kept_def)
qed

lemma step_task_objs:
  assumes "step_task l c = Some c'"
  shows "dead_kept (cn_objs c) (cn_objs c')"
proof (cases l)
  case (TakeChunk i)
  with assms show ?thesis
    by (auto simp: step_task_def set_obj_def take_chunk_def split: if_splits consumer.splits
        list.splits option.splits intro!: dead_kept_update)
next
  case (ReturnCredit rid i)
  with assms show ?thesis
    by (auto simp: step_task_def set_obj_def return_credit_def split: if_splits option.splits
        prod.splits bool.splits dest!: task_send_keeps intro!: dead_kept_update)
next
  case (FinishStream now rid i failure)
  with assms show ?thesis
    by (auto simp: step_task_def finish_stream_def split: if_splits option.splits
        prod.splits bool.splits dest!: task_send_keeps intro!: dead_kept_update)
next
  case (SenderTurn rid)
  with assms show ?thesis
    by (auto simp: step_task_def split: option.splits prod.splits bool.splits dest!: task_send_keeps)
next
  case (RunSend f)
  with assms show ?thesis
    by (auto simp: step_task_def split: if_splits prod.splits bool.splits dest!: task_send_keeps)
next
  case (ChannelSend rid ws)
  with assms show ?thesis
    by (auto simp: step_task_def split: if_splits prod.splits bool.splits dest!: task_send_keeps)
next
  case (ChannelEnd now rid ws)
  with assms show ?thesis
    by (auto simp: step_task_def split: if_splits prod.splits bool.splits dest!: task_send_keeps)
qed (use assms in \<open>auto simp: step_task_def finish_fetch_def split: if_splits\<close>)

lemma step_task_loop:
  assumes "step_task l c = Some c'"
  shows "cn_loop c' = cn_loop c \<and> (\<not> cn_ws_ready c \<longrightarrow> \<not> cn_ws_ready c')"
proof (cases l)
  case (Heartbeat ping stamp)
  with assms show ?thesis by (auto simp: step_task_def task_send_def)
qed (use assms in \<open>auto simp: step_task_def finish_fetch_def finish_stream_def set_obj_def
      split: if_splits option.splits prod.splits bool.splits dest: task_send_keeps task_send_ready\<close>)

lemma sender_turn_starved:
  assumes "sender_turn False rid rs = Some (rs', ws)" "rp_credits rs = 0"
  shows "rp_unacked rs' = rp_unacked rs \<and> rp_credits rs' = 0"
  using assms by (auto simp: sender_turn_def split: sender.splits list.splits option.splits if_splits)

text \<open>A replay without credits keeps what it waits for.\<close>

definition starved :: "string \<Rightarrow> nat \<Rightarrow> conn \<Rightarrow> bool" where
  "starved rid k c \<longleftrightarrow>
     (case map_of (cn_responses c) rid of
        None \<Rightarrow> False | Some rs \<Rightarrow> k < length (rp_unacked rs) \<and> rp_credits rs = 0)"

lemma step_task_starved:
  assumes "step_task l c = Some c'" "cn_loop c = Replaying rid k" "starved rid k c"
  shows "starved rid k c'"
proof (cases l)
  case (SenderTurn rid')
  from assms(1) SenderTurn obtain rs rs' ws b d where
    rs: "map_of (cn_responses c) rid' = Some rs"
      "sender_turn (\<not> replaying rid' c) rid' rs = Some (rs', ws)" "task_send ws c = (b, d)"
    and c': "c' = (if b then d\<lparr>cn_responses := AList.update rid' rs' (cn_responses c)\<rparr> else d)"
    by (auto simp: step_task_def split: option.splits prod.splits bool.splits)
  note kept = task_send_keeps [OF rs(3)]
  show ?thesis
  proof (cases "rid' = rid")
    case True
    with assms(2) have "\<not> \<not> replaying rid' c" by (simp add: replaying_def)
    with rs(1,2) True assms(3) have "rp_unacked rs' = rp_unacked rs \<and> rp_credits rs' = 0"
      by (intro sender_turn_starved) (auto simp: starved_def)
    with rs(1) True assms(3) kept c' show ?thesis by (simp add: starved_def update_conv)
  next
    case False
    with assms(3) kept c' show ?thesis by (simp add: starved_def update_conv)
  qed
next
  case (Respond rid' bf chunks failure)
  with assms show ?thesis
    by (auto simp: step_task_def starved_def update_conv split: if_splits option.splits)
qed (use assms in \<open>auto simp: step_task_def finish_fetch_def finish_stream_def set_obj_def starved_def
      split: if_splits option.splits prod.splits bool.splits dest: task_send_keeps\<close>)

lemma loop_stuck_step:
  assumes "loop_stuck c" "conn_step L l c = Some c'"
  shows "loop_stuck c' \<and> cn_loop c' = cn_loop c"
proof -
  have "step_loop l c = None"
    using assms(1)
    by (cases l; cases "cn_loop c")
      (auto simp: step_loop_def loop_stuck_def replay_turn_def split: option.splits)
  then have step: "step_task l c = Some c'"
    using assms by (cases l) (auto simp: conn_step_def loop_stuck_def split: loop_state.splits)
  note loop = step_task_loop [OF step] and objs = step_task_objs [OF step]
  show ?thesis
  proof (cases "cn_loop c")
    case (Putting i)
    with assms(1) loop objs show ?thesis by (auto simp: loop_stuck_def dead_kept_def queue_full_def)
  next
    case (Replaying rid k)
    with assms(1) step_task_starved [OF step Replaying] loop show ?thesis
      by (simp add: loop_stuck_def starved_def)
  qed (use assms(1) loop in \<open>simp_all add: loop_stuck_def\<close>)
qed

lemma loop_stuck_run:
  assumes "loop_stuck c" "conn_run L ls c = Some c'"
  shows "loop_stuck c' \<and> cn_loop c' = cn_loop c"
  by (rule conn_run_invariant [where P = "\<lambda>d. loop_stuck d \<and> cn_loop d = cn_loop c", OF _ _ assms(2)])
     (use assms(1) in \<open>auto dest: loop_stuck_step\<close>)

lemma never_again:
  "loop_stuck c \<Longrightarrow> \<not> (\<exists>ls' c'. conn_run L ls' c = Some c' \<and> cn_loop c' \<in> {Receiving, Ended})"
proof
  assume stuck: "loop_stuck c"
    and "\<exists>ls' c'. conn_run L ls' c = Some c' \<and> cn_loop c' \<in> {Receiving, Ended}"
  then obtain ls' c' where "conn_run L ls' c = Some c'" "cn_loop c' \<in> {Receiving, Ended}" by blast
  with loop_stuck_run [OF stuck this(1)] show False by (auto simp: loop_stuck_def)
qed

text \<open>
  A send on a closed connection stops the tunnel. Whatever the limits, the loop can reach a state
  in which it waits for the connection to become ready, after a ping read from a connection that
  has just been closed; no continuation ever takes it back to receiving or lets it return, so the
  client never reconnects.
\<close>

lemma closed_send_wedges:
  "\<exists>ls c. conn_run L ls (initial_conn L) = Some c \<and> cn_loop c = Wedged (PongFrame (JStr []) (JInt 0)) Continue
     \<and> \<not> (\<exists>ls' c'. conn_run L ls' c = Some c' \<and> cn_loop c' \<in> {Receiving, Ended})"
proof -
  define ping where "ping = TextMessage (Some (JObj [(''type'', JStr ''ping'')]))"
  define c where "c = (initial_conn L)\<lparr>cn_open := False, cn_ws_ready := False,
      cn_loop := Wedged (PongFrame (JStr []) (JInt 0)) Continue\<rparr>"
  have "conn_run L [ClosePeer, Receive 0 ping] (initial_conn L) = Some c"
    by (simp add: conn_step_def step_task_def initial_conn_def receive_def ping_def recv_frame_def
        recv_ping_def loop_send_def jget_or_def c_def)
  moreover have "loop_stuck c" by (simp add: loop_stuck_def c_def)
  then have "\<not> (\<exists>ls' c'. conn_run L ls' c = Some c' \<and> cn_loop c' \<in> {Receiving, Ended})"
    by (rule never_again)
  moreover have "cn_loop c = Wedged (PongFrame (JStr []) (JInt 0)) Continue" by (simp add: c_def)
  ultimately show ?thesis by blast
qed

text \<open>A connection on which version 2 has been negotiated, and a streamed upload on it.\<close>

definition sample_conn :: "int \<Rightarrow> conn" where
  "sample_conn window =
     (initial_conn (sample_limits 16 4))\<lparr>cn_neg := (sample_negotiated 4096)\<lparr>ng_stream_window := window\<rparr>\<rparr>"

definition sample_hello :: "int \<Rightarrow> message" where
  "sample_hello window =
     TextMessage (Some (JObj [(''type'', JStr ''hello''), (''protocol_version'', JInt 2),
       (''max_stream_chunk'', JInt 1024), (''max_inflight'', JInt 16),
       (''stream_window_frames'', JInt window), (''resume'', JBool True)]))"

lemma hello_reaches_sample:
  "1 \<le> w \<Longrightarrow> w \<le> 4 \<Longrightarrow>
     conn_step (sample_limits 16 4) (Receive t (sample_hello w)) (initial_conn (sample_limits 16 4))
       = Some (sample_conn w)"
  by (simp add: conn_step_def initial_conn_def receive_def sample_hello_def recv_frame_def
      recv_hello_def handle_hello_def initial_negotiated_def sample_limits_def limit_defs
      jget_or_def sample_conn_def sample_negotiated_def)

definition sample_begin :: message where
  "sample_begin = TextMessage (Some (JObj [(''type'', JStr ''http_req_begin''),
     (''id'', JStr (uuid_str 0))]))"

definition sample_end :: message where
  "sample_end = TextMessage (Some (JObj [(''type'', JStr ''http_req_end''),
     (''id'', JStr (uuid_str 0))]))"

definition sample_bytes :: "byte list" where
  "sample_bytes = [0x59, 0x44, 1, 1, 16, 0, 0, 0, 0, 0, 0, 0, 0, 0, 0, 0, 0, 0, 0, 0, 0,
     2, 0, 0, 0, 9, 0, 0, 0, 0, 0, 0, 0, 0, 7]"

definition sample_data :: message where
  "sample_data = BytesMessage sample_bytes"

lemma sample_data_decode:
  "BinaryEnvelope_decode sample_bytes 1024 =
   Inr \<lparr>env_request_id = uuid_str 0, env_kind = HTTP_REQUEST_DATA, env_payload = [7],
        env_end_of_body = False, env_offset = Some 0\<rparr>"
  by (simp add: sample_bytes_def BinaryEnvelope_decode_def BINARY_MAGIC_def HEADER_SIZE_def
      UUID_BYTES_def flag_defs BINARY_ENVELOPE_VERSION_def kind_of_code_def uuid_of_bytes_def
      bytes_value_def be_value_def)

lemma uuid_zero: "uuid_parse (uuid_str 0) = Some 0"
  by (rule uuid_parse_str) (simp add: uuid_limit_def)

lemmas message_simps = conn_step_def receive_def recv_frame_def with_id_def jget_or_def
  sample_begin_def sample_end_def sample_data_def

definition uploading :: "stream \<Rightarrow> conn" where
  "uploading s =
     (sample_conn 1)\<lparr>cn_objs := [s], cn_requests := [(uuid_str 0, 0)],
        cn_tasks := [StreamTask (uuid_str 0) 0], cn_sent := [Text (WindowFrame (uuid_str 0) 1 0)]\<rparr>"

lemma begin_reaches_uploading:
  "conn_step L (Receive t sample_begin) (sample_conn 1) = Some (uploading (new_stream 1 None))"
  by (simp add: message_simps recv_http_req_begin_def handle_http_req_begin_def start_stream_def
      loop_send_def after_def uuid_zero sample_conn_def sample_negotiated_def initial_conn_def
      uploading_def PROTOCOL_VERSION_def Let_def)

lemma data_reaches_queued:
  "conn_step L (Receive t sample_data) (uploading (new_stream 1 None))
     = Some (uploading ((new_stream 1 None)\<lparr>rq_queue := [Some [7]], rq_received := 1\<rparr>))"
proof -
  have "ng_stream_chunk (cn_neg (uploading s)) = 1024" for s
    by (simp add: uploading_def sample_conn_def sample_negotiated_def)
  then have decode: "BinaryEnvelope_decode sample_bytes (ng_stream_chunk (cn_neg (uploading s))) =
      Inr \<lparr>env_request_id = uuid_str 0, env_kind = HTTP_REQUEST_DATA, env_payload = [7],
        env_end_of_body = False, env_offset = Some 0\<rparr>" for s
    by (simp only: sample_data_decode)
  show ?thesis
    by (simp add: conn_step_def receive_def sample_data_def recv_binary_def decode)
       (simp add: recv_request_data_def uploading_def accept_chunk_def queue_full_def new_stream_def
          sample_conn_def sample_negotiated_def initial_conn_def set_obj_def Let_def)
qed

text \<open>
  An upload that fails at its end stops the tunnel. With a window of one frame: the sandbox sends
  one chunk and the end of the body while the upstream request has not consumed anything; the loop
  waits for room in the queue; then the upstream request fails. The failed stream is removed, its
  queue is never emptied, and the loop never receives or returns again.
\<close>

lemma failed_upload_stops_tunnel:
  "\<exists>c. conn_run (sample_limits 16 4)
         [Receive 0 (sample_hello 1), Receive 1 sample_begin, Receive 2 sample_data,
          Receive 3 sample_end, FinishStream 4 (uuid_str 0) 0 (Some ''connect failed'')]
         (initial_conn (sample_limits 16 4)) = Some c
     \<and> cn_requests c = [] \<and> cn_tasks c = []
     \<and> \<not> (\<exists>ls c'. conn_run (sample_limits 16 4) ls c = Some c' \<and> cn_loop c' \<in> {Receiving, Ended})"
proof -
  let ?s = "(new_stream 1 None)\<lparr>rq_queue := [Some [7]], rq_received := 1\<rparr>"
  let ?rid = "uuid_str 0"
  define d where "d = (uploading (?s\<lparr>rq_ended := True\<rparr>))\<lparr>cn_loop := Putting 0\<rparr>"
  have ending: "conn_step (sample_limits 16 4) (Receive 3 sample_end) (uploading ?s) = Some d"
    by (simp add: message_simps recv_http_req_end_def uploading_def end_stream_def set_obj_def
        new_stream_def sample_conn_def initial_conn_def d_def)
  define c where "c = finish_stream 4 ?rid 0
      (d\<lparr>cn_sent := cn_sent d @ [Text (ErrorFrame ?rid ''connect failed'')]\<rparr>)"
  have "conn_step (sample_limits 16 4) (FinishStream 4 ?rid 0 (Some ''connect failed'')) d = Some c"
    by (simp add: conn_step_def step_task_def task_send_def c_def d_def uploading_def
        sample_conn_def initial_conn_def)
  with ending have run: "conn_run (sample_limits 16 4)
         [Receive 0 (sample_hello 1), Receive 1 sample_begin, Receive 2 sample_data,
          Receive 3 sample_end, FinishStream 4 ?rid 0 (Some ''connect failed'')]
         (initial_conn (sample_limits 16 4)) = Some c"
    by (simp add: hello_reaches_sample begin_reaches_uploading data_reaches_queued)
  have "loop_stuck c"
    by (simp add: loop_stuck_def c_def finish_stream_def d_def uploading_def queue_full_def
        new_stream_def)
  from never_again [OF this] have
    "\<not> (\<exists>ls c'. conn_run (sample_limits 16 4) ls c = Some c' \<and> cn_loop c' \<in> {Receiving, Ended})" .
  moreover have "cn_requests c = []" "cn_tasks c = []"
    by (simp_all add: c_def finish_stream_def drop_stream_def remember_def cancel_stream_def
        set_obj_def d_def uploading_def)
  ultimately show ?thesis using run by blast
qed

text \<open>
  A stream id that is not in canonical form ends the connection. \<open>handle_http_req_begin\<close> accepts
  every spelling of a UUID and grants a window for it, but a data frame carries the UUID itself,
  which decodes to the canonical spelling: the first chunk of a stream begun as 32 hexadecimal
  digits is refused as data for an unknown stream, and the loop ends with an error.
\<close>

theorem undashed_stream_id_refused:
  "\<exists>c. conn_run (sample_limits 16 4)
         [Receive 0 (sample_hello 1),
          Receive 1 (TextMessage (Some (JObj [(''type'', JStr ''http_req_begin''),
            (''id'', JStr (uuid_hex 0))]))),
          Receive 2 sample_data]
         (initial_conn (sample_limits 16 4)) = Some c
     \<and> cn_requests c = [(uuid_hex 0, 0)]
     \<and> cn_sent c = [Text (WindowFrame (uuid_hex 0) 1 0)]
     \<and> cn_loop c = Raised (ProtocolError ''request data for unknown stream'')"
proof -
  have hex: "uuid_parse (uuid_hex 0) = Some 0" by (rule uuid_parse_hex) (simp add: uuid_limit_def)
  have "length (uuid_hex 0) \<noteq> length (uuid_str 0)" by simp
  then have other: "uuid_hex 0 \<noteq> uuid_str 0" by metis
  define c where "c = (sample_conn 1)\<lparr>cn_objs := [new_stream 1 None], cn_requests := [(uuid_hex 0, 0)],
        cn_tasks := [StreamTask (uuid_hex 0) 0], cn_sent := [Text (WindowFrame (uuid_hex 0) 1 0)]\<rparr>"
  have "conn_step (sample_limits 16 4) (Receive 1 (TextMessage (Some (JObj
      [(''type'', JStr ''http_req_begin''), (''id'', JStr (uuid_hex 0))])))) (sample_conn 1) = Some c"
    by (simp add: message_simps recv_http_req_begin_def handle_http_req_begin_def start_stream_def
        loop_send_def after_def hex sample_conn_def sample_negotiated_def initial_conn_def
        c_def PROTOCOL_VERSION_def Let_def)
  moreover have "ng_stream_chunk (cn_neg c) = 1024" "cn_loop c = Receiving" "cn_terminated c = []"
    by (simp_all add: c_def sample_conn_def sample_negotiated_def initial_conn_def)
  then have "conn_step (sample_limits 16 4) (Receive 2 sample_data) c
      = Some (raise_exc (ProtocolError ''request data for unknown stream'') c)"
    using other
    by (simp add: conn_step_def receive_def sample_data_def recv_binary_def sample_data_decode
        recv_request_data_def absorb_def is_terminated_def c_def sample_conn_def initial_conn_def)
  ultimately show ?thesis
    by (simp add: hello_reaches_sample) (simp add: raise_exc_def c_def)
qed

text \<open>
  A response of two chunks under a window of two, sent and not yet acknowledged when the connection
  is lost; after the reconnect the peer grants one credit.
\<close>

definition sample_fetch :: message where
  "sample_fetch = TextMessage (Some (JObj [(''type'', JStr ''http_req''), (''id'', JStr ''a'')]))"

definition sample_window :: "int \<Rightarrow> message" where
  "sample_window n = TextMessage (Some (JObj [(''type'', JStr ''window''), (''id'', JStr ''a''),
     (''credits'', JInt n), (''ack_offset'', JInt 0)]))"

definition fetch_frame :: jobj where
  "fetch_frame = [(''type'', JStr ''http_req''), (''id'', JStr ''a'')]"

definition responding :: "response_state \<Rightarrow> wire list \<Rightarrow> conn" where
  "responding rs sent =
     (sample_conn 2)\<lparr>cn_responses := [(''a'', rs)], cn_inflight := [''a''],
        cn_tasks := [FetchTask ''a'' fetch_frame], cn_sent := sent\<rparr>"

lemma fetch_reaches_responding:
  "conn_run L [Receive t sample_fetch, Respond ''a'' bf chunks None] (sample_conn 2)
     = Some (responding (begin_response 2 bf chunks None) [])"
  by (simp add: message_simps sample_fetch_def recv_http_req_def handle_http_req_def
      cleanup_completed_def unexpired_def cached_bytes_def evict_completed.simps step_task_def
      is_fetch_def responding_def fetch_frame_def sample_conn_def sample_negotiated_def
      initial_conn_def COMPLETED_FRAME_LIMIT_def)

lemma responding_turn:
  assumes "sender_turn True ''a'' rs = Some (rs', ws)"
  shows "conn_step L (SenderTurn ''a'') (responding rs sent) = Some (responding rs' (sent @ ws))"
  using assms
  by (simp add: conn_step_def step_task_def responding_def replaying_def task_send_def
      sample_conn_def initial_conn_def)

lemma responding_window:
  "rp_ready rs \<Longrightarrow> 0 \<le> n \<Longrightarrow>
     conn_step L (Receive t (sample_window n)) (responding rs sent)
       = Some (responding (add_credits 2 n (acknowledge (Some 0) rs)) sent)"
  by (simp add: message_simps sample_window_def recv_window_def parse_window_def responding_def
      sample_conn_def sample_negotiated_def initial_conn_def acknowledge_def add_credits_def Let_def)

text \<open>
  A replay without enough credits stops the tunnel. Two chunks of a response are sent and not
  acknowledged when the connection drops; after the reconnect the peer grants one credit. The loop
  sends one chunk again and waits for a second credit, which only the loop itself could receive.
\<close>

theorem starved_replay_stops_tunnel:
  "\<exists>ls c. conn_run (sample_limits 16 4) ls (initial_conn (sample_limits 16 4)) = Some c
     \<and> cn_loop c = Replaying ''a'' 1
     \<and> \<not> (\<exists>ls' c'. conn_run (sample_limits 16 4) ls' c = Some c' \<and> cn_loop c' \<in> {Receiving, Ended})"
proof -
  let ?L = "sample_limits 16 4"
  define rs where "rs = (begin_response 2 (HttpRespEnd ''a'') [] None)
    \<lparr>rp_unacked := [(0, [1]), (1, [2])], rp_next_offset := 2, rp_sender := WaitReady\<rparr>"
  define sent where "sent = [Text (HttpRespEnd ''a''), Binary (response_data ''a'' (0, [1])),
    Binary (response_data ''a'' (1, [2]))]"
  have hello: "conn_run ?L [Receive 0 (sample_hello 2)] (initial_conn ?L) = Some (sample_conn 2)"
    by (simp add: hello_reaches_sample)
  have sending: "conn_run ?L [SenderTurn ''a'', Receive 2 (sample_window 2), SenderTurn ''a'',
      SenderTurn ''a'', SenderTurn ''a'', SenderTurn ''a'', SenderTurn ''a'', SenderTurn ''a'']
      (responding (begin_response 2 (HttpRespEnd ''a'') [[1], [2]] None) [])
    = Some (responding rs sent)"
    by (simp add: responding_turn sender_turn_def begin_response_def responding_window
        add_credits_def acknowledge_def rs_def sent_def response_data_def numeral_2_eq_2)
  have up: "\<exists>ls. conn_run ?L ls (initial_conn ?L) = Some (responding rs sent)"
    using conn_run_trans [OF conn_run_trans [OF hello fetch_reaches_responding] sending] by blast
  define c where "c = (leave_loop 0 ((responding rs sent)\<lparr>cn_open := False\<rparr>))
    \<lparr>cn_neg := initial_negotiated ?L, cn_open := True, cn_ws_ready := True,
     cn_pong_received := False, cn_loop := Replaying ''a'' 1,
     cn_responses := [(''a'', rs\<lparr>rp_ready := False\<rparr>)],
     cn_sent := sent @ [Binary (response_data ''a'' (0, [1]))]\<rparr>"
  have down: "conn_run ?L [ClosePeer, LeaveLoop 0, Reconnect, Receive 3 (sample_window 1), ReplayTurn]
      (responding rs sent) = Some c"
    by (simp add: message_simps step_task_def step_loop_def leave_loop_def responding_def
        sample_window_def recv_window_def parse_window_def acknowledge_def add_credits_def
        replay_turn_def task_send_def rs_def begin_response_def c_def sample_conn_def
        initial_conn_def initial_negotiated_def sample_limits_def)
  have "loop_stuck c" by (simp add: loop_stuck_def c_def rs_def begin_response_def)
  from never_again [OF this] have
    "\<not> (\<exists>ls' c'. conn_run ?L ls' c = Some c' \<and> cn_loop c' \<in> {Receiving, Ended})" .
  moreover have "cn_loop c = Replaying ''a'' 1" by (simp add: c_def)
  moreover from up obtain ls where
    "conn_run ?L ls (initial_conn ?L) = Some (responding rs sent)" by blast
  note conn_run_trans [OF this down]
  ultimately show ?thesis by blast
qed

text \<open>
  C13: The receive loop can stop for good, in two ways. Whatever the limits, after a ping that is read from a
  connection that has just been closed, the loop waits for the connection to become ready; no
  continuation takes it back to receiving or lets it return, so the client never reconnects. And with a
  window of one frame: the sandbox sends one chunk and the end of the body while the upstream request
  has not consumed anything, the loop waits for room in the queue, and then the upstream request fails;
  the failed stream is removed, its queue is never emptied, and the loop never receives or returns again.
\<close>

theorem loop_can_stop_for_good:
  "(\<exists>ls c. conn_run L ls (initial_conn L) = Some c \<and> cn_loop c = Wedged (PongFrame (JStr []) (JInt 0)) Continue
      \<and> \<not> (\<exists>ls' c'. conn_run L ls' c = Some c' \<and> cn_loop c' \<in> {Receiving, Ended}))
   \<and> (\<exists>c. conn_run (sample_limits 16 4)
         [Receive 0 (sample_hello 1), Receive 1 sample_begin, Receive 2 sample_data,
          Receive 3 sample_end, FinishStream 4 (uuid_str 0) 0 (Some ''connect failed'')]
         (initial_conn (sample_limits 16 4)) = Some c
      \<and> cn_requests c = [] \<and> cn_tasks c = []
      \<and> \<not> (\<exists>ls c'. conn_run (sample_limits 16 4) ls c = Some c' \<and> cn_loop c' \<in> {Receiving, Ended}))"
  using closed_send_wedges failed_upload_stops_tunnel by (rule conjI)

end
