(* ===== verification/Urls.thy ===== *)
theory Urls
  imports Bytes
begin

text \<open>
  The part of \<open>urllib.parse\<close> the SDK uses on its own: percent-quoting, \<open>urlsplit\<close>, \<open>urlunsplit\<close> and
  \<open>urljoin\<close>, on Latin-1 text. \<open>ip_ok\<close> stands for the check of a bracketed host (an IP literal of
  the \<open>ipaddress\<close> module), which raises \<open>ValueError\<close> where it fails.
\<close>

section \<open>Quoting\<close>

text \<open>\<open>quote(s, safe="")\<close>; \<open>quote_plus\<close> differs in the space.\<close>

definition url_safe :: "nat \<Rightarrow> bool" where
  "url_safe n \<longleftrightarrow>
     (48 \<le> n \<and> n \<le> 57) \<or> (65 \<le> n \<and> n \<le> 90) \<or> (97 \<le> n \<and> n \<le> 122) \<or> n \<in> {45, 46, 95, 126}"

definition upper_hex :: "nat \<Rightarrow> char" where
  "upper_hex d = ''0123456789ABCDEF'' ! d"

definition percent_byte :: "byte \<Rightarrow> string" where
  "percent_byte b =
     (let n = unat b in
      if url_safe n then [char_of n] else [CHR ''%'', upper_hex (n div 16), upper_hex (n mod 16)])"

definition url_quote :: "string \<Rightarrow> string" where
  "url_quote s = concat (map percent_byte (utf8_encode s))"

definition quote_plus_byte :: "byte \<Rightarrow> string" where
  "quote_plus_byte b = (if unat b = 32 then ''+'' else percent_byte b)"

definition quote_plus :: "string \<Rightarrow> string" where
  "quote_plus s = concat (map quote_plus_byte (utf8_encode s))"

definition urlencode :: "(string \<times> string) list \<Rightarrow> string" where
  "urlencode params = join_with ''&'' (map (\<lambda>(k, v). quote_plus k @ ''='' @ quote_plus v) params)"

section \<open>Splitting\<close>

record url_parts =
  ur_scheme :: string
  ur_netloc :: string
  ur_path :: string
  ur_params :: string
  ur_query :: string
  ur_fragment :: string

definition c0_or_space :: "char \<Rightarrow> bool" where
  "c0_or_space c \<longleftrightarrow> (of_char c :: nat) \<le> 32"

definition line_breaking :: "char \<Rightarrow> bool" where
  "line_breaking c \<longleftrightarrow> (of_char c :: nat) \<in> {9, 10, 13}"

definition url_clean :: "string \<Rightarrow> string" where
  "url_clean url = filter (\<lambda>c. \<not> line_breaking c) (lstrip_by c0_or_space url)"

definition is_letter :: "char \<Rightarrow> bool" where
  "is_letter c \<longleftrightarrow> (let n = of_char c :: nat in (65 \<le> n \<and> n \<le> 90) \<or> (97 \<le> n \<and> n \<le> 122))"

definition scheme_char :: "char \<Rightarrow> bool" where
  "scheme_char c \<longleftrightarrow> is_letter c \<or> (let n = of_char c :: nat in (48 \<le> n \<and> n \<le> 57) \<or> n \<in> {43, 45, 46})"

text \<open>What precedes the first \<open>d\<close>, and what follows it.\<close>

definition before :: "char \<Rightarrow> string \<Rightarrow> string" where
  "before d s = takeWhile (\<lambda>c. c \<noteq> d) s"

definition after :: "char \<Rightarrow> string \<Rightarrow> string" where
  "after d s = tl (dropWhile (\<lambda>c. c \<noteq> d) s)"

definition split_scheme :: "string \<Rightarrow> string \<Rightarrow> string \<times> string" where
  "split_scheme dflt url =
     (if CHR '':'' \<in> set url \<and> before (CHR '':'') url \<noteq> [] \<and> is_letter (hd url)
         \<and> list_all scheme_char (before (CHR '':'') url)
      then (py_lower (before (CHR '':'') url), after (CHR '':'') url)
      else (dflt, url))"

definition netloc_char :: "char \<Rightarrow> bool" where
  "netloc_char c \<longleftrightarrow> c \<notin> {CHR ''/'', CHR ''?'', CHR ''#''}"

definition split_netloc :: "string \<Rightarrow> string \<times> string" where
  "split_netloc url =
     (if starts_with ''//'' url
      then (takeWhile netloc_char (drop 2 url), dropWhile netloc_char (drop 2 url))
      else ([], url))"

definition brackets_ok :: "(string \<Rightarrow> bool) \<Rightarrow> string \<Rightarrow> bool" where
  "brackets_ok ip_ok netloc \<longleftrightarrow>
     (if CHR ''['' \<in> set netloc \<and> CHR '']'' \<in> set netloc
      then ip_ok (before (CHR '']'') (after (CHR ''['') netloc))
      else CHR ''['' \<notin> set netloc \<and> CHR '']'' \<notin> set netloc)"

definition urlsplit :: "(string \<Rightarrow> bool) \<Rightarrow> string \<Rightarrow> string \<Rightarrow> url_parts result" where
  "urlsplit ip_ok url dflt =
     (let (scheme, url) = split_scheme dflt (url_clean url);
          (netloc, url) = split_netloc url;
          fragment = after (CHR ''#'') url;
          url = before (CHR ''#'') url
      in if \<not> brackets_ok ip_ok netloc then Inl (ValueError ''Invalid IPv6 URL'')
         else Inr \<lparr>ur_scheme = scheme, ur_netloc = netloc, ur_path = before (CHR ''?'') url,
                   ur_params = [], ur_query = after (CHR ''?'') url, ur_fragment = fragment\<rparr>)"

text \<open>\<open>urlparse\<close>: for most schemes the last segment of the path is split at its first semicolon.\<close>

definition USES_RELATIVE :: "string list" where
  "USES_RELATIVE = [[], ''ftp'', ''http'', ''gopher'', ''nntp'', ''imap'', ''wais'', ''file'', ''https'',
     ''shttp'', ''mms'', ''prospero'', ''rtsp'', ''rtsps'', ''rtspu'', ''sftp'', ''svn'', ''svn+ssh'', ''ws'', ''wss'']"

definition USES_NETLOC :: "string list" where
  "USES_NETLOC = [[], ''ftp'', ''http'', ''gopher'', ''nntp'', ''telnet'', ''imap'', ''wais'', ''file'', ''mms'',
     ''https'', ''shttp'', ''snews'', ''prospero'', ''rtsp'', ''rtsps'', ''rtspu'', ''rsync'', ''svn'', ''svn+ssh'',
     ''sftp'', ''nfs'', ''git'', ''git+ssh'', ''ws'', ''wss'']"

definition USES_PARAMS :: "string list" where
  "USES_PARAMS = [[], ''ftp'', ''hdl'', ''prospero'', ''http'', ''imap'', ''https'', ''shttp'', ''rtsp'', ''rtsps'',
     ''rtspu'', ''sip'', ''sips'', ''mms'', ''sftp'', ''tel'']"

definition split_params :: "string \<Rightarrow> string \<times> string" where
  "split_params path =
     (let segment = rev (takeWhile (\<lambda>c. c \<noteq> CHR ''/'') (rev path));
          directory = rev (dropWhile (\<lambda>c. c \<noteq> CHR ''/'') (rev path))
      in (directory @ before (CHR '';'') segment, after (CHR '';'') segment))"

definition urlparse :: "(string \<Rightarrow> bool) \<Rightarrow> string \<Rightarrow> string \<Rightarrow> url_parts result" where
  "urlparse ip_ok url dflt =
     bind_result (urlsplit ip_ok url dflt) (\<lambda>u.
       Inr (if ur_scheme u \<in> set USES_PARAMS
            then u\<lparr>ur_path := fst (split_params (ur_path u)), ur_params := snd (split_params (ur_path u))\<rparr>
            else u))"

definition urlunsplit :: "url_parts \<Rightarrow> string" where
  "urlunsplit u =
     (let path = (if ur_params u = [] then ur_path u else ur_path u @ '';'' @ ur_params u);
          url = (if ur_netloc u \<noteq> [] \<or> (ur_scheme u \<noteq> [] \<and> ur_scheme u \<in> set USES_NETLOC)
                     \<or> starts_with ''//'' path
                 then ''//'' @ ur_netloc u
                      @ (if path = [] \<or> hd path = CHR ''/'' then path else CHR ''/'' # path)
                 else path);
          url = (if ur_scheme u = [] then url else ur_scheme u @ '':'' @ url);
          url = (if ur_query u = [] then url else url @ ''?'' @ ur_query u)
      in if ur_fragment u = [] then url else url @ ''#'' @ ur_fragment u)"

section \<open>Joining\<close>

text \<open>\<open>segments[1:-1] = filter(None, segments[1:-1])\<close>.\<close>

definition squeeze :: "string list \<Rightarrow> string list" where
  "squeeze segs =
     (if length segs < 2 then segs
      else hd segs # filter (\<lambda>s. s \<noteq> []) (butlast (tl segs)) @ [last segs])"

fun resolve :: "string list \<Rightarrow> string list \<Rightarrow> string list" where
  "resolve done [] = done"
| "resolve done (seg # segs) =
     (if seg = ''..'' then resolve (butlast done) segs
      else if seg = ''.'' then resolve done segs
      else resolve (done @ [seg]) segs)"

definition merge_paths :: "string \<Rightarrow> string \<Rightarrow> string" where
  "merge_paths base path =
     (let base_parts = split_on (CHR ''/'') base;
          base_parts = (if last base_parts \<noteq> [] then butlast base_parts else base_parts);
          segments = (if starts_with ''/'' path then split_on (CHR ''/'') path
                      else squeeze (base_parts @ split_on (CHR ''/'') path));
          resolved = resolve [] segments;
          resolved = (if last segments = ''.'' \<or> last segments = ''..'' then resolved @ [[]] else resolved);
          path = join_with ''/'' resolved
      in if path = [] then ''/'' else path)"

definition urljoin :: "(string \<Rightarrow> bool) \<Rightarrow> string \<Rightarrow> string \<Rightarrow> string result" where
  "urljoin ip_ok base url =
     (if base = [] then Inr url
      else if url = [] then Inr base
      else
        bind_result (urlparse ip_ok base []) (\<lambda>b.
        bind_result (urlparse ip_ok url (ur_scheme b)) (\<lambda>u.
        Inr (if ur_scheme u \<noteq> ur_scheme b \<or> ur_scheme u \<notin> set USES_RELATIVE then url
             else if ur_scheme u \<in> set USES_NETLOC \<and> ur_netloc u \<noteq> [] then urlunsplit u
             else
               let netloc = (if ur_scheme u \<in> set USES_NETLOC then ur_netloc b else ur_netloc u) in
               if ur_path u = [] \<and> ur_params u = [] then
                 urlunsplit (u\<lparr>ur_netloc := netloc, ur_path := ur_path b, ur_params := ur_params b,
                               ur_query := (if ur_query u = [] then ur_query b else ur_query u)\<rparr>)
               else urlunsplit (u\<lparr>ur_netloc := netloc, ur_path := merge_paths (ur_path b) (ur_path u)\<rparr>)))))"

end
