(* ===== verification/TunnelTargets.thy ===== *)
theory TunnelTargets
  imports Urls TunnelConfig
begin

text \<open>
  Where a tunnel client connects to: the URL of an upstream request (\<open>build_http_resp_frame\<close>,
  \<open>stream_http_response\<close>) and of an upstream WebSocket (\<open>websocket_target\<close>), made of the configured
  upstream and the path a frame of the sandbox carries.
\<close>

definition upstream_base :: "string \<Rightarrow> string" where
  "upstream_base upstream =
     (let base_url = (if occurs_in ''://'' upstream then upstream else ''http://'' @ upstream)
      in rstrip_by (\<lambda>c. c = CHR ''/'') base_url @ ''/'')"

definition upstream_path :: "string \<Rightarrow> string" where
  "upstream_path path = lstrip_by (\<lambda>c. c = CHR ''/'') path"

definition http_target :: "(string \<Rightarrow> bool) \<Rightarrow> string \<Rightarrow> string \<Rightarrow> string result" where
  "http_target ip_ok upstream path = urljoin ip_ok (upstream_base upstream) (upstream_path path)"

definition websocket_target :: "(string \<Rightarrow> bool) \<Rightarrow> string \<Rightarrow> string \<Rightarrow> string result" where
  "websocket_target ip_ok upstream path =
     bind_result (http_target ip_ok upstream path) (\<lambda>target.
     bind_result (urlsplit ip_ok target []) (\<lambda>parsed.
     bind_result
       (if ur_scheme parsed = ''http'' then Inr ''ws''
        else if ur_scheme parsed = ''https'' then Inr ''wss''
        else if ur_scheme parsed \<in> {''ws'', ''wss''} then Inr (ur_scheme parsed)
        else Inl (ValueError (''unsupported reverse WebSocket target scheme: '' @ ur_scheme parsed)))
       (\<lambda>scheme. Inr (urlunsplit (parsed\<lparr>ur_scheme := scheme\<rparr>)))))"

section \<open>Putting a URL together and taking it apart\<close>

text \<open>No character that \<open>urlsplit\<close> removes.\<close>

definition one_line :: "string \<Rightarrow> bool" where
  "one_line s \<longleftrightarrow> (\<forall>c\<in>set s. \<not> line_breaking c)"

lemma one_line_append [simp]: "one_line (s @ t) \<longleftrightarrow> one_line s \<and> one_line t"
  by (auto simp: one_line_def)

lemma one_line_Cons [simp]: "one_line (c # s) \<longleftrightarrow> \<not> line_breaking c \<and> one_line s"
  by (auto simp: one_line_def)

lemma one_line_Nil [simp]: "one_line []"
  by (simp add: one_line_def)

lemma one_line_clean: "one_line (url_clean s)"
  by (simp add: one_line_def url_clean_def)

lemma one_line_subset: "one_line s \<Longrightarrow> set t \<subseteq> set s \<Longrightarrow> one_line t"
  by (auto simp: one_line_def)

lemma tl_subset: "set (tl s) \<subseteq> set s"
  by (cases s) auto

lemma before_after_subset: "set (before d s) \<subseteq> set s" "set (after d s) \<subseteq> set s"
proof -
  show "set (before d s) \<subseteq> set s" by (auto simp: before_def dest: set_takeWhileD)
  show "set (after d s) \<subseteq> set s"
    unfolding after_def using tl_subset set_dropWhileD by fastforce
qed

lemma one_line_cut: "one_line s \<Longrightarrow> one_line (before d s)" "one_line s \<Longrightarrow> one_line (after d s)"
  using before_after_subset one_line_subset by blast+

lemma line_breaking_marks [simp]:
  "\<not> line_breaking CHR '':''" "\<not> line_breaking CHR ''/''" "\<not> line_breaking CHR ''?''"
  "\<not> line_breaking CHR ''#''" "\<not> line_breaking CHR '';''"
  by (simp_all add: line_breaking_def)

text \<open>What can follow the authority of a URL.\<close>

definition tail_ok :: "string \<Rightarrow> bool" where
  "tail_ok rest \<longleftrightarrow> rest = [] \<or> \<not> netloc_char (hd rest)"

definition web_schemes :: "string set" where
  "web_schemes = {''http'', ''https'', ''ws'', ''wss''}"

lemma netloc_take_tail:
  assumes "list_all netloc_char n" "tail_ok rest"
  shows "takeWhile netloc_char (n @ rest) = n" "dropWhile netloc_char (n @ rest) = rest"
proof -
  from assms(2) have "takeWhile netloc_char rest = []" "dropWhile netloc_char rest = rest"
    by (cases rest; simp add: tail_ok_def)+
  with assms(1) show "takeWhile netloc_char (n @ rest) = n" "dropWhile netloc_char (n @ rest) = rest"
    by (simp_all add: list_all_iff takeWhile_append2 dropWhile_append2)
qed

lemma filter_one_line: "one_line s \<Longrightarrow> filter (\<lambda>c. \<not> line_breaking c) s = s"
  by (simp add: one_line_def filter_id_conv)

lemma clean_web: "sch \<in> web_schemes \<Longrightarrow> one_line t \<Longrightarrow> url_clean (sch @ t) = sch @ t"
  unfolding url_clean_def lstrip_by_def
  by (subst filter_one_line) (auto simp: web_schemes_def c0_or_space_def line_breaking_def)

lemma scheme_web: "sch \<in> web_schemes \<Longrightarrow> split_scheme d (sch @ '':'' @ t) = (sch, t)"
  by (auto simp: web_schemes_def split_scheme_def before_def after_def is_letter_def scheme_char_def
      py_lower_def lower_char_def)

lemma urlsplit_authority:
  assumes "sch \<in> web_schemes" "list_all netloc_char n" "one_line n" "brackets_ok ip_ok n" "one_line rest" "tail_ok rest"
  shows "\<exists>q. urlsplit ip_ok (sch @ ''://'' @ n @ rest) d = Inr q \<and> ur_scheme q = sch \<and> ur_netloc q = n"
proof -
  have "url_clean (sch @ '':'' @ ''//'' @ n @ rest) = sch @ '':'' @ ''//'' @ n @ rest"
    using assms by (intro clean_web) simp_all
  then have clean: "url_clean (sch @ ''://'' @ n @ rest) = sch @ '':'' @ ''//'' @ n @ rest" by simp
  have "split_netloc (''//'' @ n @ rest) = (n, rest)"
    using netloc_take_tail [OF assms(2,6)] by (simp add: split_netloc_def starts_with_def)
  then show ?thesis
    using assms(4) by (simp add: urlsplit_def clean scheme_web [OF assms(1)] Let_def del: append_Cons)
qed

lemma urlunsplit_authority:
  assumes "ur_scheme u \<in> web_schemes" "ur_netloc u \<noteq> []"
    and parts: "one_line (ur_path u)" "one_line (ur_params u)" "one_line (ur_query u)" "one_line (ur_fragment u)"
  shows "\<exists>rest. urlunsplit u = ur_scheme u @ ''://'' @ ur_netloc u @ rest \<and> one_line rest \<and> tail_ok rest"
proof -
  define path where "path = (if ur_params u = [] then ur_path u else ur_path u @ '';'' @ ur_params u)"
  define rooted where "rooted = (if path = [] \<or> hd path = CHR ''/'' then path else CHR ''/'' # path)"
  define query where "query = (if ur_query u = [] then [] else ''?'' @ ur_query u)"
  define fragment where "fragment = (if ur_fragment u = [] then [] else ''#'' @ ur_fragment u)"
  have "ur_scheme u \<noteq> []" using assms(1) by (auto simp: web_schemes_def)
  then have "urlunsplit u = ur_scheme u @ ''://'' @ ur_netloc u @ rooted @ query @ fragment"
    using assms(2) by (simp add: urlunsplit_def Let_def path_def rooted_def query_def fragment_def)
  moreover have "one_line (rooted @ query @ fragment)"
    using parts by (simp add: path_def rooted_def query_def fragment_def)
  moreover have "tail_ok (rooted @ query @ fragment)"
    by (auto simp: tail_ok_def netloc_char_def hd_append rooted_def query_def fragment_def)
  ultimately show ?thesis by blast
qed

lemma urlsplit_parts:
  assumes "urlsplit ip_ok s d = Inr u"
  shows "one_line (ur_netloc u) \<and> one_line (ur_path u) \<and> one_line (ur_params u) \<and> one_line (ur_query u)
    \<and> one_line (ur_fragment u) \<and> list_all netloc_char (ur_netloc u) \<and> brackets_ok ip_ok (ur_netloc u)"
proof -
  obtain sch t n r where sch: "split_scheme d (url_clean s) = (sch, t)" and n: "split_netloc t = (n, r)"
    by (meson surj_pair)
  have "one_line t"
    using sch one_line_clean one_line_cut(2) by (auto simp: split_scheme_def split: if_splits)
  moreover have "set n \<subseteq> set t" "set r \<subseteq> set t"
    using n by (auto simp: split_netloc_def split: if_splits dest!: set_takeWhileD set_dropWhileD in_set_dropD)
  ultimately have "one_line n" "one_line r" using one_line_subset by blast+
  moreover have "list_all netloc_char n"
    using n by (auto simp: split_netloc_def list_all_iff split: if_splits dest: set_takeWhileD)
  ultimately show ?thesis
    using assms by (auto simp: urlsplit_def sch n Let_def one_line_cut split: if_splits)
qed

section \<open>Joining keeps the authority\<close>

lemma split_on_one_line: "one_line s \<Longrightarrow> w \<in> set (split_on d s) \<Longrightarrow> one_line w"
  by (meson one_line_subset split_on_chars)

lemma resolve_subset: "set (resolve keep segs) \<subseteq> set keep \<union> set segs"
  by (induction keep segs rule: resolve.induct) (auto dest: in_set_butlastD)

lemma squeeze_subset: "set (squeeze segs) \<subseteq> set segs"
  by (cases segs) (auto simp: squeeze_def dest: in_set_butlastD)

lemma join_one_line: "\<forall>w\<in>set ws. one_line w \<Longrightarrow> one_line (join_with ''/'' ws)"
proof (induction ws)
  case (Cons w ws)
  then show ?case by (cases ws) simp_all
qed simp

lemma butlast_subset: "set (butlast xs) \<subseteq> set xs"
  by (auto dest: in_set_butlastD)

lemma merge_paths_one_line:
  assumes "one_line base" "one_line path"
  shows "one_line (merge_paths base path)"
proof -
  define base_parts where "base_parts =
    (if last (split_on (CHR ''/'') base) \<noteq> [] then butlast (split_on (CHR ''/'') base) else split_on (CHR ''/'') base)"
  define segments where "segments =
    (if starts_with ''/'' path then split_on (CHR ''/'') path else squeeze (base_parts @ split_on (CHR ''/'') path))"
  define resolved where "resolved =
    (if last segments = ''.'' \<or> last segments = ''..'' then resolve [] segments @ [[]] else resolve [] segments)"
  have pieces: "one_line w" if "w \<in> set (split_on (CHR ''/'') base) \<union> set (split_on (CHR ''/'') path)" for w
    using that assms split_on_one_line by blast
  have "set base_parts \<subseteq> set (split_on (CHR ''/'') base)"
    by (simp add: base_parts_def butlast_subset)
  moreover have "set segments \<subseteq> set base_parts \<union> set (split_on (CHR ''/'') path)"
    using squeeze_subset [of "base_parts @ split_on (CHR ''/'') path"] by (simp add: segments_def)
  moreover have "set resolved \<subseteq> set segments \<union> {[]}"
    using resolve_subset [of "[]" segments] by (auto simp: resolved_def)
  ultimately have "\<forall>w\<in>set resolved. one_line w" using pieces by fastforce
  then have "one_line (join_with ''/'' resolved)" by (rule join_one_line)
  then show ?thesis
    unfolding merge_paths_def Let_def base_parts_def [symmetric] segments_def [symmetric] resolved_def [symmetric]
    by simp
qed

lemma split_params_one_line:
  "one_line path \<Longrightarrow> one_line (fst (split_params path)) \<and> one_line (snd (split_params path))"
proof -
  assume path: "one_line path"
  have "one_line (rev (takeWhile (\<lambda>c. c \<noteq> CHR ''/'') (rev path)))" "one_line (rev (dropWhile (\<lambda>c. c \<noteq> CHR ''/'') (rev path)))"
    using path by (auto simp: one_line_def dest!: set_takeWhileD set_dropWhileD)
  then show ?thesis by (simp add: split_params_def Let_def one_line_cut)
qed

lemma urlparse_parts:
  assumes "urlparse ip_ok s d = Inr u"
  shows "one_line (ur_netloc u) \<and> one_line (ur_path u) \<and> one_line (ur_params u) \<and> one_line (ur_query u)
    \<and> one_line (ur_fragment u) \<and> list_all netloc_char (ur_netloc u) \<and> brackets_ok ip_ok (ur_netloc u)"
proof -
  obtain v where v: "urlsplit ip_ok s d = Inr v"
    and u: "u = v \<or> u = v\<lparr>ur_path := fst (split_params (ur_path v)), ur_params := snd (split_params (ur_path v))\<rparr>"
    using assms by (auto simp: urlparse_def bind_result_eq_Inr split: if_splits)
  show ?thesis using urlsplit_parts [OF v] u split_params_one_line [of "ur_path v"] by auto
qed

lemma urlparse_of_split:
  assumes "urlsplit ip_ok s d = Inr v"
  obtains u where "urlparse ip_ok s d = Inr u" "ur_scheme u = ur_scheme v" "ur_netloc u = ur_netloc v"
  using assms that by (auto simp: urlparse_def)

lemma web_schemes_relative: "sch \<in> web_schemes \<Longrightarrow> sch \<in> set USES_RELATIVE \<and> sch \<in> set USES_NETLOC"
  by (auto simp: web_schemes_def USES_RELATIVE_def USES_NETLOC_def)

lemma urlunsplit_split:
  assumes "ur_scheme u \<in> web_schemes" "ur_netloc u \<noteq> []"
    and "list_all netloc_char (ur_netloc u)" "one_line (ur_netloc u)" "brackets_ok ip_ok (ur_netloc u)"
    and "one_line (ur_path u)" "one_line (ur_params u)" "one_line (ur_query u)" "one_line (ur_fragment u)"
  shows "\<exists>q. urlsplit ip_ok (urlunsplit u) d = Inr q \<and> ur_scheme q = ur_scheme u \<and> ur_netloc q = ur_netloc u"
proof -
  obtain rest where "urlunsplit u = ur_scheme u @ ''://'' @ ur_netloc u @ rest" "one_line rest" "tail_ok rest"
    using urlunsplit_authority [OF assms(1,2) assms(6-9)] by blast
  then show ?thesis using urlsplit_authority [OF assms(1,3,4,5)] by simp
qed

lemma urljoin_authority:
  assumes b: "urlsplit ip_ok base [] = Inr b" "ur_scheme b \<in> web_schemes" "ur_netloc b \<noteq> []" "base \<noteq> []"
    and p: "urlsplit ip_ok url (ur_scheme b) = Inr p" "ur_scheme p = ur_scheme b" "ur_netloc p = []"
  shows "\<exists>t q. urljoin ip_ok base url = Inr t \<and> urlsplit ip_ok t [] = Inr q
    \<and> ur_scheme q = ur_scheme b \<and> ur_netloc q = ur_netloc b"
proof (cases "url = []")
  case True
  with b show ?thesis by (simp add: urljoin_def)
next
  case False
  obtain b' where b': "urlparse ip_ok base [] = Inr b'" "ur_scheme b' = ur_scheme b" "ur_netloc b' = ur_netloc b"
    using urlparse_of_split [OF b(1)] by metis
  obtain u where u: "urlparse ip_ok url (ur_scheme b) = Inr u" "ur_scheme u = ur_scheme b" "ur_netloc u = []"
    using urlparse_of_split [OF p(1)] p(2,3) by metis
  note lines = urlparse_parts [OF b'(1)] urlparse_parts [OF u(1)]
  define v where "v =
    (if ur_path u = [] \<and> ur_params u = []
     then u\<lparr>ur_netloc := ur_netloc b, ur_path := ur_path b', ur_params := ur_params b',
            ur_query := (if ur_query u = [] then ur_query b' else ur_query u)\<rparr>
     else u\<lparr>ur_netloc := ur_netloc b, ur_path := merge_paths (ur_path b') (ur_path u)\<rparr>)"
  have "urljoin ip_ok base url = Inr (urlunsplit v)"
    using False b(4) b' u web_schemes_relative [OF b(2)] by (simp add: urljoin_def Let_def v_def)
  moreover have "\<exists>q. urlsplit ip_ok (urlunsplit v) [] = Inr q \<and> ur_scheme q = ur_scheme v \<and> ur_netloc q = ur_netloc v"
    using b b'(2,3) u(2) lines merge_paths_one_line by (intro urlunsplit_split) (auto simp: v_def)
  moreover have "ur_scheme v = ur_scheme b" "ur_netloc v = ur_netloc b" using u(2) by (simp_all add: v_def)
  ultimately show ?thesis by auto
qed

section \<open>Targets\<close>

definition websocket_scheme :: "string \<Rightarrow> string" where
  "websocket_scheme sch = (if sch \<in> {''https'', ''wss''} then ''wss'' else ''ws'')"

text \<open>
  C10: A relative path stays on the upstream. For an upstream with a web address, and a path that
  carries, as \<open>urlsplit\<close> reads it, neither a host nor another scheme, the request goes to the scheme,
  host and port of the upstream, and the WebSocket to the same host and port under \<open>ws\<close> or \<open>wss\<close>;
  dots, parameters, queries and fragments in the path make no difference.
\<close>

theorem relative_path_stays:
  assumes "urlsplit ip_ok (upstream_base upstream) [] = Inr b" "ur_scheme b \<in> web_schemes" "ur_netloc b \<noteq> []"
    and "urlsplit ip_ok (upstream_path path) (ur_scheme b) = Inr p" "ur_scheme p = ur_scheme b" "ur_netloc p = []"
  shows "\<exists>t q w r. http_target ip_ok upstream path = Inr t \<and> urlsplit ip_ok t [] = Inr q
    \<and> ur_scheme q = ur_scheme b \<and> ur_netloc q = ur_netloc b
    \<and> websocket_target ip_ok upstream path = Inr w \<and> urlsplit ip_ok w [] = Inr r
    \<and> ur_scheme r = websocket_scheme (ur_scheme b) \<and> ur_netloc r = ur_netloc b"
proof -
  have "upstream_base upstream \<noteq> []" by (simp add: upstream_base_def Let_def)
  then obtain t q where t: "http_target ip_ok upstream path = Inr t" and q: "urlsplit ip_ok t [] = Inr q"
    "ur_scheme q = ur_scheme b" "ur_netloc q = ur_netloc b"
    using urljoin_authority [OF assms(1-3) _ assms(4-6)] unfolding http_target_def by blast
  let ?v = "q\<lparr>ur_scheme := websocket_scheme (ur_scheme b)\<rparr>"
  have "websocket_target ip_ok upstream path = Inr (urlunsplit ?v)"
    using assms(2) t q by (auto simp: websocket_target_def websocket_scheme_def web_schemes_def)
  moreover have "\<exists>r. urlsplit ip_ok (urlunsplit ?v) [] = Inr r \<and> ur_scheme r = ur_scheme ?v \<and> ur_netloc r = ur_netloc ?v"
    using urlsplit_parts [OF q(1)] q(3) assms(3)
    by (intro urlunsplit_split) (simp_all add: websocket_scheme_def web_schemes_def)
  ultimately show ?thesis using t q by auto
qed

theorem relative_path_stays_witness:
  "\<exists>t q w. http_target (\<lambda>_. False) ''127.0.0.1:8000'' ''/../a;b?q=//other/#f'' = Inr t
     \<and> urlsplit (\<lambda>_. False) t [] = Inr q \<and> ur_netloc q = ''127.0.0.1:8000''
     \<and> websocket_target (\<lambda>_. False) ''127.0.0.1:8000'' ''/../a;b?q=//other/#f'' = Inr w"
proof -
  let ?b = "\<lparr>ur_scheme = ''http'', ur_netloc = ''127.0.0.1:8000'', ur_path = ''/'', ur_params = [],
    ur_query = [], ur_fragment = []\<rparr>"
  let ?p = "\<lparr>ur_scheme = ''http'', ur_netloc = [], ur_path = ''../a;b'', ur_params = [],
    ur_query = ''q=//other/'', ur_fragment = ''f''\<rparr>"
  have "urlsplit (\<lambda>_. False) (upstream_base ''127.0.0.1:8000'') [] = Inr ?b" by code_simp
  moreover have "urlsplit (\<lambda>_. False) (upstream_path ''/../a;b?q=//other/#f'') ''http'' = Inr ?p" by code_simp
  ultimately show ?thesis
    using relative_path_stays [of "\<lambda>_. False" "''127.0.0.1:8000''" ?b "''/../a;b?q=//other/#f''" ?p]
    by (auto simp: web_schemes_def)
qed

lemma urlsplit_Nil:
  "urlsplit ip_ok [] d = Inr \<lparr>ur_scheme = d, ur_netloc = [], ur_path = [], ur_params = [], ur_query = [], ur_fragment = []\<rparr>"
  by (simp add: urlsplit_def url_clean_def lstrip_by_def split_scheme_def split_netloc_def starts_with_def
      brackets_ok_def before_def after_def)



end
