(* ===== verification/Base64.thy ===== *)
theory Base64
  imports Bytes
begin

text \<open>
  \<open>base64.b64encode\<close> and \<open>base64.b64decode(..., validate=True)\<close> of the standard library: groups of
  three bytes as four characters, the last group padded. As in Python, unused low bits of the last
  character are ignored when decoding.
\<close>

definition b64_alphabet :: string where
  "b64_alphabet = ''ABCDEFGHIJKLMNOPQRSTUVWXYZabcdefghijklmnopqrstuvwxyz0123456789+/''"

definition b64_char :: "nat \<Rightarrow> char" where
  "b64_char d = b64_alphabet ! d"

definition b64_val :: "char \<Rightarrow> nat option" where
  "b64_val c =
     (let n = of_char c :: nat
      in if 65 \<le> n \<and> n \<le> 90 then Some (n - 65)
         else if 97 \<le> n \<and> n \<le> 122 then Some (n - 71)
         else if 48 \<le> n \<and> n \<le> 57 then Some (n + 4)
         else if n = 43 then Some 62
         else if n = 47 then Some 63
         else None)"

definition PAD :: char where "PAD = CHR ''=''"

fun b64_encode :: "byte list \<Rightarrow> string" where
  "b64_encode [] = []"
| "b64_encode [a] = [b64_char (unat a div 4), b64_char (unat a mod 4 * 16), PAD, PAD]"
| "b64_encode [a, b] =
     [b64_char (unat a div 4), b64_char (unat a mod 4 * 16 + unat b div 16), b64_char (unat b mod 16 * 4), PAD]"
| "b64_encode (a # b # c # rest) =
     b64_char (unat a div 4) # b64_char (unat a mod 4 * 16 + unat b div 16)
     # b64_char (unat b mod 16 * 4 + unat c div 64) # b64_char (unat c mod 64) # b64_encode rest"

definition byte_of :: "nat \<Rightarrow> byte" where
  "byte_of n = word_of_nat n"

text \<open>The bytes of one group; None is \<open>binascii.Error\<close>.\<close>

definition b64_group :: "char \<Rightarrow> char \<Rightarrow> char \<Rightarrow> char \<Rightarrow> bool \<Rightarrow> byte list option" where
  "b64_group w x y z final =
     (case (b64_val w, b64_val x) of
        (Some p, Some q) \<Rightarrow>
          (let a = byte_of (p * 4 + q div 16) in
           case (b64_val y, b64_val z) of
             (Some r, Some s) \<Rightarrow>
               Some [a, byte_of (q mod 16 * 16 + r div 4), byte_of (r mod 4 * 64 + s)]
           | (Some r, None) \<Rightarrow>
               if z = PAD \<and> final then Some [a, byte_of (q mod 16 * 16 + r div 4)] else None
           | (None, _) \<Rightarrow> if y = PAD \<and> z = PAD \<and> final then Some [a] else None)
      | _ \<Rightarrow> None)"

fun b64_decode :: "string \<Rightarrow> byte list option" where
  "b64_decode [] = Some []"
| "b64_decode (w # x # y # z # rest) =
     (case b64_group w x y z (rest = []) of
        None \<Rightarrow> None
      | Some bs \<Rightarrow> map_option ((@) bs) (b64_decode rest))"
| "b64_decode _ = None"

lemma b64_alphabet_values: "map b64_val b64_alphabet = map Some [0..<64]"
  by code_simp

lemma b64_val_char [simp]: "d < 64 \<Longrightarrow> b64_val (b64_char d) = Some d"
proof -
  assume "d < 64"
  moreover have "length b64_alphabet = 64" by code_simp
  ultimately have "b64_val (b64_char d) = map b64_val b64_alphabet ! d" by (simp add: b64_char_def)
  with \<open>d < 64\<close> show ?thesis by (simp add: b64_alphabet_values)
qed

lemma b64_val_PAD [simp]: "b64_val PAD = None"
  by (simp add: b64_val_def PAD_def)

lemma byte_of_unat [simp]: "byte_of (unat a) = a"
  by (simp add: byte_of_def)

lemma digit_split:
  fixes p q k :: nat
  assumes "q < k"
  shows "(p * k + q) div k = p" "(p * k + q) mod k = q"
  using assms by simp_all

lemma b64_parts [simp]:
  fixes a b c :: byte
  shows "unat a div 4 < 64" "unat a mod 4 * 16 + unat b div 16 < 64" "unat b mod 16 * 4 + unat c div 64 < 64"
    "unat c mod 64 < 64" "unat a mod 4 * 16 < 64" "unat b mod 16 * 4 < 64"
proof -
  have "unat a < 256" "unat b < 256" "unat c < 256" by (rule unat_byte_less)+
  moreover have "unat a mod 4 < 4" "unat b mod 16 < 16" by simp_all
  ultimately show "unat a div 4 < 64" "unat a mod 4 * 16 + unat b div 16 < 64"
    "unat b mod 16 * 4 + unat c div 64 < 64" "unat c mod 64 < 64" "unat a mod 4 * 16 < 64"
    "unat b mod 16 * 4 < 64"
    by linarith+
qed

lemma b64_bytes [simp]:
  fixes a b c :: byte
  shows "unat a div 4 * 4 + (unat a mod 4 * 16 + unat b div 16) div 16 = unat a"
    "(unat a mod 4 * 16 + unat b div 16) mod 16 * 16 + (unat b mod 16 * 4 + unat c div 64) div 4 = unat b"
    "(unat b mod 16 * 4 + unat c div 64) mod 4 * 64 + unat c mod 64 = unat c"
    "(unat a mod 4 * 16 + unat b div 16) mod 16 * 16 + unat b mod 16 * 4 div 4 = unat b"
    "unat a div 4 * 4 + unat a mod 4 * 16 div 16 = unat a"
proof -
  have b: "unat b div 16 < 16" using unat_byte_less [of b] by simp
  have c: "unat c div 64 < 4" using unat_byte_less [of c] by simp
  show "unat a div 4 * 4 + (unat a mod 4 * 16 + unat b div 16) div 16 = unat a"
    "(unat a mod 4 * 16 + unat b div 16) mod 16 * 16 + (unat b mod 16 * 4 + unat c div 64) div 4 = unat b"
    "(unat b mod 16 * 4 + unat c div 64) mod 4 * 64 + unat c mod 64 = unat c"
    "(unat a mod 4 * 16 + unat b div 16) mod 16 * 16 + unat b mod 16 * 4 div 4 = unat b"
    "unat a div 4 * 4 + unat a mod 4 * 16 div 16 = unat a"
    by (simp_all only: digit_split [OF b] digit_split [OF c] div_mult_mod_eq) simp_all
qed

lemma byte_high_digit [simp]:
  fixes b :: byte
  shows "unat b div 16 div 16 = 0" "unat b div 16 mod 16 = unat b div 16"
    "unat b div 64 div 4 = 0" "unat b div 64 mod 4 = unat b div 64"
  using unat_byte_less [of b] by simp_all

lemma b64_roundtrip: "b64_decode (b64_encode bs) = Some bs"
proof (induction bs rule: b64_encode.induct)
  case (2 a)
  then show ?case by (simp add: b64_group_def del: One_nat_def)
next
  case (3 a b)
  then show ?case by (simp add: b64_group_def del: One_nat_def)
next
  case (4 a b c rest)
  then show ?case by (simp add: b64_group_def del: One_nat_def)
qed simp

text \<open>
  \<open>base64.b64decode(s)\<close> without \<open>validate\<close>: characters outside the alphabet are skipped, and the
  padding that completes a group ends the data. \<open>quad\<close> is the position in the group, \<open>left\<close> the bits
  carried over and \<open>pads\<close> the padding characters since the last digit.
\<close>

fun b64_scan :: "nat \<Rightarrow> nat \<Rightarrow> nat \<Rightarrow> string \<Rightarrow> byte list option" where
  "b64_scan quad left pads [] = (if quad = 0 then Some [] else None)"
| "b64_scan quad left pads (c # s) =
     (if c = PAD then
        (if quad \<ge> 2 \<and> quad + (pads + 1) \<ge> 4 then Some []
         else b64_scan quad left (if quad \<ge> 2 then pads + 1 else pads) s)
      else
        case b64_val c of
          None \<Rightarrow> b64_scan quad left pads s
        | Some d \<Rightarrow>
            if quad = 0 then b64_scan 1 d 0 s
            else if quad = 1 then map_option ((#) (byte_of (left * 4 + d div 16))) (b64_scan 2 (d mod 16) 0 s)
            else if quad = 2 then map_option ((#) (byte_of (left * 16 + d div 4))) (b64_scan 3 (d mod 4) 0 s)
            else map_option ((#) (byte_of (left * 64 + d))) (b64_scan 0 0 0 s))"

definition b64_decode_lenient :: "string \<Rightarrow> byte list option" where
  "b64_decode_lenient s = (if \<exists>c\<in>set s. (of_char c :: nat) > 127 then None else b64_scan 0 0 0 s)"

lemma b64_char_not_PAD [simp]: "d < 64 \<Longrightarrow> b64_char d \<noteq> PAD"
  using b64_val_char [of d] by (metis b64_val_PAD option.distinct(1))

lemma b64_scan_encode: "b64_scan 0 left pads (b64_encode bs) = Some bs"
proof (induction bs arbitrary: left pads rule: b64_encode.induct)
  case (4 a b c rest)
  then show ?case by (simp del: One_nat_def)
qed (simp_all del: One_nat_def)

lemma b64_encode_chars: "c \<in> set (b64_encode bs) \<Longrightarrow> c = PAD \<or> (\<exists>d<64. c = b64_char d)"
  by (induction bs rule: b64_encode.induct) (auto simp del: One_nat_def intro: b64_parts)

lemma b64_char_ascii: "d < 64 \<Longrightarrow> (of_char (b64_char d) :: nat) \<le> 127"
proof -
  assume "d < 64"
  moreover have "length b64_alphabet = 64" by code_simp
  ultimately have "b64_char d \<in> set b64_alphabet" by (simp add: b64_char_def)
  moreover have "\<forall>c\<in>set b64_alphabet. (of_char c :: nat) \<le> 127" by code_simp
  ultimately show ?thesis by blast
qed

lemma b64_lenient_roundtrip: "b64_decode_lenient (b64_encode bs) = Some bs"
proof -
  have "(of_char c :: nat) \<le> 127" if "c \<in> set (b64_encode bs)" for c
    using b64_encode_chars [OF that] b64_char_ascii by (auto simp: PAD_def)
  then show ?thesis by (force simp: b64_decode_lenient_def b64_scan_encode)
qed

end
