(* ===== verification/TunnelRelay.thy ===== *)
theory TunnelRelay
  imports TunnelLoop TunnelTargets Base64
begin

text \<open>
  The upstream side of \<open>_proxy_loop\<close>: the fetch of a plain request with its choice between one
  frame and a stream (\<open>build_http_resp_frame\<close>, \<open>response_metadata\<close>), the request whose body is
  streamed (\<open>stream_http_response\<close>), the options of an upstream WebSocket (\<open>websocket_options\<close>) and the two relays of a channel (\<open>from_upstream\<close>, \<open>from_sandbox\<close>).
  What a fetch decides is what the labels \<open>FinishFetch\<close> and \<open>Respond\<close> of \<open>TunnelLoop\<close> carry; the
  queue a channel relays from is its \<open>ch_queue\<close>. The HTTP and WebSocket clients are parameters.
\<close>

section \<open>Fetching a plain request\<close>

text \<open>\<open>str(e)\<close>.\<close>

fun exc_text :: "py_exc \<Rightarrow> string" where
  "exc_text (ValueError m) = m"
| "exc_text (TypeError m) = m"
| "exc_text (RuntimeError m) = m"
| "exc_text (KeyError m) = m"
| "exc_text (ProtocolError m) = m"
| "exc_text (AttributeError m) = m"
| "exc_text StructError = ''struct.error''"
| "exc_text AssertionError = []"

text \<open>An \<open>httpx\<close> response: its raw headers, its raw chunks and the error that ends them, if any.\<close>

record upstream_response =
  us_status :: int
  us_headers :: "(byte list \<times> byte list) list"
  us_chunks :: "byte list list"
  us_failure :: "string option"

definition latin1 :: "byte list \<Rightarrow> string" where
  "latin1 bs = map (\<lambda>b. char_of (unat b)) bs"

definition decode_header :: "byte list \<times> byte list \<Rightarrow> header result" where
  "decode_header h =
     (if \<forall>b\<in>set (fst h). unat b \<le> 127 then Inr (latin1 (fst h), latin1 (snd h))
      else Inl (ValueError ''ascii codec cannot decode''))"

definition content_length_of :: "header list \<Rightarrow> int option" where
  "content_length_of hs =
     (case filter (\<lambda>h. py_lower (fst h) = ''content-length'') hs of
        [] \<Rightarrow> None
      | h # _ \<Rightarrow> py_int (snd h))"

definition response_metadata :: "upstream_response \<Rightarrow> (header list \<times> int option) result" where
  "response_metadata resp =
     bind_result (map_result decode_header (us_headers resp)) (\<lambda>hs. Inr (hs, content_length_of hs))"

definition response_body_limit :: "negotiated \<Rightarrow> int" where
  "response_body_limit ng =
     (if ng_protocol_version ng \<ge> PROTOCOL_VERSION then ng_max_body_size ng
      else min (ng_max_body_size ng) MAX_V1_BODY_BYTES)"

text \<open>
  What the task of a fetch gets to do: send one frame, or stream a response: its begin frame, the
  chunks and the error that ends them.
\<close>

datatype http_reply = OneFrame out_frame | Stream out_frame "byte list list" "string option"

definition body_expected :: "string \<Rightarrow> int \<Rightarrow> bool" where
  "body_expected meth status \<longleftrightarrow>
     py_lower meth \<noteq> ''head'' \<and> \<not> ((100 \<le> status \<and> status < 200) \<or> status = 204 \<or> status = 304)"

definition stream_reply :: "negotiated \<Rightarrow> string \<Rightarrow> bool \<Rightarrow> upstream_response \<Rightarrow> header list \<Rightarrow> int option \<Rightarrow> http_reply" where
  "stream_reply ng rid expected resp hs cl =
     (let begin_frame = HttpRespBegin rid (us_status resp) hs cl;
          (chunks, fin) = send_streaming_response ng expected cl (us_chunks resp);
          sent = snd (response_plan (nat (ng_stream_chunk ng)) (ng_max_body_size ng) 0 (us_chunks resp))
      in if expected \<and> exceeds cl (ng_max_body_size ng)
         then OneFrame (ErrorFrame rid ''response body exceeds tunnel limit'')
         else Stream begin_frame chunks
                (case (sent, us_failure resp, fin) of
                   (Inr _, Some m, _) \<Rightarrow> Some m
                 | (_, _, Inl e) \<Rightarrow> Some (exc_text e)
                 | _ \<Rightarrow> None))"

definition read_response :: "tunnel_limits \<Rightarrow> negotiated \<Rightarrow> string \<Rightarrow> json \<Rightarrow> upstream_response \<Rightarrow> http_reply result" where
  "read_response L ng rid meth resp =
     bind_result (response_metadata resp) (\<lambda>(hs, cl).
       if exceeds cl (response_body_limit ng)
       then Inl (ProtocolError ''response body requires tunnel protocol V2'')
       else if ng_protocol_version ng \<ge> PROTOCOL_VERSION
               \<and> (cl = None \<or> exceeds cl (tl_fast_path_body_bytes L))
       then (case meth of
               JStr m \<Rightarrow> Inr (stream_reply ng rid (body_expected m (us_status resp)) resp hs cl)
             | _ \<Rightarrow> Inl (AttributeError ''upper''))
       else case us_failure resp of
              Some m \<Rightarrow> Inr (OneFrame (ErrorFrame rid m))
            | None \<Rightarrow>
                let raw_body = concat (us_chunks resp) in
                if int (length raw_body) > response_body_limit ng
                then Inl (ProtocolError ''response body exceeds tunnel limit'')
                else Inr (OneFrame (HttpResp rid (us_status resp) hs (b64_encode raw_body))))"

definition request_body :: "jobj \<Rightarrow> byte list result" where
  "request_body frame =
     (case jor (jget frame ''body'') (JStr []) of
        JStr s \<Rightarrow>
          (case b64_decode_lenient s of
             None \<Rightarrow> Inl (ValueError ''Incorrect padding'')
           | Some bs \<Rightarrow> Inr bs)
      | _ \<Rightarrow> Inl (TypeError ''argument should be a bytes-like object or ASCII string''))"

text \<open>
  \<open>fetch meth url headers body\<close> is \<open>client.stream\<close>: the response, or the text of the error it raises.
\<close>

definition build_http_resp_frame ::
  "(string \<Rightarrow> bool) \<Rightarrow> (json \<Rightarrow> string \<Rightarrow> header list \<Rightarrow> byte list \<Rightarrow> string + upstream_response)
     \<Rightarrow> string \<Rightarrow> tunnel_limits \<Rightarrow> negotiated \<Rightarrow> string \<Rightarrow> jobj \<Rightarrow> http_reply" where
  "build_http_resp_frame ip_ok fetch upstream L ng rid frame =
     (let meth = jget_or frame ''method'' (JStr ''GET'');
          outcome =
            bind_result (headers_for_rebuilt_request (jget frame ''headers'')) (\<lambda>req_headers.
            bind_result (request_body frame) (\<lambda>body.
            bind_result
              (case jget_or frame ''path'' (JStr ''/'') of
                 JStr path \<Rightarrow> http_target ip_ok upstream path
               | _ \<Rightarrow> Inl (AttributeError ''lstrip'')) (\<lambda>url.
            case fetch meth url req_headers body of
              Inl m \<Rightarrow> Inr (OneFrame (ErrorFrame rid m))
            | Inr resp \<Rightarrow> read_response L ng rid meth resp)))
      in case outcome of
           Inl e \<Rightarrow> OneFrame (ErrorFrame rid (exc_text e))
         | Inr reply \<Rightarrow> reply)"

definition response_of :: "negotiated \<Rightarrow> upstream_response \<Rightarrow> string \<Rightarrow> http_reply \<Rightarrow> bool" where
  "response_of ng resp rid reply \<longleftrightarrow>
     (case reply of
        OneFrame (HttpResp i status hs body) \<Rightarrow>
          i = rid \<and> status = us_status resp \<and> map_result decode_header (us_headers resp) = Inr hs
          \<and> us_failure resp = None \<and> b64_decode body = Some (concat (us_chunks resp))
          \<and> int (length (concat (us_chunks resp))) \<le> response_body_limit ng
      | OneFrame f \<Rightarrow> \<exists>m. f = ErrorFrame rid m
      | Stream begin_frame chunks failure \<Rightarrow>
          ng_protocol_version ng \<ge> PROTOCOL_VERSION
          \<and> (\<exists>hs cl. begin_frame = HttpRespBegin rid (us_status resp) hs cl
               \<and> map_result decode_header (us_headers resp) = Inr hs)
          \<and> (\<forall>c\<in>set chunks. c \<noteq> [] \<and> int (length c) \<le> ng_stream_chunk ng)
          \<and> int (length (concat chunks)) \<le> ng_max_body_size ng
          \<and> (\<exists>rest. concat (us_chunks resp) = concat chunks @ rest
               \<and> (failure = None \<longrightarrow> rest = [] \<and> us_failure resp = None)))"

lemma send_streaming_ending:
  assumes "send_streaming_response ng expected cl raws = (chunks, fin)"
    and "\<not> (expected \<and> exceeds cl (ng_max_body_size ng))"
  shows "(\<exists>e. snd (response_plan (nat (ng_stream_chunk ng)) (ng_max_body_size ng) 0 raws) = Inl e)
      \<longrightarrow> (\<exists>e. fin = Inl e)"
  using assms by (auto simp: send_streaming_response_def split: prod.splits if_splits)

lemma stream_reply_response:
  assumes "limits_ok L" "negotiated_ok L ng" "ng_protocol_version ng \<ge> PROTOCOL_VERSION"
    and "map_result decode_header (us_headers resp) = Inr hs"
  shows "response_of ng resp rid (stream_reply ng rid expected resp hs cl)"
proof (cases "expected \<and> exceeds cl (ng_max_body_size ng)")
  case True
  then show ?thesis by (auto simp: stream_reply_def response_of_def split: prod.splits)
next
  case False
  obtain chunks fin where run: "send_streaming_response ng expected cl (us_chunks resp) = (chunks, fin)"
    by fastforce
  define failure where "failure =
    (case (snd (response_plan (nat (ng_stream_chunk ng)) (ng_max_body_size ng) 0 (us_chunks resp)), us_failure resp, fin) of
       (Inr _, Some m, _) \<Rightarrow> Some m
     | (_, _, Inl e) \<Rightarrow> Some (exc_text e)
     | _ \<Rightarrow> None)"
  have reply: "stream_reply ng rid expected resp hs cl = Stream (HttpRespBegin rid (us_status resp) hs cl) chunks failure"
    unfolding stream_reply_def Let_def run prod.case failure_def using False by (simp only: if_False)
  have "fin = Inr () \<and> us_failure resp = None" if "failure = None"
    using that send_streaming_ending [OF run False]
    by (auto simp: failure_def split: sum.splits option.splits)
  with streamed_response_exact [OF assms(1,2) run] assms(3,4) show ?thesis
    unfolding reply response_of_def by auto
qed

lemma read_response_of:
  assumes "limits_ok L" "negotiated_ok L ng" "read_response L ng rid meth resp = Inr reply"
  shows "response_of ng resp rid reply"
proof -
  obtain hs cl where meta: "map_result decode_header (us_headers resp) = Inr hs"
    and go: "(if exceeds cl (response_body_limit ng)
       then Inl (ProtocolError ''response body requires tunnel protocol V2'')
       else if ng_protocol_version ng \<ge> PROTOCOL_VERSION
               \<and> (cl = None \<or> exceeds cl (tl_fast_path_body_bytes L))
       then (case meth of
               JStr m \<Rightarrow> Inr (stream_reply ng rid (body_expected m (us_status resp)) resp hs cl)
             | _ \<Rightarrow> Inl (AttributeError ''upper''))
       else case us_failure resp of
              Some m \<Rightarrow> Inr (OneFrame (ErrorFrame rid m))
            | None \<Rightarrow>
                let raw_body = concat (us_chunks resp) in
                if int (length raw_body) > response_body_limit ng
                then Inl (ProtocolError ''response body exceeds tunnel limit'')
                else Inr (OneFrame (HttpResp rid (us_status resp) hs (b64_encode raw_body)))) = Inr reply"
    using assms(3) unfolding read_response_def response_metadata_def bind_result_eq_Inr by auto
  show ?thesis
  proof (cases "ng_protocol_version ng \<ge> PROTOCOL_VERSION \<and> (cl = None \<or> exceeds cl (tl_fast_path_body_bytes L))")
    case True
    then obtain m where "reply = stream_reply ng rid (body_expected m (us_status resp)) resp hs cl"
      using go by (cases meth) (auto simp only: if_True split: if_splits json.splits)
    with True stream_reply_response [OF assms(1,2) _ meta] show ?thesis by simp
  next
    case False
    with go meta show ?thesis
      by (auto simp: response_of_def Let_def b64_roundtrip split: if_splits option.splits)
  qed
qed

text \<open>
  \<open>stream_http_response\<close>: the body is what the request stream hands over, so \<open>fetch\<close> is given none;
  \<open>cl\<close> is the length the sandbox declared.
\<close>

definition stream_http_response ::
  "(string \<Rightarrow> bool) \<Rightarrow> (json \<Rightarrow> string \<Rightarrow> header list \<Rightarrow> string + upstream_response)
     \<Rightarrow> string \<Rightarrow> negotiated \<Rightarrow> string \<Rightarrow> int option \<Rightarrow> jobj \<Rightarrow> http_reply" where
  "stream_http_response ip_ok fetch upstream ng rid cl frame =
     (let meth = jget_or frame ''method'' (JStr ''GET'');
          outcome =
            bind_result (headers_for_rebuilt_request (jget frame ''headers'')) (\<lambda>hs.
            let req_headers = hs @ (case cl of None \<Rightarrow> [] | Some n \<Rightarrow> [(''Content-Length'', str_int n)]) in
            bind_result
              (case jget_or frame ''path'' (JStr ''/'') of
                 JStr path \<Rightarrow> http_target ip_ok upstream path
               | _ \<Rightarrow> Inl (AttributeError ''lstrip'')) (\<lambda>url.
            case fetch meth url req_headers of
              Inl m \<Rightarrow> Inr (OneFrame (ErrorFrame rid m))
            | Inr resp \<Rightarrow>
                (case meth of
                   JStr m \<Rightarrow> bind_result (response_metadata resp) (\<lambda>(hs, cl).
                     Inr (stream_reply ng rid (body_expected m (us_status resp)) resp hs cl))
                 | _ \<Rightarrow> Inl (AttributeError ''upper''))))
      in case outcome of
           Inl e \<Rightarrow> OneFrame (ErrorFrame rid (exc_text e))
         | Inr reply \<Rightarrow> reply)"

lemma rebuilt_no_length:
  assumes "headers_for_rebuilt_request headers = Inr hs"
  shows "filter (\<lambda>h. py_lower (fst h) = ''content-length'') hs = []"
proof -
  from assms obtain pairs where "hs = filter (\<lambda>(n, v). py_lower n \<notin> set (excluded_headers pairs)) pairs"
    by (rule rebuilt_cases)
  then show ?thesis by (auto simp: filter_empty_conv excluded_headers_def)
qed

text \<open>
  A response that can be answered in full: readable headers, a body that does not break off, is within the limit
  and as long as declared. And what it is to be answered in full.
\<close>

definition good_response :: "int \<Rightarrow> upstream_response \<Rightarrow> bool" where
  "good_response limit resp \<longleftrightarrow>
     (let len = int (length (concat (us_chunks resp))) in
      us_failure resp = None \<and> len \<le> limit
      \<and> (\<exists>hs cl. response_metadata resp = Inr (hs, cl) \<and> (cl = None \<or> cl = Some len)))"

definition answered_in_full :: "byte list \<Rightarrow> http_reply \<Rightarrow> bool" where
  "answered_in_full body reply =
     (case reply of
        OneFrame (HttpResp _ _ _ b) \<Rightarrow> b64_decode b = Some body
      | OneFrame _ \<Rightarrow> False
      | Stream _ chunks failure \<Rightarrow> failure = None \<and> concat chunks = body)"

lemma response_plan_whole:
  assumes "0 < n" "sz + int (length (concat raws)) \<le> m"
  shows "\<exists>cs. response_plan n m sz raws = (cs, Inr (sz + int (length (concat raws)))) \<and> concat cs = concat raws"
  using assms(2)
proof (induction raws arbitrary: sz)
  case (Cons raw raws)
  then have "sz + int (length raw) + int (length (concat raws)) \<le> m" by simp
  from Cons.IH [OF this] obtain cs where
    "response_plan n m (sz + int (length raw)) raws = (cs, Inr (sz + int (length raw) + int (length (concat raws))))"
    "concat cs = concat raws" by blast
  with Cons.prems show ?case using concat_cut_chunk [OF assms(1)] by (auto simp: Let_def)
qed simp

lemma stream_reply_full:
  assumes "negotiated_ok L ng" "us_failure resp = None"
    and "int (length (concat (us_chunks resp))) \<le> ng_max_body_size ng"
    and "cl = None \<or> cl = Some (int (length (concat (us_chunks resp))))"
  shows "answered_in_full (concat (us_chunks resp)) (stream_reply ng rid expected resp hs cl)"
proof -
  let ?n = "nat (ng_stream_chunk ng)" and ?len = "int (length (concat (us_chunks resp)))"
  have "0 < ?n" using assms(1) by (simp add: negotiated_ok_def)
  then obtain cs where plan: "response_plan ?n (ng_max_body_size ng) 0 (us_chunks resp) = (cs, Inr ?len)"
    and all: "concat cs = concat (us_chunks resp)"
    using response_plan_whole [of ?n 0 "us_chunks resp" "ng_max_body_size ng"] assms(3) by auto
  have fits: "\<not> exceeds cl (ng_max_body_size ng)" using assms(3,4) by auto
  then have "send_streaming_response ng expected cl (us_chunks resp) = (cs, Inr ())"
    using assms(4) by (auto simp: send_streaming_response_def plan)
  then have "stream_reply ng rid expected resp hs cl = Stream (HttpRespBegin rid (us_status resp) hs cl) cs None"
    unfolding stream_reply_def Let_def plan using fits assms(2) by simp
  with all show ?thesis by (simp add: answered_in_full_def)
qed

lemma read_response_full:
  assumes "negotiated_ok L ng" "good_response (response_body_limit ng) resp"
  shows "\<exists>reply. read_response L ng rid (JStr m) resp = Inr reply \<and> answered_in_full (concat (us_chunks resp)) reply"
proof -
  let ?len = "int (length (concat (us_chunks resp)))"
  obtain hs cl where meta: "response_metadata resp = Inr (hs, cl)" and cl: "cl = None \<or> cl = Some ?len"
    and whole: "us_failure resp = None" "?len \<le> response_body_limit ng"
    using assms(2) by (auto simp: good_response_def Let_def)
  have fits: "\<not> exceeds cl (response_body_limit ng)" using cl whole(2) by auto
  show ?thesis
  proof (cases "ng_protocol_version ng \<ge> PROTOCOL_VERSION \<and> (cl = None \<or> exceeds cl (tl_fast_path_body_bytes L))")
    case True
    then have "?len \<le> ng_max_body_size ng" using whole(2) by (simp add: response_body_limit_def)
    from stream_reply_full [OF assms(1) whole(1) this cl, of rid "body_expected m (us_status resp)" hs] True fits
    show ?thesis by (simp add: read_response_def meta)
  next
    case False
    have "read_response L ng rid (JStr m) resp
        = Inr (OneFrame (HttpResp rid (us_status resp) hs (b64_encode (concat (us_chunks resp)))))"
      using False fits whole by (auto simp: read_response_def meta)
    then show ?thesis by (simp add: answered_in_full_def b64_roundtrip)
  qed
qed

text \<open>A well-formed request whose response is good is answered in full, streamed or not.\<close>

lemma good_request_answered:
  assumes "negotiated_ok L ng"
    and "jget_or frame ''method'' (JStr ''GET'') = JStr m" "headers_for_rebuilt_request (jget frame ''headers'') = Inr hs"
    and "jget_or frame ''path'' (JStr ''/'') = JStr path" "http_target ip_ok upstream path = Inr url"
  shows "request_body frame = Inr body \<Longrightarrow> fetch (JStr m) url hs body = Inr resp
      \<Longrightarrow> good_response (response_body_limit ng) resp
      \<Longrightarrow> answered_in_full (concat (us_chunks resp)) (build_http_resp_frame ip_ok fetch upstream L ng rid frame)"
    and "sfetch (JStr m) url (hs @ (case cl of None \<Rightarrow> [] | Some n \<Rightarrow> [(''Content-Length'', str_int n)])) = Inr resp
      \<Longrightarrow> good_response (ng_max_body_size ng) resp
      \<Longrightarrow> answered_in_full (concat (us_chunks resp)) (stream_http_response ip_ok sfetch upstream ng rid cl frame)"
proof -
  assume "request_body frame = Inr body" "fetch (JStr m) url hs body = Inr resp"
    "good_response (response_body_limit ng) resp"
  with read_response_full [OF assms(1) this(3), of rid m] assms(2-5)
  show "answered_in_full (concat (us_chunks resp)) (build_http_resp_frame ip_ok fetch upstream L ng rid frame)"
    by (auto simp: build_http_resp_frame_def)
next
  assume "sfetch (JStr m) url (hs @ (case cl of None \<Rightarrow> [] | Some n \<Rightarrow> [(''Content-Length'', str_int n)])) = Inr resp"
    and good: "good_response (ng_max_body_size ng) resp"
  moreover obtain rhs rcl where "response_metadata resp = Inr (rhs, rcl)"
    and "answered_in_full (concat (us_chunks resp)) (stream_reply ng rid (body_expected m (us_status resp)) resp rhs rcl)"
    using good stream_reply_full [OF assms(1)] by (auto simp: good_response_def Let_def)
  ultimately show "answered_in_full (concat (us_chunks resp)) (stream_http_response ip_ok sfetch upstream ng rid cl frame)"
    using assms(2-5) by (simp add: stream_http_response_def)
qed

text \<open>What a streamed request is answered with.\<close>

lemma stream_http_response_cases:
  assumes "limits_ok L" "negotiated_ok L ng"
  shows "(\<exists>m. stream_http_response ip_ok fetch upstream ng rid cl frame = OneFrame (ErrorFrame rid m))
    \<or> (\<exists>url req_headers resp. fetch (jget_or frame ''method'' (JStr ''GET'')) url req_headers = Inr resp
         \<and> filter (\<lambda>h. py_lower (fst h) = ''content-length'') req_headers
             = (case cl of None \<Rightarrow> [] | Some n \<Rightarrow> [(''Content-Length'', str_int n)])
         \<and> (ng_protocol_version ng \<ge> PROTOCOL_VERSION \<longrightarrow>
              response_of ng resp rid (stream_http_response ip_ok fetch upstream ng rid cl frame)))"
proof -
  let ?meth = "jget_or frame ''method'' (JStr ''GET'')"
  define finish where "finish resp =
    (case ?meth of
       JStr m \<Rightarrow> bind_result (response_metadata resp) (\<lambda>(hs, cl).
         Inr (stream_reply ng rid (body_expected m (us_status resp)) resp hs cl))
     | _ \<Rightarrow> Inl (AttributeError ''upper''))" for resp
  define outcome where "outcome =
    bind_result (headers_for_rebuilt_request (jget frame ''headers'')) (\<lambda>hs.
    let req_headers = hs @ (case cl of None \<Rightarrow> [] | Some n \<Rightarrow> [(''Content-Length'', str_int n)]) in
    bind_result
      (case jget_or frame ''path'' (JStr ''/'') of
         JStr path \<Rightarrow> http_target ip_ok upstream path
       | _ \<Rightarrow> Inl (AttributeError ''lstrip'')) (\<lambda>url.
    case fetch ?meth url req_headers of
      Inl m \<Rightarrow> Inr (OneFrame (ErrorFrame rid m)) | Inr resp \<Rightarrow> finish resp))"
  have run: "stream_http_response ip_ok fetch upstream ng rid cl frame
      = (case outcome of Inl e \<Rightarrow> OneFrame (ErrorFrame rid (exc_text e)) | Inr r \<Rightarrow> r)"
    unfolding stream_http_response_def outcome_def finish_def Let_def by (rule refl)
  show ?thesis
  proof (cases outcome)
    case (Inr r)
    then obtain hs url where hs: "headers_for_rebuilt_request (jget frame ''headers'') = Inr hs"
      and r: "(case fetch ?meth url (hs @ (case cl of None \<Rightarrow> [] | Some n \<Rightarrow> [(''Content-Length'', str_int n)])) of
          Inl m \<Rightarrow> Inr (OneFrame (ErrorFrame rid m)) | Inr resp \<Rightarrow> finish resp) = Inr r"
      unfolding outcome_def bind_result_eq_Inr Let_def by blast
    have lower: "py_lower ''Content-Length'' = ''content-length''" by code_simp
    have "response_of ng resp rid r" if "finish resp = Inr r" "ng_protocol_version ng \<ge> PROTOCOL_VERSION" for resp
      using that stream_reply_response [OF assms that(2)]
      by (auto simp: finish_def response_metadata_def bind_result_eq_Inr split: json.splits)
    moreover define req where "req = hs @ (case cl of None \<Rightarrow> [] | Some n \<Rightarrow> [(''Content-Length'', str_int n)])"
    have "filter (\<lambda>h. py_lower (fst h) = ''content-length'') req
        = (case cl of None \<Rightarrow> [] | Some n \<Rightarrow> [(''Content-Length'', str_int n)])"
      using rebuilt_no_length [OF hs] lower by (auto simp: req_def split: option.splits)
    ultimately show ?thesis
      using r Inr unfolding req_def [symmetric] by (auto simp: run split: sum.splits) blast
  qed (simp add: run)
qed

text \<open>
  C8: What a fetch answers. Whatever frame the sandbox sends and whatever the upstream does, the answer
  is an error frame with the request's id, or the response of the upstream to one request, with the frame's
  headers and body: in one frame, with its status, its headers and its whole body, within the limit of the
  protocol version; or, on version 2 only, as a stream whose chunks fit the negotiated size and body limit and are a
  prefix of the body, all of it when the stream ends without an error. A body is never cut silently. A
  request whose body is streamed is answered in the same way, and the upstream is told exactly one length,
  the declared one, or none. And no error takes the place of an answer: when the request is well formed
  and its response has readable headers, does not break off, is within the limit and as long as
  declared, the whole of it is sent.
\<close>

theorem fetch_answers_faithfully:
  assumes "limits_ok L" "negotiated_ok L ng"
    and "build_http_resp_frame ip_ok fetch upstream L ng rid frame = reply"
    and "stream_http_response ip_ok sfetch upstream ng rid cl frame = streamed"
  shows "((\<exists>m. reply = OneFrame (ErrorFrame rid m))
      \<or> (\<exists>url req_headers body resp. fetch (jget_or frame ''method'' (JStr ''GET'')) url req_headers body = Inr resp
           \<and> headers_for_rebuilt_request (jget frame ''headers'') = Inr req_headers \<and> request_body frame = Inr body
           \<and> response_of ng resp rid reply))
    \<and> ((\<exists>m. streamed = OneFrame (ErrorFrame rid m))
      \<or> (\<exists>url req_headers resp. sfetch (jget_or frame ''method'' (JStr ''GET'')) url req_headers = Inr resp
           \<and> filter (\<lambda>h. py_lower (fst h) = ''content-length'') req_headers
               = (case cl of None \<Rightarrow> [] | Some n \<Rightarrow> [(''Content-Length'', str_int n)])
           \<and> (ng_protocol_version ng \<ge> PROTOCOL_VERSION \<longrightarrow> response_of ng resp rid streamed)))
    \<and> (\<forall>m hs path url. jget_or frame ''method'' (JStr ''GET'') = JStr m
        \<and> headers_for_rebuilt_request (jget frame ''headers'') = Inr hs
        \<and> jget_or frame ''path'' (JStr ''/'') = JStr path \<and> http_target ip_ok upstream path = Inr url \<longrightarrow>
        (\<forall>body resp. request_body frame = Inr body \<and> fetch (JStr m) url hs body = Inr resp
           \<and> good_response (response_body_limit ng) resp \<longrightarrow> answered_in_full (concat (us_chunks resp)) reply)
        \<and> (\<forall>resp. sfetch (JStr m) url (hs @ (case cl of None \<Rightarrow> [] | Some n \<Rightarrow> [(''Content-Length'', str_int n)])) = Inr resp
           \<and> good_response (ng_max_body_size ng) resp \<longrightarrow> answered_in_full (concat (us_chunks resp)) streamed))"
proof (intro conjI)
  let ?meth = "jget_or frame ''method'' (JStr ''GET'')"
  define outcome where "outcome =
    bind_result (headers_for_rebuilt_request (jget frame ''headers'')) (\<lambda>req_headers.
    bind_result (request_body frame) (\<lambda>body.
    bind_result
      (case jget_or frame ''path'' (JStr ''/'') of
         JStr path \<Rightarrow> http_target ip_ok upstream path
       | _ \<Rightarrow> Inl (AttributeError ''lstrip'')) (\<lambda>url.
    case fetch ?meth url req_headers body of
      Inl m \<Rightarrow> Inr (OneFrame (ErrorFrame rid m))
    | Inr resp \<Rightarrow> read_response L ng rid ?meth resp)))"
  have reply: "reply = (case outcome of Inl e \<Rightarrow> OneFrame (ErrorFrame rid (exc_text e)) | Inr r \<Rightarrow> r)"
    using assms(3) unfolding build_http_resp_frame_def Let_def outcome_def by simp
  show "(\<exists>m. reply = OneFrame (ErrorFrame rid m))
      \<or> (\<exists>url req_headers body resp. fetch ?meth url req_headers body = Inr resp
           \<and> headers_for_rebuilt_request (jget frame ''headers'') = Inr req_headers \<and> request_body frame = Inr body
           \<and> response_of ng resp rid reply)"
  proof (cases outcome)
    case (Inr r)
    then obtain req_headers body url where
      "headers_for_rebuilt_request (jget frame ''headers'') = Inr req_headers" "request_body frame = Inr body"
      "(case fetch ?meth url req_headers body of Inl m \<Rightarrow> Inr (OneFrame (ErrorFrame rid m))
        | Inr resp \<Rightarrow> read_response L ng rid ?meth resp) = Inr r"
      unfolding outcome_def bind_result_eq_Inr by blast
    then show ?thesis
      using Inr reply read_response_of [OF assms(1,2)] by (auto split: sum.splits) blast
  qed (simp add: reply)
next
  show "(\<exists>m. streamed = OneFrame (ErrorFrame rid m))
      \<or> (\<exists>url req_headers resp. sfetch (jget_or frame ''method'' (JStr ''GET'')) url req_headers = Inr resp
           \<and> filter (\<lambda>h. py_lower (fst h) = ''content-length'') req_headers
               = (case cl of None \<Rightarrow> [] | Some n \<Rightarrow> [(''Content-Length'', str_int n)])
           \<and> (ng_protocol_version ng \<ge> PROTOCOL_VERSION \<longrightarrow> response_of ng resp rid streamed))"
    using stream_http_response_cases [OF assms(1,2), of ip_ok sfetch upstream rid cl frame] assms(4) by simp
next
  show "\<forall>m hs path url. jget_or frame ''method'' (JStr ''GET'') = JStr m
        \<and> headers_for_rebuilt_request (jget frame ''headers'') = Inr hs
        \<and> jget_or frame ''path'' (JStr ''/'') = JStr path \<and> http_target ip_ok upstream path = Inr url \<longrightarrow>
        (\<forall>body resp. request_body frame = Inr body \<and> fetch (JStr m) url hs body = Inr resp
           \<and> good_response (response_body_limit ng) resp \<longrightarrow> answered_in_full (concat (us_chunks resp)) reply)
        \<and> (\<forall>resp. sfetch (JStr m) url (hs @ (case cl of None \<Rightarrow> [] | Some n \<Rightarrow> [(''Content-Length'', str_int n)])) = Inr resp
           \<and> good_response (ng_max_body_size ng) resp \<longrightarrow> answered_in_full (concat (us_chunks resp)) streamed)"
    unfolding assms(3,4) [symmetric]
    by (intro allI impI conjI; elim conjE) (rule good_request_answered [OF assms(2)]; assumption)+
qed

definition sample_response :: upstream_response where
  "sample_response =
     \<lparr>us_status = 200, us_headers = [([88], [89])], us_chunks = [[1, 2], [3]], us_failure = None\<rparr>"

theorem fetch_answers_faithfully_witness:
  "(let reply = build_http_resp_frame (\<lambda>_. False) (\<lambda>_ _ _ _. Inr sample_response) ''h'' (sample_limits 16 4)
        (sample_negotiated 5\<lparr>ng_protocol_version := 1\<rparr>) ''r'' []
    in reply = OneFrame (HttpResp ''r'' 200 [(''X'', ''Y'')] ''AQID'')
       \<and> response_of (sample_negotiated 5\<lparr>ng_protocol_version := 1\<rparr>) sample_response ''r'' reply)"
proof -
  let ?ng = "sample_negotiated 5\<lparr>ng_protocol_version := 1\<rparr>"
  let ?reply = "build_http_resp_frame (\<lambda>_. False) (\<lambda>_ _ _ _. Inr sample_response) ''h'' (sample_limits 16 4) ?ng ''r'' []"
  have "limits_ok (sample_limits 16 4)" by (simp add: limits_ok_def sample_limits_def)
  moreover have "negotiated_ok (sample_limits 16 4) ?ng"
    using sample_negotiated_ok [of 5] by (simp add: negotiated_ok_def)
  ultimately have "(\<exists>m. ?reply = OneFrame (ErrorFrame ''r'' m)) \<or> response_of ?ng sample_response ''r'' ?reply"
    using fetch_answers_faithfully [OF _ _ refl refl, of "sample_limits 16 4" ?ng "\<lambda>_. False"
      "\<lambda>_ _ _ _. Inr sample_response" "''h''" "''r''" "[]"] by auto
  moreover have "?reply = OneFrame (HttpResp ''r'' 200 [(''X'', ''Y'')] ''AQID'')" by code_simp
  ultimately show ?thesis by (simp add: Let_def)
qed

section \<open>Options of an upstream WebSocket\<close>

definition IGNORED_WS_HEADERS :: "string list" where
  "IGNORED_WS_HEADERS = [''connection'', ''content-length'', ''host'', ''sec-websocket-extensions'',
     ''sec-websocket-key'', ''sec-websocket-version'', ''upgrade'']"

definition ws_max_size :: "negotiated \<Rightarrow> int" where
  "ws_max_size ng =
     (if ng_protocol_version ng \<ge> PROTOCOL_VERSION then ng_max_ws_message_size ng
      else min (ng_max_body_size ng) MAX_V1_BODY_BYTES)"

text \<open>\<open>origin\<close> and \<open>subprotocols\<close> are left out of the options when they are empty.\<close>

record ws_options =
  wo_max_size :: int
  wo_headers :: jobj
  wo_origin :: json
  wo_subprotocols :: "string list"

definition ws_header :: "string \<times> json \<Rightarrow> ws_options \<Rightarrow> ws_options result" where
  "ws_header h opts =
     (let lower = py_lower (fst h) in
      if lower = ''origin'' then Inr (opts\<lparr>wo_origin := snd h\<rparr>)
      else if lower = ''sec-websocket-protocol'' then
        (case snd h of
           JStr v \<Rightarrow> Inr (opts\<lparr>wo_subprotocols :=
             filter (\<lambda>p. p \<noteq> []) (map py_strip (split_on (CHR '','') v))\<rparr>)
         | _ \<Rightarrow> Inl (AttributeError ''split''))
      else if lower \<notin> set IGNORED_WS_HEADERS then Inr (opts\<lparr>wo_headers := AList.update (fst h) (snd h) (wo_headers opts)\<rparr>)
      else Inr opts)"

fun fold_result :: "('a \<Rightarrow> 'b \<Rightarrow> 'e + 'b) \<Rightarrow> 'a list \<Rightarrow> 'b \<Rightarrow> 'e + 'b" where
  "fold_result f [] s = Inr s"
| "fold_result f (x # xs) s = bind_result (f x s) (fold_result f xs)"

definition websocket_options :: "negotiated \<Rightarrow> jobj \<Rightarrow> ws_options result" where
  "websocket_options ng frame =
     (case jor (jget frame ''headers'') (JObj []) of
        JObj headers \<Rightarrow>
          fold_result ws_header headers
            \<lparr>wo_max_size = ws_max_size ng, wo_headers = [], wo_origin = JNull, wo_subprotocols = []\<rparr>
      | _ \<Rightarrow> Inl (AttributeError ''items''))"

section \<open>The relays of a channel\<close>

text \<open>
  A message of the upstream, and what \<open>upstream_ws.send\<close> is given. A binary message travels as
  envelopes on version 2 and as base64 on version 1.
\<close>

datatype ws_message = WsText string | WsBinary "byte list"

datatype upstream_send = SendValue json | SendBytes "byte list"

definition ws_message_frame :: "string \<Rightarrow> string \<Rightarrow> bool \<Rightarrow> jobj" where
  "ws_message_frame rid data binary =
     [(''type'', JStr ''ws_message''), (''id'', JStr rid), (''data'', JStr data), (''binary'', JBool binary)]"

definition ws_fragments :: "nat \<Rightarrow> string \<Rightarrow> byte list \<Rightarrow> BinaryEnvelope list" where
  "ws_fragments n rid m =
     (let chunks = (if m = [] then [[]] else cut_chunk n m);
          chunk_count = max 1 ((length m + n - 1) div n)
      in map (\<lambda>(index, chunk).
           \<lparr>env_request_id = rid, env_kind = WS_BINARY_DATA, env_payload = chunk,
            env_end_of_body = (index + 1 = chunk_count), env_offset = None\<rparr>) (enumerate 0 chunks))"

text \<open>
  The length of a JSON string as \<open>json.dumps\<close> writes it, all that is not printable ASCII escaped, and
  of the text of a message frame, which \<open>send_frame\<close> does not let grow beyond 8 MiB.
\<close>

definition json_char_len :: "char \<Rightarrow> nat" where
  "json_char_len c =
     (let n = of_char c :: nat
      in if n \<in> {8, 9, 10, 12, 13, 34, 92} then 2 else if 32 \<le> n \<and> n \<le> 126 then 1 else 6)"

definition json_len :: "string \<Rightarrow> nat" where
  "json_len s = 2 + sum_list (map json_char_len s)"

definition message_frame_len :: "string \<Rightarrow> string \<Rightarrow> bool \<Rightarrow> nat" where
  "message_frame_len rid data binary =
     length ''{\"type\": \"ws_message\", \"id\": , \"data\": , \"binary\": }'' + json_len rid + json_len data
     + (if binary then 4 else 5)"

definition CONTROL_WS_MESSAGE_BYTES :: nat where
  "CONTROL_WS_MESSAGE_BYTES = 8 * 1024 * 1024"

definition message_items :: "string \<Rightarrow> string \<Rightarrow> bool \<Rightarrow> channel_item list result" where
  "message_items rid data binary =
     (if message_frame_len rid data binary > CONTROL_WS_MESSAGE_BYTES
      then Inl (ProtocolError ''tunnel control frame exceeds 8 MiB limit'')
      else Inr [ChanFrame (ws_message_frame rid data binary)])"

definition from_upstream :: "negotiated \<Rightarrow> string \<Rightarrow> ws_message \<Rightarrow> channel_item list result" where
  "from_upstream ng rid m =
     (case m of
        WsText s \<Rightarrow> message_items rid s False
      | WsBinary b \<Rightarrow>
          if ng_protocol_version ng \<ge> PROTOCOL_VERSION then
            (if int (length b) > ng_max_ws_message_size ng
             then Inl (ProtocolError ''WebSocket binary message exceeds tunnel limit'')
             else Inr (map ChanBinary (ws_fragments (nat (ng_stream_chunk ng)) rid b)))
          else message_items rid (b64_encode b) True)"

text \<open>How far \<open>from_sandbox\<close> gets on the items of its queue.\<close>

datatype relay_end = RelayWaits "byte list" | RelayClosed json json | RelayFailed py_exc

definition decode_ws_data :: "negotiated \<Rightarrow> jobj \<Rightarrow> upstream_send result" where
  "decode_ws_data ng frame =
     (let data = jget_or frame ''data'' (JStr []) in
      if truthy (jget_or frame ''binary'' (JBool False)) then
        (case data of
           JStr s \<Rightarrow>
             (case b64_decode s of
                None \<Rightarrow> Inl (ValueError ''Only base64 data is allowed'')
              | Some bs \<Rightarrow>
                  if int (length bs) > ws_max_size ng
                  then Inl (ProtocolError ''WebSocket binary message exceeds tunnel limit'')
                  else Inr (SendBytes bs))
         | _ \<Rightarrow> Inl (TypeError ''argument should be a bytes-like object or ASCII string''))
      else Inr (SendValue data))"

fun from_sandbox :: "negotiated \<Rightarrow> byte list \<Rightarrow> channel_item list \<Rightarrow> upstream_send list \<times> relay_end" where
  "from_sandbox ng incoming [] = ([], RelayWaits incoming)"
| "from_sandbox ng incoming (ChanBinary env # items) =
     (if env_kind env \<noteq> WS_BINARY_DATA
      then ([], RelayFailed (ProtocolError ''unexpected binary kind for WebSocket channel''))
      else if int (length incoming) + int (length (env_payload env)) > ng_max_ws_message_size ng
      then ([], RelayFailed (ProtocolError ''WebSocket binary message exceeds tunnel limit''))
      else
        let incoming = incoming @ env_payload env in
        if env_end_of_body env then apfst ((#) (SendBytes incoming)) (from_sandbox ng [] items)
        else from_sandbox ng incoming items)"
| "from_sandbox ng incoming (ChanFrame frame # items) =
     (let frame_type = jget frame ''type'' in
      if frame_type = JStr ''ws_message'' then
        (case decode_ws_data ng frame of
           Inl e \<Rightarrow> ([], RelayFailed e)
         | Inr out \<Rightarrow> apfst ((#) out) (from_sandbox ng incoming items))
      else if frame_type = JStr ''ws_close'' then
        ([], RelayClosed (jget_or frame ''code'' (JInt 1000)) (jget_or frame ''reason'' (JStr [])))
      else from_sandbox ng incoming items)"

section \<open>What the relays do to messages\<close>

fun as_sent :: "ws_message \<Rightarrow> upstream_send" where
  "as_sent (WsText s) = SendValue (JStr s)"
| "as_sent (WsBinary b) = SendBytes b"

text \<open>
  What an upstream connection opened with \<open>max_size\<close> can deliver and the tunnel can carry: binary messages
  within that size, and texts whose frame is within the limit of a frame.
\<close>

fun fits_tunnel :: "negotiated \<Rightarrow> string \<Rightarrow> ws_message \<Rightarrow> bool" where
  "fits_tunnel ng rid (WsText s) = (message_frame_len rid s False \<le> 8 * 1024 * 1024)"
| "fits_tunnel ng rid (WsBinary b) = (int (length b) \<le> ws_max_size ng)"

lemma json_char_len_6: "json_char_len c \<le> 6"
  by (simp add: json_char_len_def Let_def)

lemma json_len_6: "json_len s \<le> 2 + 6 * length s"
proof -
  have "sum_list (map json_char_len s) \<le> 6 * length s"
  proof (induction s)
    case (Cons c s)
    then show ?case using json_char_len_6 [of c] by simp
  qed simp
  then show ?thesis by (simp add: json_len_def)
qed

lemma b64_len: "length (b64_encode bs) = 4 * ((length bs + 2) div 3)"
proof (induction bs rule: b64_encode.induct)
  case (4 a b c rest)
  have "(length (a # b # c # rest) + 2) div 3 = Suc ((length rest + 2) div 3)" by simp
  with 4 show ?case by simp
qed simp_all

lemma b64_json_len: "json_len (b64_encode bs) = 2 + length (b64_encode bs)"
proof -
  have "list_all (\<lambda>c. json_char_len c = 1) b64_alphabet" by code_simp
  moreover have "length b64_alphabet = 64" by code_simp
  ultimately have "json_char_len (b64_char d) = 1" if "d < 64" for d
    using that by (simp add: b64_char_def list_all_length)
  moreover have "json_char_len PAD = 1" by code_simp
  ultimately have "\<forall>c\<in>set (b64_encode bs). json_char_len c = 1" using b64_encode_chars by blast
  then have "map json_char_len (b64_encode bs) = replicate (length (b64_encode bs)) 1"
    by (simp add: map_replicate_const [symmetric] cong: map_cong)
  then show ?thesis by (simp add: json_len_def sum_list_replicate)
qed

text \<open>A binary message of version 1 always fits a frame.\<close>

lemma v1_binary_fits:
  assumes "length rid \<le> 1000" "int (length b) \<le> 5242880"
  shows "message_items rid (b64_encode b) True = Inr [ChanFrame (ws_message_frame rid (b64_encode b) True)]"
proof -
  have "json_len (b64_encode b) \<le> 6990512" using assms(2) by (simp add: b64_json_len b64_len)
  moreover have "json_len rid \<le> 6002" using json_len_6 [of rid] assms(1) by simp
  ultimately show ?thesis by (simp add: message_items_def message_frame_len_def CONTROL_WS_MESSAGE_BYTES_def)
qed

text \<open>
  A text within the size that is accepted from the upstream may still not fit a frame, once it is escaped.
\<close>

lemma text_within_max_size_refused:
  "from_upstream (sample_negotiated 5\<lparr>ng_max_ws_message_size := 8388608\<rparr>) rid (WsText (replicate 4194304 (CHR 0x22)))
    = Inl (ProtocolError ''tunnel control frame exceeds 8 MiB limit'')"
proof -
  have "json_len (replicate n (CHR 0x22)) = 2 + 2 * n" for n
    by (simp add: json_len_def json_char_len_def sum_list_replicate)
  then show ?thesis by (simp add: from_upstream_def message_items_def message_frame_len_def CONTROL_WS_MESSAGE_BYTES_def)
qed

lemma length_cut_chunk: "0 < n \<Longrightarrow> length (cut_chunk n m) = (length m + n - 1) div n"
proof (induction n m rule: cut_chunk.induct)
  case (1 n m)
  show ?case
  proof (cases "m = []")
    case False
    with 1 have IH: "length (cut_chunk n (drop n m)) = (length (drop n m) + n - 1) div n" by simp
    have "cut_chunk n m = take n m # cut_chunk n (drop n m)"
      using False 1(2) by (subst cut_chunk.simps) simp
    moreover have "(length m + n - 1) div n = Suc ((length (drop n m) + n - 1) div n)"
    proof (cases "length m \<le> n")
      case True
      from False obtain k where k: "length m = Suc k" by (cases m) auto
      then have "(length m + n - 1) div n = (k + n) div n" by simp
      also have "\<dots> = 1" using True k 1(2) by simp
      finally show ?thesis using True 1(2) by simp
    next
      case False
      then have "length m + n - 1 = (length (drop n m) + n - 1) + n" using 1(2) by simp
      moreover have "(k + n) div n = Suc (k div n)" for k using 1(2) by simp
      ultimately show ?thesis by (simp only:)
    qed
    ultimately show ?thesis using IH by simp
  qed (use 1(2) in simp)
qed

definition fragment :: "string \<Rightarrow> nat \<Rightarrow> nat \<times> byte list \<Rightarrow> BinaryEnvelope" where
  "fragment rid chunk_count x =
     \<lparr>env_request_id = rid, env_kind = WS_BINARY_DATA, env_payload = snd x,
      env_end_of_body = (fst x + 1 = chunk_count), env_offset = None\<rparr>"

lemma ws_fragments_eq:
  assumes "0 < n"
  obtains chunks where "chunks \<noteq> []" "concat chunks = m" "\<forall>c\<in>set chunks. length c \<le> n"
    "length chunks = max 1 ((length m + n - 1) div n)"
    "ws_fragments n rid m = map (fragment rid (length chunks)) (enumerate 0 chunks)"
proof -
  define chunks where "chunks = (if m = [] then [[]] else cut_chunk n m)"
  have "cut_chunk n m \<noteq> []" if "m \<noteq> []" using that assms by (subst cut_chunk.simps) simp
  then have "chunks \<noteq> []" by (simp add: chunks_def)
  moreover have "concat chunks = m" using concat_cut_chunk [OF assms] by (simp add: chunks_def)
  moreover have "\<forall>c\<in>set chunks. length c \<le> n" using cut_chunk_size by (auto simp: chunks_def)
  moreover have len: "length chunks = max 1 ((length m + n - 1) div n)"
    using length_cut_chunk [OF assms] \<open>chunks \<noteq> []\<close> assms
    by (cases "m = []") (auto simp: chunks_def max_def Suc_le_eq simp flip: length_greater_0_conv)
  moreover have "ws_fragments n rid m = map (fragment rid (length chunks)) (enumerate 0 chunks)"
    unfolding ws_fragments_def Let_def chunks_def [symmetric] len [symmetric]
    by (simp add: fragment_def case_prod_unfold)
  ultimately show thesis by (rule that)
qed

lemma from_sandbox_fragments:
  assumes "chunks \<noteq> []" "int (length incoming + length (concat chunks)) \<le> ng_max_ws_message_size ng"
  shows "from_sandbox ng incoming (map ChanBinary (map (fragment rid (k + length chunks)) (enumerate k chunks)) @ items)
    = apfst ((#) (SendBytes (incoming @ concat chunks))) (from_sandbox ng [] items)"
  using assms
proof (induction chunks arbitrary: incoming k)
  case (Cons c chunks)
  show ?case
  proof (cases "chunks = []")
    case True
    with Cons.prems show ?thesis by (simp add: fragment_def)
  next
    case False
    have "int (length (incoming @ c) + length (concat chunks)) \<le> ng_max_ws_message_size ng"
      using Cons.prems by simp
    from Cons.IH [OF False this, of "Suc k"] False Cons.prems show ?thesis
      by (simp add: fragment_def)
  qed
qed simp

lemma relay_message:
  assumes "limits_ok L" "negotiated_ok L ng" "fits_tunnel ng rid m" "length rid \<le> 1000"
  obtains items where "from_upstream ng rid m = Inr items"
    "\<And>rest. from_sandbox ng [] (items @ rest) = apfst ((#) (as_sent m)) (from_sandbox ng [] rest)"
    "int (length items) \<le> channel_limit ng"
    "\<And>env. ChanBinary env \<in> set items \<Longrightarrow> env_request_id env = rid \<and> env_offset env = None
       \<and> int (length (env_payload env)) \<le> ng_stream_chunk ng"
proof (cases m)
  case (WsText s)
  have "1 \<le> channel_limit ng"
    using assms(2) by (auto simp: channel_limit_def WS_CHANNEL_QUEUE_LIMIT_def negotiated_ok_def pos_imp_zdiv_nonneg_iff)
  with WsText show ?thesis
    by (intro that [of "[ChanFrame (ws_message_frame rid s False)]"])
       (use assms(3) in \<open>simp_all add: from_upstream_def message_items_def CONTROL_WS_MESSAGE_BYTES_def
          ws_message_frame_def decode_ws_data_def jget_def jget_or_def\<close>)
next
  case (WsBinary b)
  show ?thesis
  proof (cases "ng_protocol_version ng \<ge> PROTOCOL_VERSION")
    case True
    let ?n = "nat (ng_stream_chunk ng)"
    have size: "int (length b) \<le> ng_max_ws_message_size ng"
      using assms(3) WsBinary True by (simp add: ws_max_size_def)
    have "0 < ?n" using assms(2) by (simp add: negotiated_ok_def)
    then obtain chunks where chunks: "chunks \<noteq> []" "concat chunks = b" "\<forall>c\<in>set chunks. length c \<le> ?n"
      "length chunks = max 1 ((length b + ?n - 1) div ?n)"
      "ws_fragments ?n rid b = map (fragment rid (length chunks)) (enumerate 0 chunks)"
      by (rule ws_fragments_eq)
    have "int ((length b + ?n - 1) div ?n) = (int (length b) + ng_stream_chunk ng - 1) div ng_stream_chunk ng"
      using \<open>0 < ?n\<close> by (simp add: zdiv_int of_nat_diff)
    also have "\<dots> \<le> (ng_max_ws_message_size ng + ng_stream_chunk ng - 1) div ng_stream_chunk ng"
      using size \<open>0 < ?n\<close> by (intro zdiv_mono1) simp_all
    finally have "int (length chunks) \<le> max 1 ((ng_max_ws_message_size ng + ng_stream_chunk ng - 1) div ng_stream_chunk ng)"
      unfolding chunks(4) by (simp only: of_nat_max of_nat_1)
    moreover have "0 \<le> (ng_max_ws_message_size ng + ng_stream_chunk ng - 1) div ng_stream_chunk ng"
      using assms(2) by (simp add: negotiated_ok_def pos_imp_zdiv_nonneg_iff)
    ultimately have "int (length chunks) \<le> channel_limit ng" using True by (simp add: channel_limit_def)
    then have fits: "int (length (map ChanBinary (ws_fragments ?n rid b))) \<le> channel_limit ng"
      by (simp add: chunks(5))
    have relayed: "from_sandbox ng [] (map ChanBinary (ws_fragments ?n rid b) @ rest)
        = apfst ((#) (SendBytes b)) (from_sandbox ng [] rest)" for rest
      using from_sandbox_fragments [OF chunks(1), of "[]" ng rid 0 rest] size by (simp add: chunks)
    have pieces: "env_request_id env = rid \<and> env_offset env = None \<and> int (length (env_payload env)) \<le> ng_stream_chunk ng"
      if "ChanBinary env \<in> set (map ChanBinary (ws_fragments ?n rid b))" for env
    proof -
      from that obtain x where "x \<in> set (enumerate 0 chunks)" "env = fragment rid (length chunks) x"
        unfolding chunks(5) by auto
      moreover from imageI [OF this(1), of snd] have "snd x \<in> set (map snd (enumerate 0 chunks))"
        by (simp only: set_map)
      ultimately show ?thesis
        using chunks(3) \<open>0 < ?n\<close> unfolding map_snd_enumerate by (auto simp: fragment_def zle_int [symmetric])
    qed
    have "from_upstream ng rid m = Inr (map ChanBinary (ws_fragments ?n rid b))"
      using True WsBinary size by (simp add: from_upstream_def)
    moreover have "as_sent m = SendBytes b" by (simp add: WsBinary)
    ultimately show ?thesis using that [of "map ChanBinary (ws_fragments ?n rid b)"] relayed fits pieces by presburger
  next
    case False
    then have "channel_limit ng = 100" by (simp add: channel_limit_def WS_CHANNEL_QUEUE_LIMIT_def)
    moreover have "int (length b) \<le> 5242880"
      using False WsBinary assms(3) by (simp add: ws_max_size_def MAX_V1_BODY_BYTES_def)
    ultimately show ?thesis
      using False WsBinary assms(3) v1_binary_fits [OF assms(4)]
      by (intro that [of "[ChanFrame (ws_message_frame rid (b64_encode b) True)]"])
         (simp_all add: from_upstream_def ws_message_frame_def decode_ws_data_def jget_def jget_or_def b64_roundtrip)
  qed
qed

lemma encodable_decodes:
  assumes "canonical_id (env_request_id env) = Some (env_request_id env)" "env_offset env = None"
    and "int (length (env_payload env)) \<le> m" "m < 2 ^ 32"
  shows "\<exists>raw. BinaryEnvelope_encode env m = Inr raw \<and> BinaryEnvelope_decode raw m = Inr env"
proof -
  obtain u where "uuid_parse (env_request_id env) = Some u" using assms(1) by (auto simp: canonical_id_def)
  moreover have "length (wire_payload env) < 2 ^ 32" using assms(2-4) by (simp add: wire_payload_def)
  ultimately obtain raw where "BinaryEnvelope_encode env m = Inr raw"
    using assms(2,3) unfolding encode_eq_Inr by (auto simp: pack_header_def)
  moreover from this have "BinaryEnvelope_decode raw m = Inr env"
    using decode_encoded assms(1) by (simp add: canonical_envelope_def)
  ultimately show ?thesis by blast
qed

text \<open>What \<open>from_upstream\<close> makes of messages within the limits, and \<open>from_sandbox\<close> makes of that.\<close>

lemma relayed_messages:
  assumes "limits_ok L" "negotiated_ok L ng" "\<forall>m\<in>set ms. fits_tunnel ng rid m" "length rid \<le> 1000"
  shows "\<exists>pieces. map_result (from_upstream ng rid) ms = Inr pieces
    \<and> from_sandbox ng [] (concat pieces) = (map as_sent ms, RelayWaits [])
    \<and> (\<forall>items\<in>set pieces. int (length items) \<le> channel_limit ng)
    \<and> (canonical_id rid = Some rid \<longrightarrow>
        (\<forall>env. ChanBinary env \<in> set (concat pieces) \<longrightarrow>
          (\<exists>raw. BinaryEnvelope_encode env (ng_stream_chunk ng) = Inr raw
             \<and> BinaryEnvelope_decode raw (ng_stream_chunk ng) = Inr env)))"
  using assms(3)
proof (induction ms)
  case (Cons m ms)
  then obtain pieces where pieces: "map_result (from_upstream ng rid) ms = Inr pieces"
    "from_sandbox ng [] (concat pieces) = (map as_sent ms, RelayWaits [])"
    "\<forall>items\<in>set pieces. int (length items) \<le> channel_limit ng"
    "canonical_id rid = Some rid \<longrightarrow> (\<forall>env. ChanBinary env \<in> set (concat pieces) \<longrightarrow>
       (\<exists>raw. BinaryEnvelope_encode env (ng_stream_chunk ng) = Inr raw
          \<and> BinaryEnvelope_decode raw (ng_stream_chunk ng) = Inr env))"
    by auto
  from Cons.prems have "fits_tunnel ng rid m" by simp
  then obtain items where items: "from_upstream ng rid m = Inr items"
    "\<And>rest. from_sandbox ng [] (items @ rest) = apfst ((#) (as_sent m)) (from_sandbox ng [] rest)"
    "int (length items) \<le> channel_limit ng"
    "\<And>env. ChanBinary env \<in> set items \<Longrightarrow> env_request_id env = rid \<and> env_offset env = None
       \<and> int (length (env_payload env)) \<le> ng_stream_chunk ng"
    using relay_message [OF assms(1,2) _ assms(4)] by metis
  have "ng_stream_chunk ng < 2 ^ 32" using assms(1,2) by (simp add: limits_ok_def negotiated_ok_def)
  then have "\<exists>raw. BinaryEnvelope_encode env (ng_stream_chunk ng) = Inr raw
      \<and> BinaryEnvelope_decode raw (ng_stream_chunk ng) = Inr env"
    if "canonical_id rid = Some rid" "ChanBinary env \<in> set items" for env
    using items(4) [OF that(2)] that(1) encodable_decodes [of env "ng_stream_chunk ng"] by blast
  then show ?case using items(1-3) pieces by (intro exI [of _ "items # pieces"]) auto
qed simp

text \<open>
  Whatever is queued on a channel, in whatever order, what reaches the upstream is bounded: no binary
  message longer than the negotiated limits, and no more than a message's worth kept.
\<close>

definition relay_bounded :: "negotiated \<Rightarrow> upstream_send list \<times> relay_end \<Rightarrow> bool" where
  "relay_bounded ng r \<longleftrightarrow>
     (\<forall>b. SendBytes b \<in> set (fst r) \<longrightarrow> int (length b) \<le> max (ng_max_ws_message_size ng) (ws_max_size ng))
     \<and> (\<forall>left. snd r = RelayWaits left \<longrightarrow> int (length left) \<le> ng_max_ws_message_size ng)"

lemma relay_bounded_Cons:
  "relay_bounded ng r \<Longrightarrow> (\<forall>b. out = SendBytes b \<longrightarrow> int (length b) \<le> max (ng_max_ws_message_size ng) (ws_max_size ng))
    \<Longrightarrow> relay_bounded ng (apfst ((#) out) r)"
  by (auto simp: relay_bounded_def)

lemma relay_bounded_Nil:
  "\<forall>left. fin \<noteq> RelayWaits left \<Longrightarrow> relay_bounded ng ([], fin)"
  by (simp add: relay_bounded_def)

lemma from_sandbox_bounded:
  "int (length incoming) \<le> ng_max_ws_message_size ng \<Longrightarrow> relay_bounded ng (from_sandbox ng incoming items)"
proof (induction items arbitrary: incoming)
  case Nil
  then show ?case by (simp add: relay_bounded_def)
next
  case (Cons item items)
  have "0 \<le> ng_max_ws_message_size ng" using Cons.prems by simp
  show ?case
  proof (cases item)
    case (ChanBinary env)
    with Cons.prems \<open>0 \<le> ng_max_ws_message_size ng\<close> show ?thesis
      by (auto simp: Let_def intro!: relay_bounded_Cons relay_bounded_Nil Cons.IH)
  next
    case (ChanFrame frame)
    with Cons.prems show ?thesis
      by (auto simp: Let_def decode_ws_data_def intro!: relay_bounded_Cons relay_bounded_Nil Cons.IH
          split: json.splits option.splits)
  qed
qed

end
