(* ===== verification/TunnelChannels.thy ===== *)
theory TunnelChannels
  imports TunnelRelay
begin

text \<open>
  A WebSocket channel from end to end (\<open>handle_ws_connect\<close>): how its task begins and ends, and what
  happens to the items that the receive loop puts into its queue. The first part is the task, with the
  WebSocket client as a parameter; the second ties the queue of \<open>TunnelLoop\<close> to the relays of
  \<open>TunnelRelay\<close>.
\<close>

section \<open>The task of a channel\<close>

text \<open>
  How the upstream connection and the relays went: the errors of the relays that were done when the
  first of them ended, in the order they are looked at, and the close code and reason of the upstream.
\<close>

record relays_outcome =
  ro_failures :: "string list"
  ro_close_code :: "int option"
  ro_close_reason :: "string option"

definition ws_close_frame :: "string \<Rightarrow> relays_outcome \<Rightarrow> out_frame" where
  "ws_close_frame rid ro =
     WsClose rid (case ro_close_code ro of None \<Rightarrow> 1000 | Some code \<Rightarrow> if code = 0 then 1000 else code)
       (case ro_close_reason ro of None \<Rightarrow> [] | Some reason \<Rightarrow> reason)"

definition relays_end :: "string \<Rightarrow> relays_outcome \<Rightarrow> out_frame" where
  "relays_end rid ro =
     (case ro_failures ro of m # _ \<Rightarrow> ErrorFrame rid m | [] \<Rightarrow> ws_close_frame rid ro)"

text \<open>
  \<open>handle_ws_connect\<close>: whether the channel was connected, and the last frame. \<open>connect url options\<close> is
  \<open>ws_client.connect\<close>: the text of an error, or how the relays over the connection went.
\<close>

definition handle_ws_connect ::
  "(string \<Rightarrow> bool) \<Rightarrow> (string \<Rightarrow> ws_options \<Rightarrow> string + relays_outcome) \<Rightarrow> string \<Rightarrow> negotiated \<Rightarrow> string
     \<Rightarrow> jobj \<Rightarrow> out_frame list" where
  "handle_ws_connect ip_ok connect upstream ng rid frame =
     (let outcome =
        bind_result
          (case jget_or frame ''path'' (JStr ''/'') of
             JStr path \<Rightarrow> websocket_target ip_ok upstream path
           | _ \<Rightarrow> Inl (AttributeError ''lstrip'')) (\<lambda>url.
        bind_result (websocket_options ng frame) (\<lambda>options.
          Inr (connect url options)))
      in case outcome of
           Inl e \<Rightarrow> [ErrorFrame rid (exc_text e)]
         | Inr (Inl m) \<Rightarrow> [ErrorFrame rid m]
         | Inr (Inr ro) \<Rightarrow> [WsConnected rid, relays_end rid ro])"

section \<open>What goes through a channel's queue\<close>

definition waiting :: "string \<Rightarrow> conn \<Rightarrow> channel_item list option" where
  "waiting rid c = map_option ch_queue (map_of (cn_channels c) rid)"

text \<open>The item a message carries for a channel, under the chunk size in force.\<close>

definition message_item :: "int \<Rightarrow> string \<Rightarrow> message \<Rightarrow> channel_item list" where
  "message_item chunk rid m =
     (case m of
        BytesMessage raw \<Rightarrow>
          (case BinaryEnvelope_decode raw chunk of
             Inl e \<Rightarrow> []
           | Inr env \<Rightarrow> if env_kind env = WS_BINARY_DATA \<and> env_request_id env = rid then [ChanBinary env] else [])
      | TextMessage None \<Rightarrow> []
      | TextMessage (Some v) \<Rightarrow>
          (case as_obj v of
             None \<Rightarrow> []
           | Some frame \<Rightarrow>
               if (jget frame ''type'' = JStr ''ws_message'' \<or> jget frame ''type'' = JStr ''ws_close'')
                  \<and> jget_or frame ''id'' (JStr []) = JStr rid then [ChanFrame frame] else []))"

definition item_in :: "string \<Rightarrow> label \<Rightarrow> conn \<Rightarrow> channel_item list" where
  "item_in rid l c =
     (case l of Receive now m \<Rightarrow> message_item (ng_stream_chunk (cn_neg c)) rid m | _ \<Rightarrow> [])"

definition item_out :: "string \<Rightarrow> label \<Rightarrow> conn \<Rightarrow> channel_item list" where
  "item_out rid l c =
     (if l = ChannelTake rid then (case waiting rid c of Some (x # _) \<Rightarrow> [x] | _ \<Rightarrow> []) else [])"

text \<open>Over a run: the items that arrive for a channel, those its task takes, and whether it stays open.\<close>

fun items_in :: "tunnel_limits \<Rightarrow> string \<Rightarrow> label list \<Rightarrow> conn \<Rightarrow> channel_item list" where
  "items_in L rid [] c = []"
| "items_in L rid (l # ls) c =
     item_in rid l c @ (case conn_step L l c of None \<Rightarrow> [] | Some c' \<Rightarrow> items_in L rid ls c')"

fun items_out :: "tunnel_limits \<Rightarrow> string \<Rightarrow> label list \<Rightarrow> conn \<Rightarrow> channel_item list" where
  "items_out L rid [] c = []"
| "items_out L rid (l # ls) c =
     item_out rid l c @ (case conn_step L l c of None \<Rightarrow> [] | Some c' \<Rightarrow> items_out L rid ls c')"

fun stays_open :: "tunnel_limits \<Rightarrow> string \<Rightarrow> label list \<Rightarrow> conn \<Rightarrow> bool" where
  "stays_open L rid [] c \<longleftrightarrow> waiting rid c \<noteq> None"
| "stays_open L rid (l # ls) c \<longleftrightarrow>
     waiting rid c \<noteq> None \<and> (case conn_step L l c of None \<Rightarrow> False | Some c' \<Rightarrow> stays_open L rid ls c')"

lemma stays_openD: "stays_open L rid ls c \<Longrightarrow> \<exists>xs. waiting rid c = Some xs"
  by (cases ls) auto

lemma waiting_same: "cn_channels c' = cn_channels c \<Longrightarrow> waiting rid c' = waiting rid c"
  by (simp add: waiting_def)

section \<open>The queue is first in, first out\<close>

text \<open>One step of a channel that is open before and after it: it loses its head when the task takes it, and what arrives goes to the end.\<close>

definition fifo_step :: "string \<Rightarrow> channel_item list \<Rightarrow> channel_item list \<Rightarrow> conn \<Rightarrow> conn \<Rightarrow> bool" where
  "fifo_step rid ins outs c c' \<longleftrightarrow>
     (\<forall>xs ys. waiting rid c = Some xs \<and> waiting rid c' = Some ys \<longrightarrow> xs @ ins = outs @ ys)"

lemma fifo_step_same: "cn_channels c' = cn_channels c \<Longrightarrow> fifo_step rid [] [] c c'"
  by (auto simp: fifo_step_def waiting_def)

lemma fifo_step_closed: "waiting rid c = None \<or> waiting rid c' = None \<Longrightarrow> fifo_step rid ins outs c c'"
  by (auto simp: fifo_step_def)

lemma waiting_delete: "cn_channels c' = AList.delete rid' (cn_channels c) \<Longrightarrow>
    waiting rid c' = (if rid = rid' then None else waiting rid c)"
  by (simp add: waiting_def delete_conv')

lemma fifo_delete: "cn_channels c' = AList.delete rid' (cn_channels c) \<Longrightarrow> fifo_step rid [] [] c c'"
  by (auto simp: fifo_step_def waiting_delete [where c' = c' and c = c])

lemma waiting_update: "cn_channels c' = AList.update rid' ch (cn_channels c) \<Longrightarrow>
    waiting rid c' = (if rid = rid' then Some (ch_queue ch) else waiting rid c)"
  by (simp add: waiting_def update_conv')

lemma push_channel_fifo:
  assumes "map_of (cn_channels c) rid' = Some ch"
  shows "fifo_step rid (if rid' = rid then [item] else []) [] c (push_channel now rid' ch item c)"
proof (cases "channel_full ch")
  case True
  then have "cn_channels (push_channel now rid' ch item c) = AList.delete rid' (cn_channels c)"
    by (simp add: push_channel_def)
  note waiting_delete [OF this, of rid]
  then show ?thesis by (auto simp: fifo_step_def)
next
  case False
  then have "cn_channels (push_channel now rid' ch item c)
      = AList.update rid' (ch\<lparr>ch_queue := ch_queue ch @ [item]\<rparr>) (cn_channels c)"
    by (simp add: push_channel_def)
  note waiting_update [OF this, of rid]
  moreover have "waiting rid' c = Some (ch_queue ch)" using assms by (simp add: waiting_def)
  ultimately show ?thesis by (auto simp: fifo_step_def)
qed

lemma recv_ws_frame_fifo:
  "fifo_step rid (if rid' = rid then [ChanFrame frame] else []) [] c (recv_ws_frame now frame rid' c)"
proof (cases "map_of (cn_channels c) rid'")
  case None
  then show ?thesis by (auto simp: recv_ws_frame_def fifo_step_def waiting_def)
qed (simp add: recv_ws_frame_def push_channel_fifo)

lemma recv_ws_binary_fifo:
  "fifo_step rid (if env_request_id env = rid then [ChanBinary env] else []) [] c (recv_ws_binary now env c)"
proof (cases "map_of (cn_channels c) (env_request_id env)")
  case None
  then have "cn_channels (recv_ws_binary now env c) = cn_channels c" by (simp add: recv_ws_binary_def)
  with None show ?thesis by (auto simp: fifo_step_def waiting_def)
qed (simp add: recv_ws_binary_def push_channel_fifo)

lemma recv_ws_connect_fifo: "fifo_step rid [] [] c (recv_ws_connect now rid' c)"
proof (cases "map_of (cn_channels c) rid'")
  case None
  then have "cn_channels (recv_ws_connect now rid' c) = cn_channels c
      \<or> (\<exists>ch. cn_channels (recv_ws_connect now rid' c) = AList.update rid' ch (cn_channels c))"
    by (simp add: recv_ws_connect_def Let_def split: prod.split) blast
  then consider "cn_channels (recv_ws_connect now rid' c) = cn_channels c"
    | ch where "cn_channels (recv_ws_connect now rid' c) = AList.update rid' ch (cn_channels c)"
    by blast
  then show ?thesis
  proof cases
    case (2 ch)
    moreover have "waiting rid' c = None" using None by (simp add: waiting_def)
    ultimately show ?thesis using waiting_update [OF 2, of rid] by (auto simp: fifo_step_def)
  qed (rule fifo_step_same)
next
  case (Some ch)
  then have "cn_channels (recv_ws_connect now rid' c) = cn_channels c"
    by (simp add: recv_ws_connect_def Let_def)
  then show ?thesis by (rule fifo_step_same)
qed

lemma recv_error_fifo: "fifo_step rid [] [] c (recv_error now rid' c)"
proof -
  have "cn_channels (recv_error now rid' c) = cn_channels c
      \<or> cn_channels (recv_error now rid' c) = AList.delete rid' (cn_channels c)"
    by (simp add: recv_error_def Let_def split: option.split)
  then show ?thesis by (auto intro: fifo_step_same fifo_delete)
qed

lemma with_id_fifo:
  assumes "\<And>rid'. fifo_step rid [] [] c (k rid' c)"
  shows "fifo_step rid [] [] c (with_id frame k c)"
proof (cases "jget_or frame ''id'' (JStr [])")
  case (JStr rid')
  then show ?thesis by (simp add: with_id_def assms)
qed (auto simp: with_id_def intro: fifo_step_same)

lemma with_id_frame_fifo:
  "fifo_step rid (if jget_or frame ''id'' (JStr []) = JStr rid then [ChanFrame frame] else []) []
     c (with_id frame (recv_ws_frame now frame) c)"
proof (cases "jget_or frame ''id'' (JStr [])")
  case (JStr rid')
  then show ?thesis using recv_ws_frame_fifo [of rid rid' frame c now] by (simp add: with_id_def)
qed (auto simp: with_id_def intro: fifo_step_same)

lemma recv_frame_fifo:
  "fifo_step rid
     (if (jget frame ''type'' = JStr ''ws_message'' \<or> jget frame ''type'' = JStr ''ws_close'')
         \<and> jget_or frame ''id'' (JStr []) = JStr rid then [ChanFrame frame] else []) []
     c (recv_frame L now frame c)"
proof (cases "jget frame ''type'' = JStr ''ws_message'' \<or> jget frame ''type'' = JStr ''ws_close''")
  case True
  then have "recv_frame L now frame c = with_id frame (recv_ws_frame now frame) c"
    by (auto simp: recv_frame_def)
  with True with_id_frame_fifo [of rid frame c now] show ?thesis by simp
next
  case False
  have "fifo_step rid [] [] c (recv_frame L now frame c)"
    unfolding recv_frame_def Let_def using False
    by (auto intro!: with_id_fifo intro: fifo_step_same recv_error_fifo recv_ws_connect_fifo)
  with False show ?thesis by simp
qed

lemma recv_binary_fifo:
  "fifo_step rid (message_item (ng_stream_chunk (cn_neg c)) rid (BytesMessage raw)) [] c (recv_binary now raw c)"
proof (cases "BinaryEnvelope_decode raw (ng_stream_chunk (cn_neg c))")
  case (Inr env)
  show ?thesis
  proof (cases "env_kind env = WS_BINARY_DATA")
    case True
    with Inr recv_ws_binary_fifo [of rid env c now] show ?thesis
      by (simp add: recv_binary_def message_item_def)
  next
    case False
    then have "cn_channels (recv_binary now raw c) = cn_channels c" using Inr by (simp add: recv_binary_def)
    from fifo_step_same [OF this] False Inr show ?thesis by (simp add: message_item_def)
  qed
qed (auto simp: recv_binary_def message_item_def intro: fifo_step_same)

lemma receive_fifo:
  "fifo_step rid (message_item (ng_stream_chunk (cn_neg c)) rid m) [] c (receive L now m c)"
proof (cases m)
  case (BytesMessage raw)
  then show ?thesis using recv_binary_fifo by (simp add: receive_def)
next
  case (TextMessage v)
  show ?thesis
  proof (cases "v = None \<or> as_obj (the v) = None")
    case True
    then show ?thesis using TextMessage
      by (auto simp: receive_def message_item_def intro: fifo_step_same split: option.split)
  next
    case False
    then obtain w frame where "v = Some w" "as_obj w = Some frame" by auto
    then show ?thesis using TextMessage recv_frame_fifo [of rid frame c L now]
      by (simp add: receive_def message_item_def)
  qed
qed

lemma take_item_waiting:
  "waiting rid (take_item rid' c) = (if rid = rid' then map_option tl (waiting rid c) else waiting rid c)"
proof -
  have "map_of (map (\<lambda>(k, ch). (k, if k = rid' then ch\<lparr>ch_queue := tl (ch_queue ch)\<rparr> else ch)) chs) rid
      = map_option (\<lambda>ch. if rid = rid' then ch\<lparr>ch_queue := tl (ch_queue ch)\<rparr> else ch) (map_of chs rid)" for chs
    by (induction chs) auto
  note this [of "cn_channels c"]
  then show ?thesis
    by (cases "rid = rid'") (simp_all add: waiting_def take_item_def option.map_comp comp_def)
qed

lemma step_task_fifo:
  assumes "step_task l c = Some c'"
  shows "fifo_step rid [] (item_out rid l c) c c'"
proof (cases l)
  case (ChannelTake rid')
  with assms have c': "c' = take_item rid' c" and there: "item_waiting rid' c"
    by (auto simp: step_task_def split: if_splits)
  then have "waiting rid' c \<noteq> Some []"
    by (auto simp: item_waiting_def waiting_def split: option.splits)
  then show ?thesis
    by (auto simp: fifo_step_def item_out_def ChannelTake c' take_item_waiting split: option.splits list.splits)
next
  case (ChannelEnd now rid' ws)
  with assms have "cn_channels c' = cn_channels c \<or> cn_channels c' = AList.delete rid' (cn_channels c)"
    by (auto simp: step_task_def end_channel_def dest!: task_send_channels split: if_splits prod.splits bool.splits)
  with ChannelEnd show ?thesis by (auto simp: item_out_def intro: fifo_step_same fifo_delete)
qed (use assms in \<open>auto simp: step_task_def finish_stream_def finish_fetch_def item_out_def dest!: task_send_channels
      intro!: fifo_step_same split: if_splits option.splits prod.splits bool.splits\<close>)

lemma conn_step_fifo:
  assumes "conn_step L l c = Some c'"
  shows "fifo_step rid (item_in rid l c) (item_out rid l c) c c'"
proof -
  have loop: ?thesis if "conn_step L l c = step_loop l c" "item_in rid l c = []" "item_out rid l c = []"
    using that assms fifo_step_same [OF step_loop_channels, of l c c' rid] by simp
  have task: ?thesis if "conn_step L l c = step_task l c" "item_in rid l c = []"
    using that assms step_task_fifo by simp
  show ?thesis
  proof (cases l)
    case (Receive now m)
    then show ?thesis using assms receive_fifo [of rid c m L now]
      by (simp add: conn_step_def item_in_def item_out_def split: if_splits)
  next
    case (LeaveLoop now)
    then have "c' = leave_loop now c"
      using assms by (auto simp: conn_step_def split: loop_state.splits if_splits)
    then have "waiting rid c' = None" by (simp add: waiting_def leave_loop_def)
    then show ?thesis by (intro fifo_step_closed) simp
  next
    case Reconnect
    then have "cn_channels c' = cn_channels c" using assms by (auto simp: conn_step_def split: if_splits)
    with Reconnect show ?thesis by (auto simp: item_in_def item_out_def intro: fifo_step_same)
  next
    case PutMarker show ?thesis by (rule loop) (simp_all add: PutMarker conn_step_def item_in_def item_out_def)
  next
    case ResumeSend show ?thesis by (rule loop) (simp_all add: ResumeSend conn_step_def item_in_def item_out_def)
  next
    case ReplayTurn show ?thesis by (rule loop) (simp_all add: ReplayTurn conn_step_def item_in_def item_out_def)
  qed (rule task; simp add: conn_step_def item_in_def)+
qed

text \<open>Over a run: what was waiting and what arrived is what was taken and what waits at the end.\<close>

lemma channel_fifo:
  assumes "conn_run L ls c = Some c'" "stays_open L rid ls c" "waiting rid c = Some xs"
  shows "\<exists>ys. waiting rid c' = Some ys \<and> xs @ items_in L rid ls c = items_out L rid ls c @ ys"
  using assms
proof (induction ls arbitrary: c xs)
  case (Cons l ls)
  from Cons.prems(1) obtain d where d: "conn_step L l c = Some d" "conn_run L ls d = Some c'"
    by (auto split: option.splits)
  with Cons.prems(2) have open': "stays_open L rid ls d" by simp
  then obtain zs where zs: "waiting rid d = Some zs" using stays_openD by blast
  from conn_step_fifo [OF d(1), of rid] have step: "xs @ item_in rid l c = item_out rid l c @ zs"
    using Cons.prems(3) zs by (simp add: fifo_step_def)
  from Cons.IH [OF d(2) open' zs] obtain ys where "waiting rid c' = Some ys"
    "zs @ items_in L rid ls d = items_out L rid ls d @ ys" by auto
  with step d(1) show ?case by (simp flip: append_assoc) (simp only: append_assoc)
qed simp

section \<open>From one end of the tunnel to the other\<close>

lemma from_sandbox_prefix:
  "prefix (fst (from_sandbox ng incoming xs)) (fst (from_sandbox ng incoming (xs @ ys)))"
proof (induction ng incoming xs rule: from_sandbox.induct)
  case (2 ng incoming env items)
  then show ?case by (auto simp: Let_def)
next
  case (3 ng incoming frame items)
  then show ?case by (auto simp: Let_def split: sum.split)
qed simp

text \<open>
  C9: WebSocket messages survive the tunnel. Whatever messages an upstream connection opened with the
  negotiated \<open>max_size\<close> delivers, texts whose frame is within 8 MiB, on either protocol version and for an id of at
  most 1000 characters, \<open>from_upstream\<close> forwards all of them, the
  pieces of one message fit an empty channel queue, and every binary piece of a channel with a canonical id
  goes over the wire unchanged. When an end with the same limits receives these pieces on a channel, in any
  run of its receive loop, among any other messages, tasks and reconnections that leave the channel
  open, then what its relay has sent on is always a prefix of these messages, and once the
  queue is empty it is exactly these messages in order, with nothing kept back.
\<close>

theorem ws_messages_survive:
  assumes "limits_ok L" "negotiated_ok L ng" "\<forall>m\<in>set ms. fits_tunnel ng rid m" "length rid \<le> 1000"
  shows "\<exists>pieces. map_result (from_upstream ng rid) ms = Inr pieces
    \<and> (\<forall>items\<in>set pieces. int (length items) \<le> channel_limit ng)
    \<and> (canonical_id rid = Some rid \<longrightarrow>
        (\<forall>env. ChanBinary env \<in> set (concat pieces) \<longrightarrow>
          (\<exists>raw. BinaryEnvelope_encode env (ng_stream_chunk ng) = Inr raw
             \<and> BinaryEnvelope_decode raw (ng_stream_chunk ng) = Inr env)))
    \<and> (\<forall>c ls c'. conn_run L' ls c = Some c' \<and> stays_open L' rid ls c \<and> waiting rid c = Some []
          \<and> items_in L' rid ls c = concat pieces \<longrightarrow>
        prefix (fst (from_sandbox ng [] (items_out L' rid ls c))) (map as_sent ms)
        \<and> (waiting rid c' = Some [] \<longrightarrow>
             from_sandbox ng [] (items_out L' rid ls c) = (map as_sent ms, RelayWaits [])))"
proof -
  obtain pieces where pieces: "map_result (from_upstream ng rid) ms = Inr pieces"
    "from_sandbox ng [] (concat pieces) = (map as_sent ms, RelayWaits [])"
    "\<forall>items\<in>set pieces. int (length items) \<le> channel_limit ng"
    "canonical_id rid = Some rid \<longrightarrow> (\<forall>env. ChanBinary env \<in> set (concat pieces) \<longrightarrow>
       (\<exists>raw. BinaryEnvelope_encode env (ng_stream_chunk ng) = Inr raw
          \<and> BinaryEnvelope_decode raw (ng_stream_chunk ng) = Inr env))"
    using relayed_messages [OF assms] by blast
  have "prefix (fst (from_sandbox ng [] (items_out L' rid ls c))) (map as_sent ms)
      \<and> (waiting rid c' = Some [] \<longrightarrow>
           from_sandbox ng [] (items_out L' rid ls c) = (map as_sent ms, RelayWaits []))"
    if run: "conn_run L' ls c = Some c'" "stays_open L' rid ls c" "waiting rid c = Some []"
      and arrived: "items_in L' rid ls c = concat pieces" for c ls c'
  proof -
    from channel_fifo [OF run] arrived obtain ys where "waiting rid c' = Some ys"
      and all: "concat pieces = items_out L' rid ls c @ ys" by auto
    moreover from from_sandbox_prefix [of ng "[]" "items_out L' rid ls c" ys]
    have "prefix (fst (from_sandbox ng [] (items_out L' rid ls c))) (map as_sent ms)"
      unfolding all [symmetric] pieces(2) by simp
    ultimately show ?thesis using pieces(2) by auto
  qed
  with pieces(1,3,4) show ?thesis by blast
qed

definition sample_channel :: conn where
  "sample_channel =
     (initial_conn (sample_limits 16 4))\<lparr>cn_channels := [(''r'', \<lparr>ch_limit = 100, ch_queue = []\<rparr>)]\<rparr>"

definition sample_relay :: "label list" where
  "sample_relay =
     [Receive 0 (TextMessage (Some (JObj (ws_message_frame ''r'' ''x'' False)))), Heartbeat ''p'' 0, ChannelTake ''r'']"

theorem ws_messages_survive_witness:
  "from_sandbox (sample_negotiated 5) [] (items_out (sample_limits 16 4) ''r'' sample_relay sample_channel)
     = ([SendValue (JStr ''x'')], RelayWaits [])"
proof -
  let ?L = "sample_limits 16 4" and ?ng = "sample_negotiated 5"
  have ok: "limits_ok ?L" by (simp add: limits_ok_def sample_limits_def)
  have ng: "negotiated_ok ?L ?ng" by (rule sample_negotiated_ok) simp_all
  have "message_frame_len ''r'' ''x'' False \<le> 100" by code_simp
  then have fits: "\<forall>m\<in>set [WsText ''x'']. fits_tunnel ?ng ''r'' m" by simp
  obtain pieces where pieces: "map_result (from_upstream ?ng ''r'') [WsText ''x''] = Inr pieces"
    and relayed: "\<And>c ls c'. conn_run ?L ls c = Some c' \<and> stays_open ?L ''r'' ls c \<and> waiting ''r'' c = Some []
          \<and> items_in ?L ''r'' ls c = concat pieces \<Longrightarrow> waiting ''r'' c' = Some [] \<Longrightarrow>
        from_sandbox ?ng [] (items_out ?L ''r'' ls c) = (map as_sent [WsText ''x''], RelayWaits [])"
    using ws_messages_survive [OF ok ng fits, of ?L] by auto
  from pieces have items: "concat pieces = [ChanFrame (ws_message_frame ''r'' ''x'' False)]"
    using \<open>message_frame_len ''r'' ''x'' False \<le> 100\<close>
    by (auto simp: from_upstream_def message_items_def CONTROL_WS_MESSAGE_BYTES_def split: if_splits)
  have run: "case conn_run ?L sample_relay sample_channel of None \<Rightarrow> False | Some c' \<Rightarrow> waiting ''r'' c' = Some []"
    by code_simp
  have opened: "stays_open ?L ''r'' sample_relay sample_channel \<and> waiting ''r'' sample_channel = Some []" by code_simp
  have "items_in ?L ''r'' sample_relay sample_channel = [ChanFrame (ws_message_frame ''r'' ''x'' False)]"
    by code_simp
  with run opened items show ?thesis
    using relayed [of sample_relay sample_channel] by (auto split: option.splits)
qed

end
