(* ===== verification/TunnelReconnect.thy ===== *)
theory TunnelReconnect
  imports TunnelTargets
begin

text \<open>
  \<open>_connect_loop\<close> around \<open>_proxy_loop\<close>: where a tunnel client connects, how it counts failures and how
  long it waits after each, and what it logs. An attempt is what happened between two waits: when the
  connection was up, how it ended and when, and what the stop flag and the checkpoint depth were then.
\<close>

section \<open>The connection\<close>

definition http_timeout :: "(string \<Rightarrow> rat option) \<Rightarrow> env \<Rightarrow> rat" where
  "http_timeout py_float environ =
     (case environ ''YR_TUNNEL_HTTP_TIMEOUT'' of
        None \<Rightarrow> 600
      | Some s \<Rightarrow> (case py_float s of None \<Rightarrow> 600 | Some q \<Rightarrow> q))"

text \<open>The CA bundle and whether certificates are verified; None without TLS.\<close>

definition tunnel_tls :: "env \<Rightarrow> string \<Rightarrow> (string option \<times> bool) option" where
  "tunnel_tls environ url =
     (if \<not> starts_with ''wss://'' url then None
      else
        Some (case environ ''YR_TUNNEL_CA_BUNDLE'' of Some (c # s) \<Rightarrow> Some (c # s) | _ \<Rightarrow> None,
              py_lower (py_strip (case environ ''YR_TUNNEL_SSL_VERIFY'' of None \<Rightarrow> ''1'' | Some s \<Rightarrow> s))
                \<notin> {''0'', ''false'', ''no''}))"

text \<open>The URL and the extra headers of a connection.\<close>

definition connect_target :: "env \<Rightarrow> string option \<Rightarrow> string \<Rightarrow> string \<times> (string \<times> string) list" where
  "connect_target environ token url =
     (case token of
        Some (c # s) \<Rightarrow>
          (let fallback = py_lower (py_strip
                 (case environ ''YR_TUNNEL_TOKEN_QUERY_FALLBACK'' of None \<Rightarrow> ''0'' | Some v \<Rightarrow> v)) in
           (if fallback \<in> {''1'', ''true'', ''yes''}
            then url @ (if CHR ''?'' \<in> set url then ''&'' else ''?'') @ ''token='' @ url_quote (c # s)
            else url,
            [(''X-Auth'', c # s)]))
      | _ \<Rightarrow> (url, []))"

section \<open>Checkpoints\<close>

definition enter_checkpoint :: "int \<Rightarrow> int" where
  "enter_checkpoint depth = depth + 1"

definition leave_checkpoint :: "int \<Rightarrow> int" where
  "leave_checkpoint depth = max 0 (depth - 1)"

datatype log_level = DebugLevel | WarningLevel | ErrorLevel

definition log_reconnect :: "int \<Rightarrow> log_level \<Rightarrow> string \<Rightarrow> log_level \<times> string" where
  "log_reconnect depth level text =
     (if depth > 0 then (DebugLevel, ''checkpoint in-flight; '' @ text) else (level, text))"

section \<open>Failures and waits\<close>

definition RECONNECT_DELAY :: rat where "RECONNECT_DELAY = 1"
definition ROUTE_404_WARNING_THRESHOLD :: nat where "ROUTE_404_WARNING_THRESHOLD = 5"
definition ROUTE_404_WARNING_INTERVAL :: nat where "ROUTE_404_WARNING_INTERVAL = 10"

text \<open>
  \<open>PeerEnded\<close>: \<open>_proxy_loop\<close> returned, with the stop flag as it is then. \<open>Disconnected\<close>: a closed
  connection, an operating system error or a timeout. \<open>Rejected\<close>: the handshake was answered with a status.
\<close>

datatype attempt_end = PeerEnded bool | Disconnected string | Rejected int string | Unexpected string

record attempt =
  at_connected_at :: "rat option"
  at_end :: attempt_end
  at_ended_at :: rat
  at_stopping :: bool
  at_depth :: int

datatype after_attempt = StopLoop | SleepFor rat

definition lost_connection :: "rat \<Rightarrow> nat \<Rightarrow> attempt \<Rightarrow> string \<Rightarrow> nat \<times> (log_level \<times> string) list \<times> after_attempt" where
  "lost_connection interval failures a text =
     (let long = (case at_connected_at a of None \<Rightarrow> False | Some t \<Rightarrow> at_ended_at a - t \<ge> interval);
          failures = (if long then 0 else failures) + 1
      in (failures,
          if failures = 1 \<or> failures mod 10 = 0
          then [log_reconnect (at_depth a) WarningLevel
                  (''TunnelClient disconnected (attempt '' @ str_nat failures @ ''): '' @ text)]
          else [],
          if at_stopping a then StopLoop
          else SleepFor (min (RECONNECT_DELAY * rat_of_nat (min failures 30)) 30)))"

definition after_failure :: "rat \<Rightarrow> nat \<Rightarrow> attempt \<Rightarrow> nat \<times> (log_level \<times> string) list \<times> after_attempt" where
  "after_failure interval failures a =
     (case at_end a of
        PeerEnded stopping \<Rightarrow>
          if stopping then (failures, [], StopLoop)
          else lost_connection interval failures a ''tunnel peer ended the connection''
      | Disconnected text \<Rightarrow> lost_connection interval failures a text
      | Rejected status text \<Rightarrow>
          (let failures = failures + 1;
               warn = (failures = ROUTE_404_WARNING_THRESHOLD
                       \<or> (failures > ROUTE_404_WARNING_THRESHOLD \<and> failures mod ROUTE_404_WARNING_INTERVAL = 0))
           in (failures,
               [if status = 404
                then log_reconnect (at_depth a) (if warn then WarningLevel else DebugLevel)
                       (''TunnelClient route unavailable (HTTP 404, attempt '' @ str_nat failures @ ''); retrying'')
                else log_reconnect (at_depth a) WarningLevel
                       (''TunnelClient WebSocket handshake rejected (HTTP '' @ str_int status @ '', attempt ''
                        @ str_nat failures @ ''): '' @ text)],
               if at_stopping a then StopLoop else SleepFor RECONNECT_DELAY))
      | Unexpected text \<Rightarrow>
          (failures + 1, [log_reconnect (at_depth a) ErrorLevel (''TunnelClient unexpected error: '' @ text)],
           if at_stopping a then StopLoop else SleepFor RECONNECT_DELAY))"

text \<open>
  The loop over the attempts it makes: per attempt, the failures counted, the log and what follows. The
  flag beside an attempt is the stop flag when the loop is about to make it.
\<close>

fun connect_loop ::
  "rat \<Rightarrow> nat \<Rightarrow> (bool \<times> attempt) list \<Rightarrow> (nat \<times> (log_level \<times> string) list \<times> after_attempt) list" where
  "connect_loop interval failures [] = []"
| "connect_loop interval failures ((stopping, a) # attempts) =
     (if stopping then []
      else
        let r = after_failure interval failures a in
        r # (case snd (snd r) of StopLoop \<Rightarrow> [] | SleepFor _ \<Rightarrow> connect_loop interval (fst r) attempts))"

section \<open>The schedule\<close>

text \<open>
  An attempt that held a connection for a heartbeat interval before losing it, and the number of attempts
  since the last of these, itself included.
\<close>

definition lost :: "attempt \<Rightarrow> bool" where
  "lost a = (case at_end a of PeerEnded _ \<Rightarrow> True | Disconnected _ \<Rightarrow> True | _ \<Rightarrow> False)"

definition held :: "rat \<Rightarrow> attempt \<Rightarrow> bool" where
  "held interval a =
     (lost a \<and> (case at_connected_at a of None \<Rightarrow> False | Some t \<Rightarrow> at_ended_at a - t \<ge> interval))"

definition streak :: "rat \<Rightarrow> attempt list \<Rightarrow> nat" where
  "streak interval attempts =
     length (takeWhile (\<lambda>a. \<not> held interval a) (rev attempts)) + (if \<exists>a\<in>set attempts. held interval a then 1 else 0)"

definition runs_on :: "attempt \<Rightarrow> bool" where
  "runs_on a \<longleftrightarrow> \<not> at_stopping a \<and> at_end a \<noteq> PeerEnded True"

definition wait_after :: "nat \<Rightarrow> attempt \<Rightarrow> rat" where
  "wait_after failures a = (if lost a then rat_of_nat (min failures 30) else 1)"

lemma after_failure_runs_on:
  assumes "runs_on a"
  shows "fst (after_failure interval failures a) = (if held interval a then 1 else failures + 1)
    \<and> snd (snd (after_failure interval failures a))
       = SleepFor (wait_after (if held interval a then 1 else failures + 1) a)"
  using assms
  by (cases "at_end a")
     (auto simp: after_failure_def lost_connection_def runs_on_def held_def lost_def wait_after_def
        RECONNECT_DELAY_def Let_def min_def split: option.splits)

fun counted :: "rat \<Rightarrow> nat \<Rightarrow> attempt list \<Rightarrow> nat" where
  "counted interval failures [] = failures"
| "counted interval failures (a # as) = counted interval (if held interval a then 1 else failures + 1) as"

lemma counted_append:
  "counted interval failures (as @ [a]) = (if held interval a then 1 else counted interval failures as + 1)"
  by (induction as arbitrary: failures) auto

lemma counted_streak: "counted interval 0 as = streak interval as"
proof (induction as rule: rev_induct)
  case (snoc a as)
  then show ?case by (auto simp: counted_append streak_def)
qed (simp add: streak_def)

lemma connect_loop_runs_on:
  assumes "\<forall>a\<in>set as. runs_on a"
  shows "length (connect_loop interval failures (map (Pair False) as)) = length as
    \<and> (\<forall>i<length as. snd (snd (connect_loop interval failures (map (Pair False) as) ! i))
         = SleepFor (wait_after (counted interval failures (take (Suc i) as)) (as ! i)))"
  using assms
proof (induction as arbitrary: failures)
  case (Cons a as)
  let ?f = "if held interval a then 1 else failures + 1"
  have a: "fst (after_failure interval failures a) = ?f"
    "snd (snd (after_failure interval failures a)) = SleepFor (wait_after ?f a)"
    using after_failure_runs_on Cons.prems by simp_all
  then have loop: "connect_loop interval failures (map (Pair False) (a # as))
      = after_failure interval failures a # connect_loop interval ?f (map (Pair False) as)"
    by simp
  from Cons.prems have "\<forall>a\<in>set as. runs_on a" by simp
  note IH = Cons.IH [OF this, of ?f]
  show ?case unfolding loop using IH a(2) by (auto simp: nth_Cons less_Suc_eq_0_disj split: nat.split)
qed simp

text \<open>
  C12: The tunnel never gives up, and waits by its streak of failures. As long as the client is not stopped
  the loop goes on after every attempt. A connection that was lost or could not be opened is followed by a wait of as many seconds as
  attempts were made since the last connection that held for a heartbeat interval, that one included, and
  at most 30; a rejected handshake or an unexpected error by one second. So every wait is between 1 and 30
  seconds, and a connection that held is retried after one.
\<close>

theorem reconnect_schedule:
  assumes "\<forall>a\<in>set as. runs_on a" "i < length as"
  shows "length (connect_loop interval 0 (map (Pair False) as)) = length as
    \<and> (\<exists>wait. snd (snd (connect_loop interval 0 (map (Pair False) as) ! i)) = SleepFor wait
         \<and> wait = (if lost (as ! i) then rat_of_nat (min (streak interval (take (Suc i) as)) 30) else 1)
         \<and> 1 \<le> wait \<and> wait \<le> 30 \<and> (held interval (as ! i) \<longrightarrow> wait = 1))"
proof -
  let ?s = "streak interval (take (Suc i) as)"
  have take: "take (Suc i) as = take i as @ [as ! i]" using assms(2) by (simp add: take_Suc_conv_app_nth)
  have "1 \<le> ?s" unfolding take streak_def by (cases "held interval (as ! i)") simp_all
  moreover have "held interval (as ! i) \<Longrightarrow> ?s = 1" unfolding take streak_def by simp
  moreover have "wait_after ?s (as ! i) = (if lost (as ! i) then rat_of_nat (min ?s 30) else 1)"
    by (simp add: wait_after_def)
  ultimately show ?thesis
    using connect_loop_runs_on [OF assms(1), of interval 0] assms(2)
    by (auto simp: counted_streak min_def)
qed

definition sample_attempt :: "attempt_end \<Rightarrow> rat option \<Rightarrow> attempt" where
  "sample_attempt e t = \<lparr>at_connected_at = t, at_end = e, at_ended_at = 100, at_stopping = False, at_depth = 0\<rparr>"

theorem reconnect_schedule_witness:
  "snd (snd (connect_loop 20 0 (map (Pair False)
      [sample_attempt (Disconnected []) (Some 10), sample_attempt (Rejected 404 []) None,
       sample_attempt (Disconnected []) None]) ! 2)) = SleepFor 3"
  using reconnect_schedule [of "[sample_attempt (Disconnected []) (Some 10), sample_attempt (Rejected 404 []) None,
       sample_attempt (Disconnected []) None]" 2 20]
  by (simp add: sample_attempt_def runs_on_def lost_def held_def streak_def numeral_2_eq_2)

end
