(* ===== verification/TunnelLifecycle.thy ===== *)
theory TunnelLifecycle
  imports TunnelReconnect
begin

text \<open>
  The life of a \<open>TunnelClient\<close> around \<open>_connect_loop\<close>: \<open>start\<close> and \<open>stop\<close> on the caller's side, the
  thread of \<open>_run_loop\<close> with its event loop and its shared HTTP client, and what each way out of the loop
  still closes. The calls and the thread interleave; what a connection does in between is
  \<open>TunnelLoop\<close>, when it is retried is \<open>TunnelReconnect\<close>.
\<close>

section \<open>State\<close>

datatype thread_state = NoThread | ThreadLive | ThreadEnded

text \<open>The event loop: none yet, running \<open>_connect_loop\<close>, past it, closed.\<close>

datatype loop_stage = NoLoop | LoopRunning | LoopOver | LoopClosed

text \<open>\<open>lc_opened\<close> and \<open>lc_closed\<close> count the shared HTTP clients made and closed, which the code does not.\<close>

record lifecycle =
  lc_thread :: thread_state
  lc_loop :: loop_stage
  lc_stopping :: bool
  lc_connected :: bool
  lc_ws :: bool
  lc_client :: bool
  lc_stop_asked :: bool
  lc_opened :: nat
  lc_closed :: nat

definition new_lifecycle :: lifecycle where
  "new_lifecycle =
     \<lparr>lc_thread = NoThread, lc_loop = NoLoop, lc_stopping = False, lc_connected = False, lc_ws = False,
      lc_client = False, lc_stop_asked = False, lc_opened = 0, lc_closed = 0\<rparr>"

section \<open>The shared HTTP client\<close>

definition open_client :: "lifecycle \<Rightarrow> lifecycle" where
  "open_client s = s\<lparr>lc_client := True, lc_opened := lc_opened s + 1\<rparr>"

definition close_shared_http_client :: "lifecycle \<Rightarrow> lifecycle" where
  "close_shared_http_client s =
     (if lc_client s then s\<lparr>lc_client := False, lc_closed := lc_closed s + 1\<rparr> else s)"

text \<open>\<open>_borrow_http_client\<close>: the shared client, or one that is opened and closed around its use.\<close>

definition borrow_http_client :: "(lifecycle \<Rightarrow> lifecycle) \<Rightarrow> lifecycle \<Rightarrow> lifecycle" where
  "borrow_http_client use s =
     (if lc_client s then use s
      else
        let s' = use (s\<lparr>lc_opened := lc_opened s + 1\<rparr>)
        in s'\<lparr>lc_closed := lc_closed s' + 1\<rparr>)"

section \<open>The calls\<close>

definition start :: "lifecycle \<Rightarrow> lifecycle" where
  "start s =
     s\<lparr>lc_stopping := False, lc_connected := False, lc_thread := ThreadLive, lc_stop_asked := False\<rparr>"

text \<open>
  \<open>stop\<close> step by step: it closes the connection when the loop runs and has one and waits up to two seconds for
  that, joins the thread for five seconds if it is alive, and stops the event loop of a thread that is still
  alive, joining it for two seconds more. \<open>alive\<close> is \<open>is_alive()\<close> before and after the first join.
\<close>

datatype stop_action = SetStopping | CloseSocket rat | Join rat | StopEventLoop

definition stop :: "bool \<Rightarrow> bool \<Rightarrow> lifecycle \<Rightarrow> stop_action list" where
  "stop alive still_alive s =
     SetStopping
     # (if lc_loop s = LoopRunning \<and> lc_ws s then [CloseSocket 2] else [])
     @ (if lc_thread s \<noteq> NoThread \<and> alive then [Join 5] else [])
     @ (if lc_thread s \<noteq> NoThread \<and> still_alive \<and> lc_loop s \<noteq> NoLoop then [StopEventLoop, Join 2] else [])"

fun action_wait :: "stop_action \<Rightarrow> rat" where
  "action_wait (CloseSocket t) = t"
| "action_wait (Join t) = t"
| "action_wait _ = 0"

lemma stop_bounded: "sum_list (map action_wait (stop alive still_alive s)) \<le> 9"
  by (simp add: stop_def)

section \<open>The thread\<close>

text \<open>
  The end of \<open>_run_loop\<close>, after \<open>run_until_complete\<close> returned or raised: the tasks that are left are
  cancelled, among them \<open>_connect_loop\<close>, which forgets its connection as it is left; then the HTTP client
  and the event loop are closed.
\<close>

definition clean_up :: "lifecycle \<Rightarrow> lifecycle" where
  "clean_up s =
     (close_shared_http_client (s\<lparr>lc_ws := False, lc_connected := False\<rparr>))\<lparr>lc_loop := LoopClosed, lc_thread := ThreadEnded\<rparr>"

text \<open>
  What the caller and the thread do. \<open>LoopReturns b\<close>: \<open>_connect_loop\<close> returns as it is being stopped,
  from within an attempt (and then closes the client) or between two. \<open>LoopFails\<close>: it raises, before it
  has made its client. \<open>LoopStopped\<close>: the event loop was stopped under it.
\<close>

datatype life_event =
    CallStart | CallStop bool bool
  | MakeLoop | MakeClient | Connected | ConnectionLost | LoopReturns bool | LoopFails | LoopStopped | CleanUp

definition life_step :: "life_event \<Rightarrow> lifecycle \<Rightarrow> lifecycle option" where
  "life_step ev s =
     (case ev of
        CallStart \<Rightarrow> if lc_thread s = ThreadLive then None else Some (start s)
      | CallStop alive still_alive \<Rightarrow>
          Some (s\<lparr>lc_stopping := True,
                  lc_stop_asked := (lc_stop_asked s \<or> StopEventLoop \<in> set (stop alive still_alive s))\<rparr>)
      | MakeLoop \<Rightarrow>
          if lc_thread s = ThreadLive \<and> lc_loop s \<in> {NoLoop, LoopClosed} then Some (s\<lparr>lc_loop := LoopRunning\<rparr>) else None
      | MakeClient \<Rightarrow> if lc_loop s = LoopRunning \<and> \<not> lc_client s then Some (open_client s) else None
      | Connected \<Rightarrow>
          if lc_loop s = LoopRunning \<and> lc_client s \<and> \<not> lc_ws s
          then Some (s\<lparr>lc_ws := True, lc_connected := True\<rparr>) else None
      | ConnectionLost \<Rightarrow>
          if lc_loop s = LoopRunning \<and> lc_ws s then Some (s\<lparr>lc_ws := False, lc_connected := False\<rparr>) else None
      | LoopReturns in_attempt \<Rightarrow>
          if lc_loop s = LoopRunning \<and> lc_client s \<and> \<not> lc_ws s \<and> lc_stopping s
          then Some ((if in_attempt then close_shared_http_client s else s)\<lparr>lc_loop := LoopOver\<rparr>) else None
      | LoopFails \<Rightarrow> if lc_loop s = LoopRunning \<and> \<not> lc_client s then Some (s\<lparr>lc_loop := LoopOver\<rparr>) else None
      | LoopStopped \<Rightarrow> if lc_loop s = LoopRunning \<and> lc_stop_asked s then Some (s\<lparr>lc_loop := LoopOver\<rparr>) else None
      | CleanUp \<Rightarrow> if lc_loop s = LoopOver then Some (clean_up s) else None)"

inductive life :: "lifecycle \<Rightarrow> lifecycle \<Rightarrow> bool" where
  Begin: "life s s"
| Step: "life s t \<Longrightarrow> life_step ev t = Some u \<Longrightarrow> life s u"

inductive_cases lifeE: "life s t"

section \<open>Nothing is left open\<close>

definition life_inv :: "lifecycle \<Rightarrow> bool" where
  "life_inv s \<longleftrightarrow>
     lc_opened s = lc_closed s + (if lc_client s then 1 else 0)
     \<and> (lc_thread s \<noteq> ThreadLive \<longrightarrow> lc_loop s \<in> {NoLoop, LoopClosed})
     \<and> (lc_loop s \<in> {NoLoop, LoopClosed} \<longrightarrow> \<not> lc_client s \<and> \<not> lc_ws s \<and> \<not> lc_connected s)
     \<and> lc_connected s = lc_ws s"

lemma life_step_inv [inv_intros]:
  assumes "life_inv s" "life_step ev s = Some t"
  shows "life_inv t"
  using assms
  by (cases ev)
    (auto simp: life_inv_def life_step_def start_def open_client_def close_shared_http_client_def clean_up_def
      split: if_splits)

lemma life_invariant: "life s t \<Longrightarrow> life_inv s \<Longrightarrow> life_inv t"
  by (induction rule: life.induct) (auto intro: inv_intros)



end
