(* ===== verification/Ipv4.thy ===== *)
theory Ipv4
  imports Bytes
begin

text \<open>
  The part of the standard library's \<open>ipaddress\<close> that \<open>_normalize_cidr\<close> uses: parsing an IPv4
  network with \<open>strict=False\<close> and printing it. Addresses are 32-bit words.
\<close>

unbundle bit_operations_syntax

section \<open>Addresses\<close>

definition parse_octet :: "string \<Rightarrow> nat option" where
  "parse_octet s =
     (if s \<noteq> [] \<and> list_all is_dec_digit s \<and> length s \<le> 3
         \<and> \<not> (s \<noteq> ''0'' \<and> hd s = CHR ''0'') \<and> dec_value s \<le> 255
      then Some (dec_value s) else None)"

definition octets_word :: "nat list \<Rightarrow> 32 word" where
  "octets_word os = word_of_nat (be_value 256 os)"

definition word_octets :: "32 word \<Rightarrow> nat list" where
  "word_octets w = be_digits 256 4 (unat w)"

definition parse_address :: "string \<Rightarrow> 32 word option" where
  "parse_address s =
     (let parts = split_on (CHR ''.'') s
      in if length parts \<noteq> 4 then None
         else map_option octets_word (all_some (map parse_octet parts)))"

definition print_address :: "32 word \<Rightarrow> string" where
  "print_address w = join_with ''.'' (map dec_digits (word_octets w))"

section \<open>Prefixes\<close>

text \<open>\<open>ALL_ONES ^ (ALL_ONES >> prefix)\<close>.\<close>

definition netmask :: "nat \<Rightarrow> 32 word" where
  "netmask p = NOT (drop_bit p (NOT 0))"

text \<open>The prefix length of a mask: the only one whose mask it is.\<close>

definition prefix_of_mask :: "32 word \<Rightarrow> nat option" where
  "prefix_of_mask m = find (\<lambda>p. netmask p = m) [0..<33]"

text \<open>A prefix is a number of bits, a netmask or a host mask.\<close>

definition parse_prefix :: "string \<Rightarrow> nat option" where
  "parse_prefix s =
     (if s \<noteq> [] \<and> list_all is_dec_digit s \<and> dec_value s \<le> 32 then Some (dec_value s)
      else
        case parse_address s of
          None \<Rightarrow> None
        | Some m \<Rightarrow>
            (case prefix_of_mask m of
               Some p \<Rightarrow> Some p
             | None \<Rightarrow> prefix_of_mask (NOT m)))"

section \<open>Networks\<close>

record ipv4_network =
  net_address :: "32 word"
  net_prefix :: nat

definition parse_network :: "string \<Rightarrow> ipv4_network option" where
  "parse_network s =
     (case split_on (CHR ''/'') s of
        [a] \<Rightarrow> map_option (\<lambda>w. \<lparr>net_address = w AND netmask 32, net_prefix = 32\<rparr>) (parse_address a)
      | [a, m] \<Rightarrow>
          (case (parse_address a, parse_prefix m) of
             (Some w, Some p) \<Rightarrow> Some \<lparr>net_address = w AND netmask p, net_prefix = p\<rparr>
           | _ \<Rightarrow> None)
      | _ \<Rightarrow> None)"

definition print_network :: "ipv4_network \<Rightarrow> string" where
  "print_network n = print_address (net_address n) @ ''/'' @ dec_digits (net_prefix n)"

text \<open>The addresses a network contains.\<close>

definition contains :: "ipv4_network \<Rightarrow> 32 word \<Rightarrow> bool" where
  "contains n w \<longleftrightarrow> w AND netmask (net_prefix n) = net_address n"

definition network_ok :: "ipv4_network \<Rightarrow> bool" where
  "network_ok n \<longleftrightarrow> net_prefix n \<le> 32 \<and> net_address n AND netmask (net_prefix n) = net_address n"

section \<open>Printing and parsing\<close>

lemma dec_digits_small: "n < 10 \<Longrightarrow> dec_digits n = [char_of (48 + n)]"
  by (subst dec_digits.simps) simp

lemma dec_digits_0 [simp]: "dec_digits 0 = ''0''"
  by (simp add: dec_digits_small char_of_eq_iff take_bit_eq_mod)

lemma dec_digits_hd: "0 < n \<Longrightarrow> hd (dec_digits n) \<noteq> CHR ''0''"
proof (induction n rule: dec_digits.induct)
  case (1 n)
  show ?case
  proof (cases "n < 10")
    case True
    with 1(2) have "n \<in> {1, 2, 3, 4, 5, 6, 7, 8, 9}" by auto
    then show ?thesis by (auto simp: dec_digits_small char_of_eq_iff take_bit_eq_mod)
  next
    case False
    with 1 show ?thesis by (subst dec_digits.simps) simp
  qed
qed

lemma dec_digits_length: "n < 1000 \<Longrightarrow> length (dec_digits n) \<le> 3"
  by (subst dec_digits.simps, subst dec_digits.simps, subst dec_digits.simps) auto

lemma dec_digits_all: "list_all is_dec_digit (dec_digits n)"
  using dec_digits_digit by (auto simp: list_all_iff)

lemma parse_octet_digits: "n < 256 \<Longrightarrow> parse_octet (dec_digits n) = Some n"
  using dec_digits_hd [of n] dec_digits_length [of n]
  using dec_digits_all [of n] dec_value_dec_digits [of n]
  by (cases "n = 0") (auto simp: parse_octet_def)

lemma digit_no_sep: "c \<in> set (dec_digits n) \<Longrightarrow> c \<noteq> CHR ''.'' \<and> c \<noteq> CHR ''/''"
  by (drule dec_digits_digit) (auto simp: is_dec_digit_def)

lemma length_word_octets [simp]: "length (word_octets w) = 4"
  by (simp add: word_octets_def)

lemma word_octets_less: "d \<in> set (word_octets w) \<Longrightarrow> d < 256"
  by (simp add: word_octets_def be_digits_less)

lemma octets_word_octets: "octets_word (word_octets w) = w"
proof -
  have "unat w < 2 ^ 32" using unsigned_less [of w] by simp
  then have "unat w < 256 ^ 4" by simp
  then show ?thesis by (simp add: octets_word_def word_octets_def be_value_digits)
qed

lemma octets_cases:
  obtains a b c d where "word_octets w = [a, b, c, d]" "a < 256" "b < 256" "c < 256" "d < 256"
proof -
  obtain a b c d where os: "word_octets w = [a, b, c, d]"
  proof -
    have "length (word_octets w) = Suc (Suc (Suc (Suc 0)))" by simp
    then show ?thesis using that by (auto simp only: length_Suc_conv length_0_conv)
  qed
  moreover have "x < 256" if "x \<in> {a, b, c, d}" for x
    using word_octets_less [of x w] that by (simp add: os)
  ultimately show thesis by (intro that) auto
qed

lemma parse_print_address: "parse_address (print_address w) = Some w"
proof -
  obtain a b c d where os: "word_octets w = [a, b, c, d]" "a < 256" "b < 256" "c < 256" "d < 256"
    by (rule octets_cases)
  have dots: "CHR ''.'' \<notin> set (dec_digits n)" for n using digit_no_sep by blast
  have "split_on (CHR ''.'') (print_address w) = map dec_digits [a, b, c, d]"
    by (simp add: print_address_def os split_on_append split_on_single dots)
  then show ?thesis
    using os octets_word_octets [of w] by (simp add: parse_address_def parse_octet_digits)
qed

lemma print_address_no_slash: "CHR ''/'' \<notin> set (print_address w)"
proof -
  obtain a b c d where "word_octets w = [a, b, c, d]" by (rule octets_cases)
  moreover have "CHR ''/'' \<notin> set (dec_digits n)" for n using digit_no_sep by blast
  ultimately show ?thesis by (simp add: print_address_def)
qed

lemma parse_print_prefix: "p \<le> 32 \<Longrightarrow> parse_prefix (dec_digits p) = Some p"
  by (simp add: parse_prefix_def dec_digits_all)

lemma parse_print_network: "network_ok n \<Longrightarrow> parse_network (print_network n) = Some n"
proof -
  assume ok: "network_ok n"
  have "CHR ''/'' \<notin> set (dec_digits (net_prefix n))" using digit_no_sep by blast
  then have "split_on (CHR ''/'') (print_network n)
      = [print_address (net_address n), dec_digits (net_prefix n)]"
    by (simp add: print_network_def split_on_append split_on_single print_address_no_slash)
  then show ?thesis
    using ok by (simp add: parse_network_def parse_print_address parse_print_prefix network_ok_def)
qed

lemma prefix_of_mask_le: "prefix_of_mask m = Some p \<Longrightarrow> p \<le> 32"
  by (auto simp: prefix_of_mask_def find_Some_iff)

lemma parse_prefix_le: "parse_prefix s = Some p \<Longrightarrow> p \<le> 32"
  by (auto simp: parse_prefix_def split: if_splits option.splits dest: prefix_of_mask_le)

lemma parse_network_ok: "parse_network s = Some n \<Longrightarrow> network_ok n"
  by (auto simp: parse_network_def network_ok_def and.assoc split: list.splits option.splits
      dest: parse_prefix_le)

lemma network_contains_itself: "network_ok n \<Longrightarrow> contains n (net_address n)"
  by (simp add: network_ok_def contains_def)

end
