(* ===== verification/NetTypes.thy ===== *)
theory NetTypes
  imports Ipv4
begin

text \<open>
  The configuration values of \<open>types.py\<close>: connection settings, network rules and policies, DNS
  rules, S3 sources and mounts. Every class validates and normalises its arguments in
  \<open>__post_init__\<close>; here each has a record of the normalised fields and an \<open>_init\<close> function on the
  raw ones. \<open>idna\<close> stands for the third-party \<open>idna.encode(_, uts46=True).decode("ascii")\<close>, None
  where it raises \<open>IDNAError\<close>. Messages leave out the \<open>repr\<close> of the rejected value.
\<close>

section \<open>Connection settings\<close>

definition connection_env :: "env \<Rightarrow> string \<Rightarrow> string result" where
  "connection_env environ name =
     (let val = py_strip (case environ name of None \<Rightarrow> [] | Some v \<Rightarrow> v)
      in if val = [] then Inl (RuntimeError (name @ '' is not set'')) else Inr val)"

definition connection_env_flag :: "env \<Rightarrow> string \<Rightarrow> bool \<Rightarrow> bool" where
  "connection_env_flag environ name dflt =
     (let raw = (case environ name of None \<Rightarrow> if dflt then ''1'' else ''0'' | Some v \<Rightarrow> v)
      in py_lower (py_strip raw) \<notin> {''0'', ''false'', ''no''})"

record ConnectionConfig =
  cc_server_address :: string
  cc_token :: string
  cc_use_tls :: bool
  cc_gateway_address :: "string option"
  cc_gateway_use_tls :: bool
  cc_verify_tls :: bool

definition non_empty_str :: "string \<Rightarrow> json \<Rightarrow> string result" where
  "non_empty_str name v =
     (case as_str v of
        Some s \<Rightarrow> if py_strip s = [] then Inl (ValueError (name @ '' must be a non-empty string''))
                  else Inr s
      | None \<Rightarrow> Inl (ValueError (name @ '' must be a non-empty string'')))"

definition boolean :: "string \<Rightarrow> json \<Rightarrow> bool result" where
  "boolean name v =
     (case v of JBool b \<Rightarrow> Inr b | _ \<Rightarrow> Inl (TypeError (name @ '' must be a boolean'')))"

text \<open>\<open>s.strip().rstrip("/")\<close>, refused when nothing is left.\<close>

definition trim_address :: "string \<Rightarrow> string \<Rightarrow> string result" where
  "trim_address name s =
     (let t = rstrip_by (\<lambda>c. c = CHR ''/'') (py_strip s)
      in if t = [] then Inl (ValueError (name @ '' must be a non-empty string'')) else Inr t)"

definition ConnectionConfig_init ::
  "json \<Rightarrow> json \<Rightarrow> json \<Rightarrow> json \<Rightarrow> json \<Rightarrow> json \<Rightarrow> ConnectionConfig result" where
  "ConnectionConfig_init server token use_tls gateway gateway_use_tls verify_tls =
     bind_result (non_empty_str ''server_address'' server) (\<lambda>server.
     bind_result (non_empty_str ''token'' token) (\<lambda>token.
     bind_result (trim_address ''server_address'' server) (\<lambda>server.
     bind_result
       (if gateway = JNull then Inr None
        else bind_result (non_empty_str ''gateway_address'' gateway) (\<lambda>g.
             map_sum id Some (trim_address ''gateway_address'' g))) (\<lambda>gateway.
     bind_result (boolean ''use_tls'' use_tls) (\<lambda>use_tls.
     bind_result (boolean ''gateway_use_tls'' gateway_use_tls) (\<lambda>gateway_use_tls.
     bind_result (boolean ''verify_tls'' verify_tls) (\<lambda>verify_tls.
       Inr \<lparr>cc_server_address = server, cc_token = py_strip token, cc_use_tls = use_tls,
            cc_gateway_address = gateway, cc_gateway_use_tls = gateway_use_tls,
            cc_verify_tls = verify_tls\<rparr>)))))))"

definition ConnectionConfig_from_env ::
  "env \<Rightarrow> string option \<Rightarrow> string option \<Rightarrow> bool \<Rightarrow> ConnectionConfig result" where
  "ConnectionConfig_from_env environ server_address token verify_tls =
     (let gateway = py_strip (case environ ''YR_GATEWAY_ADDRESS'' of None \<Rightarrow> [] | Some v \<Rightarrow> v);
          given = (\<lambda>arg name. case arg of
             Some (c # s) \<Rightarrow> Inr (c # s) | _ \<Rightarrow> connection_env environ name)
      in bind_result (given server_address ''YR_SERVER_ADDRESS'') (\<lambda>server.
         bind_result (given token ''YR_TOKEN'') (\<lambda>token.
           ConnectionConfig_init (JStr server) (JStr token)
             (JBool (connection_env_flag environ ''YR_TLS'' True))
             (if gateway = [] then JNull else JStr gateway)
             (JBool (connection_env_flag environ ''YR_GATEWAY_TLS'' False))
             (JBool verify_tls))))"

section \<open>Normalisers\<close>

definition label_char :: "char \<Rightarrow> bool" where
  "label_char c =
     (let n = of_char c :: nat
      in (97 \<le> n \<and> n \<le> 122) \<or> (48 \<le> n \<and> n \<le> 57) \<or> c = CHR ''_'' \<or> c = CHR ''-'')"

definition label_ok :: "string \<Rightarrow> bool" where
  "label_ok l \<longleftrightarrow>
     l \<noteq> [] \<and> length l \<le> 63 \<and> hd l \<noteq> CHR ''-'' \<and> last l \<noteq> CHR ''-'' \<and> list_all label_char l"

definition normalize_domain_pattern ::
  "(string \<Rightarrow> string option) \<Rightarrow> json \<Rightarrow> string \<Rightarrow> string result" where
  "normalize_domain_pattern idna pattern description =
     (case as_str pattern of
        None \<Rightarrow> Inl (TypeError (description @ '' patterns must be strings''))
      | Some raw \<Rightarrow>
          (let invalid = ValueError (''invalid '' @ description @ '' pattern'');
               val = py_lower (py_strip raw);
               val = (if ends_with ''.'' val then butlast val else val);
               wildcard = starts_with ''*.'' val;
               val = (if wildcard then drop 2 val else val)
           in if val = [] \<or> CHR ''*'' \<in> set val \<or> CHR ''?'' \<in> set val then Inl invalid
              else
                bind_result
                  (case idna val of
                     Some v \<Rightarrow> Inr v
                   | None \<Rightarrow> if \<exists>c\<in>set val. (of_char c :: nat) > 127 then Inl invalid else Inr val)
                  (\<lambda>val.
                     if length val > 253 \<or> \<not> list_all label_ok (split_on (CHR ''.'') val)
                     then Inl invalid
                     else Inr (if wildcard then ''*.'' @ val else val))))"

definition normalize_dns_pattern :: "(string \<Rightarrow> string option) \<Rightarrow> json \<Rightarrow> string result" where
  "normalize_dns_pattern idna pattern = normalize_domain_pattern idna pattern ''DNS blacklist''"

definition normalize_choice :: "json \<Rightarrow> string \<Rightarrow> string list \<Rightarrow> string result" where
  "normalize_choice val name allowed =
     (case as_str val of
        None \<Rightarrow> Inl (TypeError (name @ '' must be a string''))
      | Some s \<Rightarrow>
          if py_lower (py_strip s) \<notin> set allowed
          then Inl (ValueError (name @ '' must be one of: '' @ join_with '', '' allowed))
          else Inr (py_lower (py_strip s)))"

text \<open>The allowed values, in the sorted order the message lists them in.\<close>

definition NETWORK_ACTIONS :: "string list" where "NETWORK_ACTIONS = [''allow'', ''deny'']"
definition NETWORK_DIRECTIONS :: "string list" where
  "NETWORK_DIRECTIONS = [''both'', ''egress'', ''ingress'']"
definition NETWORK_PROTOCOLS :: "string list" where
  "NETWORK_PROTOCOLS = [''any'', ''icmp'', ''tcp'', ''udp'']"
definition TRAFFIC_POLICY_MODES :: "string list" where
  "TRAFFIC_POLICY_MODES = [''stateful'', ''stateless'']"
definition MAX_TRAFFIC_RULES :: nat where "MAX_TRAFFIC_RULES = 256"
definition MAX_USER_RULE_PRIORITY :: int where "MAX_USER_RULE_PRIORITY = 2 ^ 32 - 2"

definition normalize_cidr :: "json \<Rightarrow> string result" where
  "normalize_cidr val =
     (case as_str val of
        None \<Rightarrow> Inl (ValueError ''cidr must be a non-empty IPv4 address or CIDR'')
      | Some s \<Rightarrow>
          if py_strip s = [] then Inl (ValueError ''cidr must be a non-empty IPv4 address or CIDR'')
          else
            case parse_network (py_strip s) of
              None \<Rightarrow> Inl (ValueError ''invalid IPv4 address or CIDR'')
            | Some n \<Rightarrow> Inr (print_network n))"

section \<open>Port ranges and traffic rules\<close>

record PortRange =
  pr_first :: int
  pr_last :: int

definition port_endpoint :: "string \<Rightarrow> json \<Rightarrow> int result" where
  "port_endpoint name v =
     (case as_strict_int v of
        None \<Rightarrow> Inl (TypeError (''port range '' @ name @ '' must be an integer''))
      | Some n \<Rightarrow>
          if n < 1 \<or> n > 65535 then Inl (ValueError (''port range '' @ name @ '' must be in 1..65535''))
          else Inr n)"

definition PortRange_init :: "json \<Rightarrow> json \<Rightarrow> PortRange result" where
  "PortRange_init first_arg last_arg =
     bind_result (port_endpoint ''first'' first_arg) (\<lambda>f.
     bind_result (port_endpoint ''last'' (if last_arg = JNull then first_arg else last_arg)) (\<lambda>l.
       if f > l then Inl (ValueError ''port range first must not exceed last'')
       else Inr \<lparr>pr_first = f, pr_last = l\<rparr>))"

definition PortRange_to_dict :: "PortRange \<Rightarrow> json" where
  "PortRange_to_dict r = JObj [(''first'', JInt (pr_first r)), (''last'', JInt (pr_last r))]"

text \<open>An argument that may be an instance of a class, None, or any other value.\<close>

datatype 'a obj_arg = NoObj | TheObj 'a | OtherObj json

definition normalize_port_range :: "PortRange obj_arg \<Rightarrow> string \<Rightarrow> PortRange option result" where
  "normalize_port_range arg name =
     (case arg of
        NoObj \<Rightarrow> Inr None
      | TheObj r \<Rightarrow> Inr (Some r)
      | OtherObj v \<Rightarrow>
          (case as_strict_int v of
             None \<Rightarrow> Inl (TypeError (name @ '' must be an integer, PortRange, or None''))
           | Some n \<Rightarrow> bind_result (PortRange_init (JInt n) JNull) (\<lambda>r. Inr (Some r))))"

record NetworkRule =
  nr_action :: string
  nr_direction :: string
  nr_protocol :: string
  nr_cidr :: "string option"
  nr_domain :: "string option"
  nr_port_range :: "PortRange option"
  nr_sandbox_port_range :: "PortRange option"
  nr_priority :: int

record rule_args =
  ra_action :: json
  ra_direction :: json
  ra_protocol :: json
  ra_cidr :: json
  ra_domain :: json
  ra_port_range :: "PortRange obj_arg"
  ra_sandbox_port_range :: "PortRange obj_arg"
  ra_priority :: json

text \<open>\<open>f(x) if x is not None else None\<close>.\<close>

definition opt_field :: "(json \<Rightarrow> 'a result) \<Rightarrow> json \<Rightarrow> 'a option result" where
  "opt_field f v = (if v = JNull then Inr None else map_sum id Some (f v))"

definition NetworkRule_init :: "(string \<Rightarrow> string option) \<Rightarrow> rule_args \<Rightarrow> NetworkRule result" where
  "NetworkRule_init idna a =
     bind_result (normalize_choice (ra_action a) ''action'' NETWORK_ACTIONS) (\<lambda>action.
     bind_result (normalize_choice (ra_direction a) ''direction'' NETWORK_DIRECTIONS) (\<lambda>direction.
     bind_result (normalize_choice (ra_protocol a) ''protocol'' NETWORK_PROTOCOLS) (\<lambda>protocol.
     if ra_cidr a \<noteq> JNull \<and> ra_domain a \<noteq> JNull
     then Inl (ValueError ''cidr and domain cannot be combined in one rule'')
     else
     bind_result (opt_field normalize_cidr (ra_cidr a)) (\<lambda>cidr.
     bind_result (opt_field (\<lambda>v. normalize_domain_pattern idna v ''domain'') (ra_domain a)) (\<lambda>domain.
     if domain \<noteq> None \<and> direction \<noteq> ''egress''
     then Inl (ValueError ''domain rules are valid only for egress'')
     else
     bind_result (normalize_port_range (ra_port_range a) ''port_range'') (\<lambda>port_range.
     bind_result (normalize_port_range (ra_sandbox_port_range a) ''sandbox_port_range'') (\<lambda>sandbox_range.
     if (port_range \<noteq> None \<or> sandbox_range \<noteq> None) \<and> protocol \<notin> {''tcp'', ''udp''}
     then Inl (ValueError ''port ranges require protocol=tcp or udp'')
     else
       case as_strict_int (ra_priority a) of
         None \<Rightarrow> Inl (TypeError ''priority must be an integer'')
       | Some priority \<Rightarrow>
           if priority < 1 \<or> priority > MAX_USER_RULE_PRIORITY
           then Inl (ValueError ''priority must be in 1..4294967294'')
           else Inr \<lparr>nr_action = action, nr_direction = direction, nr_protocol = protocol,
                     nr_cidr = cidr, nr_domain = domain, nr_port_range = port_range,
                     nr_sandbox_port_range = sandbox_range, nr_priority = priority\<rparr>)))))))"

definition opt_entry :: "string \<Rightarrow> ('a \<Rightarrow> json) \<Rightarrow> 'a option \<Rightarrow> jobj" where
  "opt_entry key f v = (case v of None \<Rightarrow> [] | Some x \<Rightarrow> [(key, f x)])"

definition NetworkRule_to_dict :: "NetworkRule \<Rightarrow> json" where
  "NetworkRule_to_dict r =
     (let peer = opt_entry ''cidr'' JStr (nr_cidr r) @ opt_entry ''domain'' JStr (nr_domain r)
                 @ opt_entry ''portRange'' PortRange_to_dict (nr_port_range r)
      in JObj ([(''action'', JStr (nr_action r)), (''direction'', JStr (nr_direction r)),
                (''protocol'', JStr (nr_protocol r)), (''priority'', JInt (nr_priority r))]
               @ (if peer = [] then [] else [(''peer'', JObj peer)])
               @ opt_entry ''sandboxPortRange'' PortRange_to_dict (nr_sandbox_port_range r)))"

section \<open>Policies\<close>

text \<open>
  A sequence argument: a string or bytes, something iterable with its items, or a value that is
  not iterable.
\<close>

datatype 'a seq_arg = SeqText | SeqItems "'a list" | SeqOther

definition seq_items :: "string \<Rightarrow> 'a seq_arg \<Rightarrow> 'a list result" where
  "seq_items msg arg =
     (case arg of
        SeqText \<Rightarrow> Inl (TypeError msg)
      | SeqItems xs \<Rightarrow> Inr xs
      | SeqOther \<Rightarrow> Inl (TypeError ''object is not iterable''))"

definition all_instances :: "string \<Rightarrow> 'a obj_arg list \<Rightarrow> 'a list result" where
  "all_instances msg xs =
     map_result (\<lambda>x. case x of TheObj r \<Rightarrow> Inr r | _ \<Rightarrow> Inl (TypeError msg)) xs"

record TrafficPolicy =
  tp_ingress_default_action :: string
  tp_egress_default_action :: string
  tp_rules :: "NetworkRule list"
  tp_mode :: string

definition TrafficPolicy_init ::
  "json \<Rightarrow> json \<Rightarrow> NetworkRule obj_arg seq_arg \<Rightarrow> json \<Rightarrow> TrafficPolicy result" where
  "TrafficPolicy_init ingress egress rules mode =
     bind_result (normalize_choice ingress ''ingress_default_action'' NETWORK_ACTIONS) (\<lambda>ingress.
     bind_result (normalize_choice egress ''egress_default_action'' NETWORK_ACTIONS) (\<lambda>egress.
     bind_result (normalize_choice mode ''mode'' TRAFFIC_POLICY_MODES) (\<lambda>mode.
     bind_result (seq_items ''rules must be a sequence of NetworkRule values'' rules) (\<lambda>rules.
     if length rules > MAX_TRAFFIC_RULES
     then Inl (ValueError ''traffic policies support at most 256 rules'')
     else
     bind_result (all_instances ''rules must contain only NetworkRule values'' rules) (\<lambda>rules.
       Inr \<lparr>tp_ingress_default_action = ingress, tp_egress_default_action = egress,
            tp_rules = rules, tp_mode = mode\<rparr>)))))"

definition TrafficPolicy_to_dict :: "TrafficPolicy \<Rightarrow> json" where
  "TrafficPolicy_to_dict p =
     JObj [(''ingressDefaultAction'', JStr (tp_ingress_default_action p)),
           (''egressDefaultAction'', JStr (tp_egress_default_action p)),
           (''mode'', JStr (tp_mode p)),
           (''rules'', JList (map NetworkRule_to_dict (tp_rules p)))]"

record DNSRule =
  dr_pattern :: string
  dr_action :: string

definition DNSRule_init :: "(string \<Rightarrow> string option) \<Rightarrow> json \<Rightarrow> json \<Rightarrow> DNSRule result" where
  "DNSRule_init idna pattern action =
     bind_result (normalize_choice action ''action'' NETWORK_ACTIONS) (\<lambda>action.
     bind_result (normalize_domain_pattern idna pattern ''DNS'') (\<lambda>pattern.
       Inr \<lparr>dr_pattern = pattern, dr_action = action\<rparr>))"

definition DNSRule_to_dict :: "DNSRule \<Rightarrow> json" where
  "DNSRule_to_dict r = JObj [(''action'', JStr (dr_action r)), (''pattern'', JStr (dr_pattern r))]"

record DNSPolicy =
  dp_default_action :: string
  dp_rules :: "DNSRule list"

definition DNSPolicy_init :: "json \<Rightarrow> DNSRule obj_arg seq_arg \<Rightarrow> DNSPolicy result" where
  "DNSPolicy_init default_action rules =
     bind_result (normalize_choice default_action ''default_action'' NETWORK_ACTIONS) (\<lambda>action.
     bind_result (seq_items ''rules must be a sequence of DNSRule values'' rules) (\<lambda>rules.
     bind_result (all_instances ''rules must contain only DNSRule values'' rules) (\<lambda>rules.
       Inr \<lparr>dp_default_action = action, dp_rules = rules\<rparr>)))"

definition DNSPolicy_to_dict :: "DNSPolicy \<Rightarrow> json" where
  "DNSPolicy_to_dict p =
     JObj [(''defaultAction'', JStr (dp_default_action p)),
           (''rules'', JList (map DNSRule_to_dict (dp_rules p)))]"

record NetworkPolicy =
  np_block_network :: bool
  np_dns_blacklist :: "string list"
  np_traffic :: "TrafficPolicy option"
  np_dns :: "DNSPolicy option"

definition obj_or_none :: "string \<Rightarrow> 'a obj_arg \<Rightarrow> 'a option result" where
  "obj_or_none msg arg =
     (case arg of NoObj \<Rightarrow> Inr None | TheObj x \<Rightarrow> Inr (Some x) | OtherObj _ \<Rightarrow> Inl (TypeError msg))"

definition NetworkPolicy_init ::
  "(string \<Rightarrow> string option) \<Rightarrow> json \<Rightarrow> json seq_arg \<Rightarrow> TrafficPolicy obj_arg \<Rightarrow> DNSPolicy obj_arg
     \<Rightarrow> NetworkPolicy result" where
  "NetworkPolicy_init idna block_network dns_blacklist traffic dns =
     bind_result (boolean ''block_network'' block_network) (\<lambda>block_network.
     bind_result (seq_items ''dns_blacklist must be a sequence of patterns'' dns_blacklist) (\<lambda>items.
     bind_result (map_result (normalize_dns_pattern idna) items) (\<lambda>patterns.
     let normalized = py_unique patterns in
     if block_network \<and> normalized \<noteq> []
     then Inl (ValueError ''block_network and dns_blacklist cannot be combined'')
     else if (block_network \<or> normalized \<noteq> []) \<and> (traffic \<noteq> NoObj \<or> dns \<noteq> NoObj)
     then Inl (ValueError ''legacy and schema v2 network policies cannot be combined'')
     else
     bind_result (obj_or_none ''traffic must be a TrafficPolicy or None'' traffic) (\<lambda>traffic.
     bind_result (obj_or_none ''dns must be a DNSPolicy or None'' dns) (\<lambda>dns.
       Inr \<lparr>np_block_network = block_network, np_dns_blacklist = normalized,
            np_traffic = traffic, np_dns = dns\<rparr>)))))"

definition NetworkPolicy_block :: "NetworkPolicy result" where
  "NetworkPolicy_block = NetworkPolicy_init (\<lambda>_. None) (JBool True) (SeqItems []) NoObj NoObj"

definition NetworkPolicy_deny_dns ::
  "(string \<Rightarrow> string option) \<Rightarrow> json list \<Rightarrow> NetworkPolicy result" where
  "NetworkPolicy_deny_dns idna patterns =
     (if patterns = [] then Inl (ValueError ''deny_dns requires at least one domain pattern'')
      else NetworkPolicy_init idna (JBool False) (SeqItems patterns) NoObj NoObj)"

definition NetworkPolicy_allowlist ::
  "NetworkRule obj_arg list \<Rightarrow> json \<Rightarrow> json \<Rightarrow> json \<Rightarrow> NetworkPolicy result" where
  "NetworkPolicy_allowlist rules default_action ingress_default_action mode =
     (if rules = [] then Inl (ValueError ''allowlist requires at least one NetworkRule'')
      else
        bind_result (TrafficPolicy_init ingress_default_action default_action (SeqItems rules) mode)
          (\<lambda>traffic. NetworkPolicy_init (\<lambda>_. None) (JBool False) (SeqItems []) (TheObj traffic) NoObj))"

definition NetworkPolicy_is_empty :: "NetworkPolicy \<Rightarrow> bool" where
  "NetworkPolicy_is_empty p \<longleftrightarrow>
     \<not> np_block_network p \<and> np_dns_blacklist p = [] \<and> np_traffic p = None \<and> np_dns p = None"

definition NetworkPolicy_to_dict :: "NetworkPolicy \<Rightarrow> jobj" where
  "NetworkPolicy_to_dict p =
     (if np_block_network p then [(''blockNetwork'', JBool True)] else [])
     @ (if np_dns_blacklist p \<noteq> [] then [(''dnsBlacklist'', JList (map JStr (np_dns_blacklist p)))] else [])
     @ (if np_traffic p \<noteq> None \<or> np_dns p \<noteq> None
        then (''schemaVersion'', JInt 2) # opt_entry ''traffic'' TrafficPolicy_to_dict (np_traffic p)
             @ opt_entry ''dns'' DNSPolicy_to_dict (np_dns p)
        else [])"

section \<open>S3 sources and mounts\<close>

record S3Config =
  s3_endpoint :: string
  s3_bucket :: string
  s3_object :: string
  s3_access_key :: "string option"
  s3_secret_key :: "string option"

definition S3Config_init ::
  "json \<Rightarrow> json \<Rightarrow> json \<Rightarrow> string option \<Rightarrow> string option \<Rightarrow> S3Config result" where
  "S3Config_init endpoint bucket object access_key secret_key =
     bind_result (non_empty_str ''endpoint'' endpoint) (\<lambda>endpoint.
     bind_result (non_empty_str ''bucket'' bucket) (\<lambda>bucket.
     bind_result (non_empty_str ''object'' object) (\<lambda>object.
       Inr \<lparr>s3_endpoint = endpoint, s3_bucket = bucket, s3_object = object,
            s3_access_key = access_key, s3_secret_key = secret_key\<rparr>)))"

definition S3Config_to_dict :: "S3Config \<Rightarrow> json" where
  "S3Config_to_dict c =
     JObj ([(''endpoint'', JStr (s3_endpoint c)), (''bucket'', JStr (s3_bucket c)),
            (''object'', JStr (s3_object c))]
           @ opt_entry ''accessKey'' JStr (s3_access_key c)
           @ opt_entry ''secretKey'' JStr (s3_secret_key c))"

record Mount =
  mt_target :: string
  mt_image_url :: "string option"
  mt_s3_config :: "S3Config option"
  mt_type :: string

definition Mount_init :: "json \<Rightarrow> json \<Rightarrow> S3Config option \<Rightarrow> json \<Rightarrow> Mount result" where
  "Mount_init target image_url s3_config kind =
     (case as_str target of
        None \<Rightarrow> Inl (ValueError ''target must be an absolute sandbox path'')
      | Some path \<Rightarrow>
          if \<not> starts_with ''/'' path
          then Inl (ValueError ''target must be an absolute sandbox path'')
          else if (image_url \<noteq> JNull) = (s3_config \<noteq> None)
          then Inl (ValueError ''Exactly one of image_url, s3_config must be specified'')
          else
            bind_result (opt_field (non_empty_str ''image_url'') image_url) (\<lambda>image.
              case as_str kind of
                None \<Rightarrow> Inl (ValueError ''type must be bind or erofs'')
              | Some k \<Rightarrow>
                  if k \<notin> {''bind'', ''erofs''} then Inl (ValueError ''type must be bind or erofs'')
                  else Inr \<lparr>mt_target = path, mt_image_url = image, mt_s3_config = s3_config,
                            mt_type = k\<rparr>))"

definition Mount_to_dict :: "Mount \<Rightarrow> json" where
  "Mount_to_dict m =
     JObj ([(''type'', JStr (mt_type m)), (''target'', JStr (mt_target m)),
            (''options'', JList [JStr ''ro''])]
           @ opt_entry ''image_url'' JStr (mt_image_url m)
           @ opt_entry ''s3_config'' S3Config_to_dict (mt_s3_config m))"


section \<open>Validated values are stable\<close>

lemma lower_char_lower [simp]: "lower_char (lower_char c) = lower_char c"
proof -
  have "of_char c < (256::nat)" by simp
  then show ?thesis by (auto simp: lower_char_def Let_def take_bit_eq_mod)
qed

lemma py_lower_idem [simp]: "py_lower (py_lower s) = py_lower s"
  by (simp add: py_lower_def)

lemma normalize_choice_eq:
  "normalize_choice v name allowed = Inr s \<longleftrightarrow>
     (\<exists>t. v = JStr t \<and> s = py_lower (py_strip t) \<and> s \<in> set allowed)"
  by (cases v) (auto simp: normalize_choice_def)

lemma choice_keep:
  "s \<in> set allowed \<Longrightarrow> py_lower (py_strip s) = s \<Longrightarrow> normalize_choice (JStr s) name allowed = Inr s"
  by (auto simp: normalize_choice_eq)

text \<open>The lists of allowed values hold only lower-case words.\<close>

lemma allowed_words:
  "s \<in> set NETWORK_ACTIONS \<union> set NETWORK_DIRECTIONS \<union> set NETWORK_PROTOCOLS \<union> set TRAFFIC_POLICY_MODES
   \<Longrightarrow> py_lower (py_strip s) = s"
  by (auto simp: NETWORK_ACTIONS_def NETWORK_DIRECTIONS_def NETWORK_PROTOCOLS_def
      TRAFFIC_POLICY_MODES_def py_lower_def lower_char_def strip_by_def lstrip_by_def
      rstrip_by_def py_isspace_def)

lemma choice_again:
  assumes "normalize_choice v name allowed = Inr s"
    and "set allowed \<subseteq> set NETWORK_ACTIONS \<union> set NETWORK_DIRECTIONS \<union> set NETWORK_PROTOCOLS
           \<union> set TRAFFIC_POLICY_MODES"
  shows "normalize_choice (JStr s) name' allowed = Inr s"
proof -
  from assms(1) have "s \<in> set allowed" by (auto simp: normalize_choice_eq)
  then show ?thesis using assms(2) allowed_words [of s] by (intro choice_keep) auto
qed

lemma label_char_plain:
  assumes "label_char c"
  shows "lower_char c = c" "\<not> py_isspace c" "c \<noteq> CHR ''*''" "c \<noteq> CHR ''?''" "c \<noteq> CHR ''.''"
    "(of_char c :: nat) \<le> 127"
  using assms by (auto simp: label_char_def lower_char_def py_isspace_def Let_def)

text \<open>A name made of good labels passes every textual step of the normaliser unchanged.\<close>

definition domain_ok :: "string \<Rightarrow> bool" where
  "domain_ok s \<longleftrightarrow> length s \<le> 253 \<and> list_all label_ok (split_on (CHR ''.'') s)"

lemma domain_ok_char:
  assumes "domain_ok s" "c \<in> set s" "c \<noteq> CHR ''.''"
  shows "label_char c"
proof -
  obtain w where w: "w \<in> set (split_on (CHR ''.'') s)" "c \<in> set w"
    using assms set_split_on [of s "CHR ''.''"] by auto
  with assms(1) show ?thesis by (auto simp: domain_ok_def label_ok_def list_all_iff)
qed

lemma split_on_snoc: "split_on d (s @ [d]) = split_on d s @ [[]]"
proof (induction s)
  case (Cons c s)
  obtain v vs where "split_on d s = v # vs" by (cases "split_on d s") auto
  with Cons show ?case by auto
qed simp

lemma domain_ok_plain:
  assumes "domain_ok s"
  shows "s \<noteq> []" "py_lower s = s" "\<And>c. c \<in> set s \<Longrightarrow> \<not> py_isspace c" "last s \<noteq> CHR ''.''"
    "CHR ''*'' \<notin> set s" "CHR ''?'' \<notin> set s"
proof -
  have dot: "lower_char (CHR ''.'') = CHR ''.''" "\<not> py_isspace (CHR ''.'')"
    by (simp_all add: lower_char_def py_isspace_def)
  show ne: "s \<noteq> []" using assms by (auto simp: domain_ok_def label_ok_def)
  have low: "lower_char c = c" if "c \<in> set s" for c
    using dot(1) label_char_plain(1) domain_ok_char [OF assms that] by (cases "c = CHR ''.''") auto
  then show "py_lower s = s" by (simp add: py_lower_def map_idI)
  show "\<not> py_isspace c" if "c \<in> set s" for c
    using dot(2) label_char_plain(2) domain_ok_char [OF assms that] by (cases "c = CHR ''.''") auto
  show "last s \<noteq> CHR ''.''"
  proof
    assume "last s = CHR ''.''"
    then have "s = butlast s @ [CHR ''.'']" using ne append_butlast_last_id by metis
    then have "[] \<in> set (split_on (CHR ''.'') s)" by (metis split_on_snoc in_set_conv_decomp)
    with assms show False by (auto simp: domain_ok_def label_ok_def list_all_iff)
  qed
  show "CHR ''*'' \<notin> set s"
    using domain_ok_char [OF assms, of "CHR ''*''"] label_char_plain(3) by auto
  show "CHR ''?'' \<notin> set s"
    using domain_ok_char [OF assms, of "CHR ''?''"] label_char_plain(4) by auto
qed

lemma encoded_form:
  assumes "(if bad then Inl e
     else bind_result (case idna val of Some v \<Rightarrow> Inr v | None \<Rightarrow> if wide then Inl e else Inr val)
       (\<lambda>x. if length x > 253 \<or> \<not> list_all label_ok (split_on (CHR ''.'') x) then Inl e
            else Inr (if wc then ''*.'' @ x else x))) = Inr s"
  shows "\<exists>w. domain_ok w \<and> (s = w \<or> s = ''*.'' @ w) \<and> (idna w = None \<or> (\<exists>u. idna u = Some w))"
proof (cases "idna val")
  case None
  with assms show ?thesis by (intro exI [of _ val]) (auto simp: domain_ok_def split: if_splits)
next
  case (Some w)
  with assms show ?thesis by (intro exI [of _ w]) (auto simp: domain_ok_def split: if_splits)
qed

lemma domain_pattern_form:
  assumes "normalize_domain_pattern idna v descr = Inr s"
  shows "\<exists>w. domain_ok w \<and> (s = w \<or> s = ''*.'' @ w) \<and> (idna w = None \<or> (\<exists>u. idna u = Some w))"
proof -
  obtain raw where raw: "as_str v = Some raw"
    using assms by (cases v) (auto simp: normalize_domain_pattern_def)
  show ?thesis
    using assms unfolding raw normalize_domain_pattern_def Let_def option.case by (rule encoded_form)
qed

lemma wild_plain:
  assumes "domain_ok w"
  shows "py_lower (py_strip (''*.'' @ w)) = ''*.'' @ w"
proof -
  have "lower_char (CHR ''*'') = CHR ''*''" "lower_char (CHR ''.'') = CHR ''.''"
    "\<not> py_isspace (CHR ''*'')" "\<not> py_isspace (CHR ''.'')"
    by (simp_all add: lower_char_def py_isspace_def)
  moreover have "py_lower (''*.'' @ w) = py_lower ''*.'' @ py_lower w" by (simp add: py_lower_def)
  moreover have "strip_by py_isspace (''*.'' @ w) = ''*.'' @ w"
    by (rule strip_by_none) (use calculation domain_ok_plain(3) [OF assms] in auto)
  ultimately show ?thesis using domain_ok_plain(2) [OF assms] by (simp add: py_lower_def)
qed

lemma name_plain:
  assumes "domain_ok w"
  shows "py_lower (py_strip w) = w"
proof -
  have "strip_by py_isspace w = w" by (rule strip_by_none) (use domain_ok_plain(3) [OF assms] in auto)
  then show ?thesis using domain_ok_plain(2) [OF assms] by simp
qed

lemma ends_with_dot: "ends_with ''.'' s \<longleftrightarrow> s \<noteq> [] \<and> last s = CHR ''.''"
  by (auto simp: ends_with_iff) (metis append_butlast_last_id)

lemma not_wild: "domain_ok w \<Longrightarrow> \<not> starts_with ''*.'' w"
  using domain_ok_plain(5) [of w] by (auto simp: starts_with_iff)

lemma domain_ok_ascii: "domain_ok w \<Longrightarrow> c \<in> set w \<Longrightarrow> \<not> (of_char c :: nat) > 127"
  using domain_ok_char [of w c] label_char_plain(6) [of c] by (cases "c = CHR ''.''") auto

lemma domain_pattern_again:
  assumes ok: "domain_ok w" and s: "s = w \<or> s = ''*.'' @ w"
    and idna: "idna w = None \<or> idna w = Some w"
  shows "normalize_domain_pattern idna (JStr s) descr = Inr s"
proof -
  note p = domain_ok_plain [OF ok]
  have ascii: "\<not> (\<exists>c\<in>set w. (of_char c :: nat) > 127)" using domain_ok_ascii [OF ok] by blast
  have d: "length w \<le> 253" "list_all label_ok (split_on (CHR ''.'') w)" using ok by (auto simp: domain_ok_def)
  from s show ?thesis
  proof
    assume "s = w"
    then show ?thesis
      using p idna ascii d not_wild [OF ok]
      by (auto simp: normalize_domain_pattern_def name_plain [OF ok] ends_with_dot Let_def not_less)
  next
    assume s: "s = ''*.'' @ w"
    have "\<not> ends_with ''.'' (''*.'' @ w)" using p by (simp add: ends_with_dot)
    then show ?thesis
      using p idna ascii d wild_plain [OF ok]
      by (auto simp: s normalize_domain_pattern_def Let_def not_less)
  qed
qed

text \<open>
  Documented behaviour of IDNA encoding: an encoded name is ASCII already and encodes to itself.
\<close>

definition idna_stable :: "(string \<Rightarrow> string option) \<Rightarrow> bool" where
  "idna_stable idna \<longleftrightarrow> (\<forall>u w. idna u = Some w \<longrightarrow> idna w = Some w)"

lemma domain_pattern_twice:
  assumes "idna_stable idna" "normalize_domain_pattern idna v descr = Inr s"
  shows "normalize_domain_pattern idna (JStr s) descr' = Inr s"
  using domain_pattern_form [OF assms(2)] assms(1) domain_pattern_again
  by (metis idna_stable_def)

lemma print_address_chars:
  "c \<in> set (print_address w) \<Longrightarrow> is_dec_digit c \<or> c = CHR ''.''"
proof -
  assume c: "c \<in> set (print_address w)"
  obtain a b d e where "word_octets w = [a, b, d, e]" by (rule octets_cases)
  then show ?thesis using c dec_digits_digit by (auto simp: print_address_def)
qed

lemma print_network_strip: "py_strip (print_network n) = print_network n"
proof (rule strip_by_none)
  fix c assume "c \<in> set (print_network n)"
  then have "is_dec_digit c \<or> c = CHR ''.'' \<or> c = CHR ''/''"
    using print_address_chars dec_digits_digit by (auto simp: print_network_def)
  then show "\<not> py_isspace c" by (auto simp: is_dec_digit_def py_isspace_def Let_def)
qed

lemma normalize_cidr_eq:
  "normalize_cidr v = Inr s \<longleftrightarrow>
     (\<exists>t n. v = JStr t \<and> py_strip t \<noteq> [] \<and> parse_network (py_strip t) = Some n \<and> s = print_network n)"
  by (cases v) (auto simp: normalize_cidr_def split: option.splits)

lemma cidr_twice:
  assumes "normalize_cidr v = Inr s"
  shows "normalize_cidr (JStr s) = Inr s"
proof -
  obtain n where n: "network_ok n" "s = print_network n"
    using assms parse_network_ok by (auto simp: normalize_cidr_eq)
  have "s \<noteq> []" by (simp add: n(2) print_network_def)
  then show ?thesis using n parse_print_network [OF n(1)] print_network_strip [of n]
    by (auto simp: normalize_cidr_eq)
qed

section \<open>What a validated rule satisfies\<close>

definition port_range_ok :: "PortRange \<Rightarrow> bool" where
  "port_range_ok r \<longleftrightarrow> 1 \<le> pr_first r \<and> pr_first r \<le> pr_last r \<and> pr_last r \<le> 65535"

lemma port_endpoint_eq:
  "port_endpoint name v = Inr n \<longleftrightarrow> v = JInt n \<and> 1 \<le> n \<and> n \<le> 65535"
  by (cases v) (auto simp: port_endpoint_def)

lemma PortRange_init_eq:
  "PortRange_init f l = Inr r \<longleftrightarrow>
     port_range_ok r \<and> f = JInt (pr_first r)
     \<and> (l = JInt (pr_last r) \<or> l = JNull \<and> pr_last r = pr_first r)"
  by (cases r) (auto simp: PortRange_init_def result_simps port_endpoint_eq port_range_ok_def
      split: if_splits)

interpretation port_norm: normaliser "\<lambda>(f, l). PortRange_init f l"
    "\<lambda>r. (JInt (pr_first r), JInt (pr_last r))"
  by unfold_locales (auto simp: PortRange_init_eq)

interpretation cidr_norm: normaliser normalize_cidr JStr
  by unfold_locales (rule cidr_twice)

text \<open>A port argument that is an instance already is one that \<open>PortRange\<close> has validated.\<close>

definition port_arg_ok :: "PortRange obj_arg \<Rightarrow> bool" where
  "port_arg_ok a = (case a of TheObj r \<Rightarrow> port_range_ok r | _ \<Rightarrow> True)"

lemma normalize_port_range_ok:
  "normalize_port_range a name = Inr (Some r) \<Longrightarrow> port_arg_ok a \<Longrightarrow> port_range_ok r"
  by (auto simp: normalize_port_range_def port_arg_ok_def bind_result_eq_Inr PortRange_init_eq
      split: obj_arg.splits option.splits)

lemma normalize_port_range_pred:
  "normalize_port_range a name = Inr w \<Longrightarrow> port_arg_ok a \<Longrightarrow> pred_option port_range_ok w"
  by (cases w) (auto dest: normalize_port_range_ok)

definition network_rule_ok :: "NetworkRule \<Rightarrow> bool" where
  "network_rule_ok r \<longleftrightarrow>
     nr_action r \<in> set NETWORK_ACTIONS \<and> nr_direction r \<in> set NETWORK_DIRECTIONS
     \<and> nr_protocol r \<in> set NETWORK_PROTOCOLS
     \<and> (nr_cidr r = None \<or> nr_domain r = None)
     \<and> (nr_domain r = None \<or> nr_direction r = ''egress'')
     \<and> (nr_port_range r = None \<and> nr_sandbox_port_range r = None \<or> nr_protocol r \<in> {''tcp'', ''udp''})
     \<and> pred_option port_range_ok (nr_port_range r) \<and> pred_option port_range_ok (nr_sandbox_port_range r)
     \<and> pred_option cidr_norm.normal (nr_cidr r)
     \<and> 1 \<le> nr_priority r \<and> nr_priority r \<le> MAX_USER_RULE_PRIORITY"

text \<open>The arguments that a rule's own fields are.\<close>

definition json_opt :: "string option \<Rightarrow> json" where
  "json_opt v = (case v of None \<Rightarrow> JNull | Some s \<Rightarrow> JStr s)"

definition obj_opt :: "'a option \<Rightarrow> 'a obj_arg" where
  "obj_opt v = (case v of None \<Rightarrow> NoObj | Some x \<Rightarrow> TheObj x)"

definition rule_args_of :: "NetworkRule \<Rightarrow> rule_args" where
  "rule_args_of r =
     \<lparr>ra_action = JStr (nr_action r), ra_direction = JStr (nr_direction r),
      ra_protocol = JStr (nr_protocol r), ra_cidr = json_opt (nr_cidr r),
      ra_domain = json_opt (nr_domain r), ra_port_range = obj_opt (nr_port_range r),
      ra_sandbox_port_range = obj_opt (nr_sandbox_port_range r), ra_priority = JInt (nr_priority r)\<rparr>"

lemma opt_field_eq:
  "opt_field f v = Inr w \<longleftrightarrow> (v = JNull \<and> w = None \<or> v \<noteq> JNull \<and> (\<exists>s. f v = Inr s \<and> w = Some s))"
  by (cases "f v") (auto simp: opt_field_def)

lemma opt_field_again:
  assumes "opt_field f v = Inr w" "\<And>s. f v = Inr s \<Longrightarrow> f' (JStr s) = Inr s"
  shows "opt_field f' (json_opt w) = Inr w"
  using assms by (auto simp: opt_field_eq json_opt_def)

lemma normalize_port_range_again: "normalize_port_range (obj_opt w) name = Inr w"
  by (cases w) (simp_all add: normalize_port_range_def obj_opt_def)

lemma NetworkRule_init_eq:
  "NetworkRule_init idna a = Inr r \<longleftrightarrow>
     normalize_choice (ra_action a) ''action'' NETWORK_ACTIONS = Inr (nr_action r)
     \<and> normalize_choice (ra_direction a) ''direction'' NETWORK_DIRECTIONS = Inr (nr_direction r)
     \<and> normalize_choice (ra_protocol a) ''protocol'' NETWORK_PROTOCOLS = Inr (nr_protocol r)
     \<and> (ra_cidr a = JNull \<or> ra_domain a = JNull)
     \<and> opt_field normalize_cidr (ra_cidr a) = Inr (nr_cidr r)
     \<and> opt_field (\<lambda>v. normalize_domain_pattern idna v ''domain'') (ra_domain a) = Inr (nr_domain r)
     \<and> (nr_domain r = None \<or> nr_direction r = ''egress'')
     \<and> normalize_port_range (ra_port_range a) ''port_range'' = Inr (nr_port_range r)
     \<and> normalize_port_range (ra_sandbox_port_range a) ''sandbox_port_range'' = Inr (nr_sandbox_port_range r)
     \<and> (nr_port_range r = None \<and> nr_sandbox_port_range r = None \<or> nr_protocol r \<in> {''tcp'', ''udp''})
     \<and> ra_priority a = JInt (nr_priority r) \<and> 1 \<le> nr_priority r \<and> nr_priority r \<le> MAX_USER_RULE_PRIORITY"
  unfolding NetworkRule_init_def result_simps as_Some by (cases r) auto

text \<open>
  C16: A constructed \<open>NetworkRule\<close> is well formed: known action, direction and protocol, at most one
  of a CIDR and a domain, a domain only for egress, ports only for TCP or UDP and within 1..65535,
  a canonical CIDR, and a priority that leaves the reserved top value free. Constructing a rule
  again from the fields of a constructed rule gives the same rule.
\<close>

theorem network_rule_normal_form:
  assumes "idna_stable idna" "NetworkRule_init idna a = Inr r"
    and "port_arg_ok (ra_port_range a)" "port_arg_ok (ra_sandbox_port_range a)"
  shows "network_rule_ok r \<and> NetworkRule_init idna (rule_args_of r) = Inr r"
proof
  note parts = assms(2) [unfolded NetworkRule_init_eq]
  have ports: "pred_option port_range_ok (nr_port_range r)"
    "pred_option port_range_ok (nr_sandbox_port_range r)"
    using parts assms(3,4) normalize_port_range_pred by blast+
  have cidr: "pred_option cidr_norm.normal (nr_cidr r)"
    using parts cidr_norm.norm_normal by (auto simp: opt_field_eq)
  show "network_rule_ok r"
    using parts ports cidr by (auto simp: network_rule_ok_def normalize_choice_eq opt_field_eq)
  have "opt_field normalize_cidr (json_opt (nr_cidr r)) = Inr (nr_cidr r)"
    "opt_field (\<lambda>v. normalize_domain_pattern idna v ''domain'') (json_opt (nr_domain r)) = Inr (nr_domain r)"
    using parts cidr_twice domain_pattern_twice [OF assms(1)] by (auto intro: opt_field_again)
  moreover have "json_opt (nr_cidr r) = JNull \<or> json_opt (nr_domain r) = JNull"
    using parts by (auto simp: opt_field_eq json_opt_def)
  moreover have "normalize_choice (JStr (nr_action r)) ''action'' NETWORK_ACTIONS = Inr (nr_action r)"
    "normalize_choice (JStr (nr_direction r)) ''direction'' NETWORK_DIRECTIONS = Inr (nr_direction r)"
    "normalize_choice (JStr (nr_protocol r)) ''protocol'' NETWORK_PROTOCOLS = Inr (nr_protocol r)"
    using parts choice_again by blast+
  ultimately show "NetworkRule_init idna (rule_args_of r) = Inr r"
    using parts by (simp add: NetworkRule_init_eq rule_args_of_def normalize_port_range_again)
qed

definition sample_rule_args :: rule_args where
  "sample_rule_args =
     \<lparr>ra_action = JStr ''Deny '', ra_direction = JStr ''egress'', ra_protocol = JStr ''TCP'',
      ra_cidr = JStr ''10.1.2.3/8'', ra_domain = JNull, ra_port_range = OtherObj (JInt 443),
      ra_sandbox_port_range = NoObj, ra_priority = JInt 7\<rparr>"

definition sample_rule :: NetworkRule where
  "sample_rule =
     \<lparr>nr_action = ''deny'', nr_direction = ''egress'', nr_protocol = ''tcp'',
      nr_cidr = Some ''10.0.0.0/8'', nr_domain = None,
      nr_port_range = Some \<lparr>pr_first = 443, pr_last = 443\<rparr>, nr_sandbox_port_range = None,
      nr_priority = 7\<rparr>"

lemma dec_digits_step:
  "10 \<le> n \<Longrightarrow> dec_digits n = dec_digits (n div 10) @ [char_of (48 + n mod 10)]"
  by (subst dec_digits.simps) simp

lemma sample_networks:
  "parse_network ''10.1.2.3/8'' = Some \<lparr>net_address = 0x0A000000, net_prefix = 8\<rparr>"
  "parse_network ''192.168.7.9/16'' = Some \<lparr>net_address = 0xC0A80000, net_prefix = 16\<rparr>"
  "print_network \<lparr>net_address = 0x0A000000, net_prefix = 8\<rparr> = ''10.0.0.0/8''"
  "print_network \<lparr>net_address = 0xC0A80000, net_prefix = 16\<rparr> = ''192.168.0.0/16''"
proof -
  have masks: "netmask 8 = 0xFF000000" "netmask 16 = 0xFFFF0000"
    by (simp_all add: netmask_def mask_eq_exp_minus_1)
  have addresses: "parse_address ''10.1.2.3'' = Some 0x0A010203"
    "parse_address ''192.168.7.9'' = Some 0xC0A80709"
    by (simp_all add: parse_address_def parse_octet_def is_dec_digit_def dec_value_def be_value_def
        octets_word_def)
  have prefixes: "parse_prefix ''8'' = Some 8" "parse_prefix ''16'' = Some 16"
    by (simp_all add: parse_prefix_def is_dec_digit_def dec_value_def be_value_def)
  show "parse_network ''10.1.2.3/8'' = Some \<lparr>net_address = 0x0A000000, net_prefix = 8\<rparr>"
    "parse_network ''192.168.7.9/16'' = Some \<lparr>net_address = 0xC0A80000, net_prefix = 16\<rparr>"
    by (simp_all add: parse_network_def addresses prefixes masks)
  have octets: "word_octets 0x0A000000 = [10, 0, 0, 0]" "word_octets 0xC0A80000 = [192, 168, 0, 0]"
    by (simp_all add: word_octets_def py_simps)
  have digits: "dec_digits 10 = ''10''" "dec_digits 192 = ''192''" "dec_digits 168 = ''168''"
    "dec_digits 16 = ''16''" "dec_digits 8 = ''8''"
    by (simp_all add: dec_digits_step dec_digits_small char_of_eq_iff take_bit_eq_mod)
  show "print_network \<lparr>net_address = 0x0A000000, net_prefix = 8\<rparr> = ''10.0.0.0/8''"
    "print_network \<lparr>net_address = 0xC0A80000, net_prefix = 16\<rparr> = ''192.168.0.0/16''"
    by (simp_all add: print_network_def print_address_def octets digits)
qed

theorem network_rule_normal_form_witness:
  "NetworkRule_init Some sample_rule_args = Inr sample_rule \<and> network_rule_ok sample_rule
   \<and> NetworkRule_init Some (rule_args_of sample_rule) = Inr sample_rule"
proof -
  have "py_strip ''10.1.2.3/8'' = ''10.1.2.3/8''" by code_simp
  then have "normalize_cidr (JStr ''10.1.2.3/8'') = Inr ''10.0.0.0/8''"
    using sample_networks(1,3) by (auto simp: normalize_cidr_eq)
  moreover have "normalize_choice (JStr ''Deny '') ''action'' NETWORK_ACTIONS = Inr ''deny''"
    "normalize_choice (JStr ''egress'') ''direction'' NETWORK_DIRECTIONS = Inr ''egress''"
    "normalize_choice (JStr ''TCP'') ''protocol'' NETWORK_PROTOCOLS = Inr ''tcp''"
    by code_simp+
  ultimately have r: "NetworkRule_init Some sample_rule_args = Inr sample_rule"
    by (simp add: NetworkRule_init_eq sample_rule_args_def sample_rule_def opt_field_def
        normalize_port_range_def PortRange_init_def port_endpoint_def MAX_USER_RULE_PRIORITY_def)
  have "idna_stable Some" by (simp add: idna_stable_def)
  then show ?thesis
    using network_rule_normal_form [of Some sample_rule_args sample_rule] r
    by (simp add: port_arg_ok_def sample_rule_args_def)
qed



section \<open>What the server is sent determines the policy\<close>

lemma opt_entry_inject:
  assumes "inj f"
  shows "opt_entry k f x = opt_entry k f y \<longleftrightarrow> x = y"
  using assms by (cases x; cases y) (auto simp: opt_entry_def inj_eq)

lemma opt_entry_keys: "fst ` set (opt_entry k f x) \<subseteq> {k}"
  by (cases x) (auto simp: opt_entry_def)

lemma opt_entry_append_inject:
  assumes "inj f" "k \<notin> fst ` set xs" "k \<notin> fst ` set ys"
  shows "opt_entry k f x @ xs = opt_entry k f y @ ys \<longleftrightarrow> x = y \<and> xs = ys"
  using assms(2,3) by (cases x; cases y) (auto simp: opt_entry_def inj_eq [OF assms(1)])

lemma opt_entry_mem: "k \<noteq> k' \<Longrightarrow> k \<notin> fst ` set (opt_entry k' f x)"
  using opt_entry_keys [of k' f x] by auto

lemma inj_JStr: "inj JStr" by (simp add: inj_def)

lemma inj_port_dict: "inj PortRange_to_dict"
  by (auto simp: inj_def PortRange_to_dict_def PortRange.equality)

definition rule_peer :: "NetworkRule \<Rightarrow> jobj" where
  "rule_peer r = opt_entry ''cidr'' JStr (nr_cidr r) @ opt_entry ''domain'' JStr (nr_domain r)
                 @ opt_entry ''portRange'' PortRange_to_dict (nr_port_range r)"

lemma rule_peer_inject:
  "rule_peer r = rule_peer r' \<longleftrightarrow>
     nr_cidr r = nr_cidr r' \<and> nr_domain r = nr_domain r' \<and> nr_port_range r = nr_port_range r'"
  by (simp add: rule_peer_def opt_entry_append_inject opt_entry_inject inj_JStr inj_port_dict
      opt_entry_mem image_Un)

lemma peer_entry: "(if p = [] then [] else [(k, JObj p)]) = opt_entry k JObj (if p = [] then None else Some p)"
  by (simp add: opt_entry_def)

lemma rule_dict_inject: "NetworkRule_to_dict r = NetworkRule_to_dict r' \<longleftrightarrow> r = r'"
proof
  assume eq: "NetworkRule_to_dict r = NetworkRule_to_dict r'"
  have inj: "inj JObj" by (simp add: inj_def)
  from eq have h: "nr_action r = nr_action r'" "nr_direction r = nr_direction r'"
    "nr_protocol r = nr_protocol r'" "nr_priority r = nr_priority r'"
    "(if rule_peer r = [] then None else Some (rule_peer r))
       = (if rule_peer r' = [] then None else Some (rule_peer r'))"
    "nr_sandbox_port_range r = nr_sandbox_port_range r'"
    unfolding NetworkRule_to_dict_def Let_def peer_entry rule_peer_def [symmetric]
    by (simp_all add: opt_entry_append_inject opt_entry_inject inj inj_port_dict opt_entry_mem)
  then have "rule_peer r = rule_peer r'" by (auto split: if_splits)
  then show "r = r'" using h by (simp add: rule_peer_inject NetworkRule.equality)
qed simp

lemma inj_rule_dict: "inj NetworkRule_to_dict"
  by (simp add: inj_def rule_dict_inject)

lemma inj_traffic_dict: "inj TrafficPolicy_to_dict"
  using inj_rule_dict
  by (auto simp: inj_def TrafficPolicy_to_dict_def inj_map_eq_map [OF inj_rule_dict] TrafficPolicy.equality)

lemma inj_dns_rule_dict: "inj DNSRule_to_dict"
  by (auto simp: inj_def DNSRule_to_dict_def DNSRule.equality)

lemma inj_dns_dict: "inj DNSPolicy_to_dict"
  by (auto simp: inj_def DNSPolicy_to_dict_def inj_map_eq_map [OF inj_dns_rule_dict] DNSPolicy.equality)

text \<open>
  C18: A network policy's JSON form loses nothing: two policies with the same form are the same
  policy, so no rule, port range, default or mode is dropped or confused on the way to the server.
\<close>

theorem policy_dict_faithful:
  "NetworkPolicy_to_dict p = NetworkPolicy_to_dict q \<longleftrightarrow> p = q"
proof
  assume eq: "NetworkPolicy_to_dict p = NetworkPolicy_to_dict q"
  have lookup: "map_of (NetworkPolicy_to_dict x) ''blockNetwork''
      = (if np_block_network x then Some (JBool True) else None)"
    "map_of (NetworkPolicy_to_dict x) ''dnsBlacklist''
      = (if np_dns_blacklist x = [] then None else Some (JList (map JStr (np_dns_blacklist x))))"
    "map_of (NetworkPolicy_to_dict x) ''traffic'' = map_option TrafficPolicy_to_dict (np_traffic x)"
    "map_of (NetworkPolicy_to_dict x) ''dns'' = map_option DNSPolicy_to_dict (np_dns x)" for x
    by (cases "np_traffic x"; cases "np_dns x"; simp add: NetworkPolicy_to_dict_def opt_entry_def)+
  have "np_block_network p = np_block_network q"
    using lookup(1) [of p] lookup(1) [of q] eq by (simp split: if_splits)
  moreover have "np_dns_blacklist p = np_dns_blacklist q"
    using lookup(2) [of p] lookup(2) [of q] eq
    by (simp add: inj_map_eq_map inj_JStr split: if_splits)
  moreover have "np_traffic p = np_traffic q"
    using lookup(3) [of p] lookup(3) [of q] eq option.inj_map [OF inj_traffic_dict] by (auto simp: inj_eq)
  moreover have "np_dns p = np_dns q"
    using lookup(4) [of p] lookup(4) [of q] eq option.inj_map [OF inj_dns_dict] by (auto simp: inj_eq)
  ultimately show "p = q" by (simp add: NetworkPolicy.equality)
qed simp

section \<open>Connection settings\<close>

lemma non_empty_str_eq: "non_empty_str name v = Inr s \<longleftrightarrow> v = JStr s \<and> py_strip s \<noteq> []"
  by (cases v) (auto simp: non_empty_str_def)

lemma trim_address_eq:
  "trim_address name s = Inr t \<longleftrightarrow> t = rstrip_by (\<lambda>c. c = CHR ''/'') (py_strip s) \<and> t \<noteq> []"
  by (auto simp: trim_address_def Let_def)

definition address_ok :: "string \<Rightarrow> bool" where
  "address_ok s \<longleftrightarrow> s \<noteq> [] \<and> last s \<noteq> CHR ''/'' \<and> \<not> py_isspace (hd s)"

lemma trim_address_ok:
  assumes "trim_address name s = Inr t"
  shows "address_ok t"
proof -
  have t: "t = rstrip_by (\<lambda>c. c = CHR ''/'') (py_strip s)" "t \<noteq> []"
    using assms by (auto simp: trim_address_eq)
  then have "hd t = hd (py_strip s)" by (simp add: rstrip_by_hd)
  moreover have "py_strip s \<noteq> []" using t by (auto simp: rstrip_by_def)
  ultimately show ?thesis
    using t rstrip_by_ends [of "\<lambda>c. c = CHR ''/''" "py_strip s"] strip_by_ends [of py_isspace s]
    by (auto simp: address_ok_def)
qed

text \<open>
  A \<open>ConnectionConfig\<close> that is constructed, from arguments or from the environment, has a
  non-empty server address (and gateway address, if any) that neither starts with a space nor ends
  in a slash, so that a path can be appended, and a non-empty stripped token.
\<close>

theorem connection_config_clean:
  assumes "ConnectionConfig_init server token tls gateway gtls verify = Inr c"
  shows "address_ok (cc_server_address c) \<and> pred_option address_ok (cc_gateway_address c)
    \<and> cc_token c \<noteq> [] \<and> py_strip (cc_token c) = cc_token c"
proof -
  obtain s t where st: "trim_address ''server_address'' s = Inr (cc_server_address c)"
    "cc_token c = py_strip t" "py_strip t \<noteq> []"
    using assms by (auto simp: ConnectionConfig_init_def result_simps non_empty_str_eq)
  have "cc_gateway_address c = None
      \<or> (\<exists>g a. trim_address ''gateway_address'' g = Inr a \<and> cc_gateway_address c = Some a)"
    using assms
    by (auto simp: ConnectionConfig_init_def result_simps non_empty_str_eq split: if_splits)
      (auto simp: map_sum_def split: sum.splits)
  then show ?thesis using st trim_address_ok by auto
qed

theorem connection_config_clean_witness:
  "ConnectionConfig_from_env [''YR_SERVER_ADDRESS'' \<mapsto> '' host:80// '', ''YR_TOKEN'' \<mapsto> ''t '']
       None None True
     = Inr \<lparr>cc_server_address = ''host:80'', cc_token = ''t'', cc_use_tls = True,
            cc_gateway_address = None, cc_gateway_use_tls = False, cc_verify_tls = True\<rparr>
   \<and> address_ok ''host:80''"
proof -
  have e: "ConnectionConfig_from_env [''YR_SERVER_ADDRESS'' \<mapsto> '' host:80// '', ''YR_TOKEN'' \<mapsto> ''t '']
       None None True
     = Inr \<lparr>cc_server_address = ''host:80'', cc_token = ''t'', cc_use_tls = True,
            cc_gateway_address = None, cc_gateway_use_tls = False, cc_verify_tls = True\<rparr>"
    by code_simp
  have i: "ConnectionConfig_init (JStr '' host:80// '') (JStr ''t '') (JBool True) JNull (JBool False) (JBool True)
     = Inr \<lparr>cc_server_address = ''host:80'', cc_token = ''t'', cc_use_tls = True,
            cc_gateway_address = None, cc_gateway_use_tls = False, cc_verify_tls = True\<rparr>"
    by code_simp
  from connection_config_clean [OF i] e show ?thesis by simp
qed

text \<open>
  The slash is removed after the spaces: an address written with a space before its slash keeps
  the space, and cleaning the cleaned value again would change it.
\<close>

theorem server_address_keeps_space:
  "trim_address ''server_address'' ''host /'' = Inr ''host '' \<and>
   trim_address ''server_address'' ''host '' = Inr ''host''"
  by code_simp

section \<open>Network policies\<close>

lemma obj_opt_NoObj [simp]: "obj_opt x = NoObj \<longleftrightarrow> x = None" "NoObj = obj_opt x \<longleftrightarrow> x = None"
  by (cases x; auto simp: obj_opt_def)+

lemma NetworkPolicy_init_Inr:
  assumes "NetworkPolicy_init idna b items t d = Inr p"
  obtains xs ps where "map_result (normalize_dns_pattern idna) xs = Inr ps"
    "np_dns_blacklist p = py_unique ps"
    "np_block_network p \<longrightarrow> np_dns_blacklist p = []"
    "np_block_network p \<or> np_dns_blacklist p \<noteq> [] \<longrightarrow> np_traffic p = None \<and> np_dns p = None"
proof -
  have bool: "boolean name b = Inr x \<longleftrightarrow> b = JBool x" for name x
    by (cases b) (auto simp: boolean_def)
  have seq: "seq_items msg items = Inr xs \<longleftrightarrow> items = SeqItems xs" for msg xs
    by (cases items) (auto simp: seq_items_def)
  have obj: "obj_or_none msg a = Inr x \<longleftrightarrow> a = obj_opt x" for msg and a :: "'x obj_arg" and x
    by (cases a; cases x) (auto simp: obj_or_none_def obj_opt_def)
  have fields: "Inr \<lparr>np_block_network = x, np_dns_blacklist = y, np_traffic = z, np_dns = w\<rparr> = Inr p
      \<longleftrightarrow> x = np_block_network p \<and> y = np_dns_blacklist p \<and> z = np_traffic p \<and> w = np_dns p"
    for x y z w by (cases p) auto
  from assms show ?thesis
    unfolding NetworkPolicy_init_def Let_def result_simps bool seq obj fields
    by (elim exE conjE) (rule that, assumption, auto)
qed

lemma map_result_mem:
  "map_result f xs = Inr ys \<Longrightarrow> y \<in> set ys \<Longrightarrow> \<exists>x\<in>set xs. f x = Inr y"
  by (induction xs arbitrary: ys) (auto simp: bind_result_eq_Inr)

text \<open>
  The legacy switches and the schema 2 sections of a \<open>NetworkPolicy\<close> never mix: blocking
  excludes a DNS blacklist, either excludes a traffic and a DNS policy. The blacklist holds each
  canonical name once, and \<open>to_dict\<close> is empty exactly for the empty policy.
\<close>

theorem network_policy_modes:
  assumes "idna_stable idna" "NetworkPolicy_init idna b items t d = Inr p"
  shows "distinct (np_dns_blacklist p)
    \<and> \<not> (np_block_network p \<and> np_dns_blacklist p \<noteq> [])
    \<and> \<not> ((np_block_network p \<or> np_dns_blacklist p \<noteq> []) \<and> (np_traffic p \<noteq> None \<or> np_dns p \<noteq> None))
    \<and> list_all (\<lambda>s. normalize_dns_pattern idna (JStr s) = Inr s) (np_dns_blacklist p)
    \<and> (NetworkPolicy_to_dict p = [] \<longleftrightarrow> NetworkPolicy_is_empty p)"
proof -
  from NetworkPolicy_init_Inr [OF assms(2)]
  obtain xs ps where ps: "map_result (normalize_dns_pattern idna) xs = Inr ps"
    "np_dns_blacklist p = py_unique ps"
    and modes: "np_block_network p \<longrightarrow> np_dns_blacklist p = []"
    "np_block_network p \<or> np_dns_blacklist p \<noteq> [] \<longrightarrow> np_traffic p = None \<and> np_dns p = None"
    by metis
  have "normalize_dns_pattern idna (JStr s) = Inr s" if "s \<in> set ps" for s
  proof -
    obtain x where "normalize_dns_pattern idna x = Inr s"
      using map_result_mem [OF ps(1) \<open>s \<in> set ps\<close>] by blast
    then show ?thesis
      unfolding normalize_dns_pattern_def by (rule domain_pattern_twice [OF assms(1)])
  qed
  moreover have "NetworkPolicy_to_dict p = [] \<longleftrightarrow> NetworkPolicy_is_empty p"
    by (auto simp: NetworkPolicy_to_dict_def NetworkPolicy_is_empty_def)
  ultimately show ?thesis
    using ps(2) modes by (auto simp: list_all_iff)
qed

theorem network_policy_modes_witness:
  "NetworkPolicy_init Some (JBool False) (SeqItems [JStr '' Ex.COM. '', JStr ''ex.com'']) NoObj NoObj
     = Inr \<lparr>np_block_network = False, np_dns_blacklist = [''ex.com''], np_traffic = None, np_dns = None\<rparr>
   \<and> normalize_dns_pattern Some (JStr ''ex.com'') = Inr ''ex.com''"
proof -
  have p: "NetworkPolicy_init Some (JBool False) (SeqItems [JStr '' Ex.COM. '', JStr ''ex.com'']) NoObj NoObj
     = Inr \<lparr>np_block_network = False, np_dns_blacklist = [''ex.com''], np_traffic = None, np_dns = None\<rparr>"
    by code_simp
  have "idna_stable Some" by (simp add: idna_stable_def)
  from network_policy_modes [OF this p] p show ?thesis by simp
qed

end
