(* ===== verification/Scheduling.thy ===== *)
theory Scheduling
  imports NetTypes
begin

text \<open>
  \<open>scheduling.py\<close>: label operators, affinity groups and the encoder that adds the runtime and
  node constraints of \<open>Sandbox\<close> to the caller's groups. At the end, the documented meaning of the
  groups and the proof that the encoder conjoins the constraints to it.
\<close>

section \<open>Label operators and affinity groups\<close>

text \<open>The dictionaries \<open>_KINDS\<close>, \<open>_AFFINITIES\<close> and \<open>_OPERATORS\<close>.\<close>

definition KINDS :: "(string \<times> int) list" where
  "KINDS = [(''resource'', 0), (''instance'', 1)]"

definition AFFINITIES :: "(string \<times> int) list" where
  "AFFINITIES = [(''preferred'', 0), (''preferred_anti'', 1), (''required'', 2), (''required_anti'', 3)]"

definition OPERATORS :: "(string \<times> int) list" where
  "OPERATORS = [(''in'', 0), (''not_in'', 1), (''exists'', 2), (''not_exists'', 3)]"

definition code_of :: "(string \<times> int) list \<Rightarrow> string \<Rightarrow> json" where
  "code_of table name = (case map_of table name of None \<Rightarrow> JNull | Some n \<Rightarrow> JInt n)"

text \<open>A string argument that must be a key of a table.\<close>

definition table_key :: "(string \<times> int) list \<Rightarrow> string \<Rightarrow> json \<Rightarrow> string result" where
  "table_key table msg v =
     (case as_str v of
        None \<Rightarrow> Inl (ValueError msg)
      | Some s \<Rightarrow> if map_of table s = None then Inl (ValueError msg) else Inr s)"

text \<open>An argument that must be a sequence other than a string; other iterables are refused too.\<close>

definition strict_seq :: "string \<Rightarrow> 'a seq_arg \<Rightarrow> 'a list result" where
  "strict_seq msg arg = (case arg of SeqItems xs \<Rightarrow> Inr xs | _ \<Rightarrow> Inl (TypeError msg))"

record LabelOperator =
  lo_key :: string
  lo_operator :: string
  lo_values :: "string list"

definition LabelOperator_init :: "json \<Rightarrow> json \<Rightarrow> json seq_arg \<Rightarrow> LabelOperator result" where
  "LabelOperator_init key operator vals =
     bind_result (non_empty_str ''label key'' key) (\<lambda>key.
     bind_result (table_key OPERATORS ''operator must be in, not_in, exists, or not_exists'' operator)
       (\<lambda>operator.
     bind_result (strict_seq ''label values must be a sequence of strings'' vals) (\<lambda>vals.
     bind_result
       (map_result (\<lambda>v. case as_str v of
            None \<Rightarrow> Inl (TypeError ''label values must contain only strings'') | Some s \<Rightarrow> Inr s) vals)
       (\<lambda>vals.
     if operator \<in> {''in'', ''not_in''} \<and> vals = []
     then Inl (ValueError ''in and not_in require label values'')
     else if operator \<in> {''exists'', ''not_exists''} \<and> vals \<noteq> []
     then Inl (ValueError ''exists and not_exists do not accept label values'')
     else Inr \<lparr>lo_key = key, lo_operator = operator, lo_values = vals\<rparr>))))"

definition LabelOperator_to_dict :: "LabelOperator \<Rightarrow> json" where
  "LabelOperator_to_dict op =
     JObj [(''type'', code_of OPERATORS (lo_operator op)), (''labelKey'', JStr (lo_key op)),
           (''labelValues'', JList (map JStr (lo_values op)))]"

record ScheduleAffinity =
  sa_label_ops :: "LabelOperator list"
  sa_kind :: string
  sa_affinity :: string
  sa_preferred_priority :: bool
  sa_preferred_anti_other_labels :: bool

definition ScheduleAffinity_init ::
  "LabelOperator obj_arg seq_arg \<Rightarrow> json \<Rightarrow> json \<Rightarrow> json \<Rightarrow> json \<Rightarrow> ScheduleAffinity result" where
  "ScheduleAffinity_init label_ops kind affinity priority anti =
     bind_result (table_key KINDS ''kind must be resource or instance'' kind) (\<lambda>kind.
     bind_result
       (table_key AFFINITIES
          ''affinity must be preferred, preferred_anti, required, or required_anti'' affinity) (\<lambda>affinity.
     bind_result (boolean ''preferred_priority'' priority) (\<lambda>priority.
     bind_result (boolean ''preferred_anti_other_labels'' anti) (\<lambda>anti.
     bind_result (strict_seq ''label_ops must be a sequence of LabelOperator objects'' label_ops) (\<lambda>ops.
     if ops = [] then Inl (ValueError ''label_ops must not be empty'')
     else
     bind_result (all_instances ''label_ops must contain only LabelOperator objects'' ops) (\<lambda>ops.
       Inr \<lparr>sa_label_ops = ops, sa_kind = kind, sa_affinity = affinity,
            sa_preferred_priority = priority, sa_preferred_anti_other_labels = anti\<rparr>))))))"

definition ScheduleAffinity_to_dict :: "ScheduleAffinity \<Rightarrow> jobj" where
  "ScheduleAffinity_to_dict a =
     [(''kind'', code_of KINDS (sa_kind a)), (''affinity'', code_of AFFINITIES (sa_affinity a)),
      (''labelOps'', JList (map LabelOperator_to_dict (sa_label_ops a))),
      (''preferredPriority'', JBool (sa_preferred_priority a)),
      (''preferredAntiOtherLabels'', JBool (sa_preferred_anti_other_labels a))]"

definition selector :: "ScheduleAffinity \<Rightarrow> string \<times> string" where
  "selector a =
     (sa_kind a,
      if sa_kind a = ''resource'' \<and> sa_preferred_priority a \<and> sa_preferred_anti_other_labels a
      then (if sa_affinity a = ''preferred'' then ''required''
            else if sa_affinity a = ''preferred_anti'' then ''required_anti'' else sa_affinity a)
      else sa_affinity a)"

section \<open>The encoder\<close>

text \<open>\<open>encoded["labelOps"].extend(xs)\<close>.\<close>

definition extend_label_ops :: "json list \<Rightarrow> jobj \<Rightarrow> jobj" where
  "extend_label_ops xs d =
     (case jget d ''labelOps'' of
        JList ops \<Rightarrow> AList.update ''labelOps'' (JList (ops @ xs)) d
      | _ \<Rightarrow> d)"

record build_state =
  bs_priorities :: "((string \<times> string) \<times> bool) list"
  bs_result :: "jobj list"
  bs_has_required :: bool

definition build_item ::
  "LabelOperator list \<Rightarrow> build_state \<Rightarrow> ScheduleAffinity obj_arg \<Rightarrow> build_state result" where
  "build_item constraints st item =
     (case item of
        TheObj a \<Rightarrow>
          (let sel = selector a in
           if map_of (bs_priorities st) sel \<notin> {None, Some (sa_preferred_priority a)}
           then Inl (ValueError ''affinities sharing a selector must agree on preferred_priority'')
           else
             (let required = (sel = (''resource'', ''required''));
                  encoded = ScheduleAffinity_to_dict a;
                  encoded = (if required then extend_label_ops (map LabelOperator_to_dict constraints) encoded
                             else encoded)
              in Inr (st\<lparr>bs_priorities := AList.update sel (sa_preferred_priority a) (bs_priorities st),
                         bs_result := bs_result st @ [encoded],
                         bs_has_required := (bs_has_required st \<or> required)\<rparr>)))
      | _ \<Rightarrow> Inl (TypeError ''schedule_affinities must contain only ScheduleAffinity objects''))"

fun build_items ::
  "LabelOperator list \<Rightarrow> build_state \<Rightarrow> ScheduleAffinity obj_arg list \<Rightarrow> build_state result" where
  "build_items constraints st [] = Inr st"
| "build_items constraints st (item # items) =
     bind_result (build_item constraints st item) (\<lambda>st. build_items constraints st items)"

definition constraint_op :: "string \<Rightarrow> string option \<Rightarrow> LabelOperator list result" where
  "constraint_op key v =
     (case v of
        None \<Rightarrow> Inr []
      | Some s \<Rightarrow> map_sum id (\<lambda>op. [op]) (LabelOperator_init (JStr key) (JStr ''in'') (SeqItems [JStr s])))"

definition build_schedule_affinities ::
  "ScheduleAffinity obj_arg seq_arg option \<Rightarrow> string option \<Rightarrow> string option \<Rightarrow> jobj list result" where
  "build_schedule_affinities affinities runtime node_id =
     bind_result
       (case affinities of
          None \<Rightarrow> Inr []
        | Some s \<Rightarrow> strict_seq ''schedule_affinities must be a sequence of ScheduleAffinity objects'' s)
       (\<lambda>items.
     bind_result (constraint_op ''sandbox.runtime'' runtime) (\<lambda>by_runtime.
     bind_result (constraint_op ''NODE_ID'' node_id) (\<lambda>by_node.
     let constraints = by_runtime @ by_node in
     bind_result
       (build_items constraints \<lparr>bs_priorities = [], bs_result = [], bs_has_required = False\<rparr> items)
       (\<lambda>st.
     if constraints \<noteq> [] \<and> \<not> bs_has_required st
     then
       bind_result
         (ScheduleAffinity_init (SeqItems (map TheObj constraints)) (JStr ''resource'') (JStr ''required'')
            (JBool False) (JBool False))
         (\<lambda>a. Inr (bs_result st @ [ScheduleAffinity_to_dict a]))
     else Inr (bs_result st)))))"

section \<open>The meaning of affinity groups\<close>

text \<open>
  As the docstrings state it: \<open>in\<close> needs one of the values, \<open>not_in\<close> also matches a missing key,
  the expressions of a group are conjoined, required resource groups are conjoined too unless
  priority makes them alternatives. A node is the map of its labels.
\<close>

definition op_matches :: "(string \<rightharpoonup> string) \<Rightarrow> LabelOperator \<Rightarrow> bool" where
  "op_matches node op =
     (let v = node (lo_key op) in
      if lo_operator op = ''in'' then (case v of None \<Rightarrow> False | Some s \<Rightarrow> s \<in> set (lo_values op))
      else if lo_operator op = ''not_in'' then (case v of None \<Rightarrow> True | Some s \<Rightarrow> s \<notin> set (lo_values op))
      else if lo_operator op = ''exists'' then v \<noteq> None
      else v = None)"

definition group_matches :: "(string \<rightharpoonup> string) \<Rightarrow> ScheduleAffinity \<Rightarrow> bool" where
  "group_matches node a = list_all (op_matches node) (sa_label_ops a)"

definition is_required :: "ScheduleAffinity \<Rightarrow> bool" where
  "is_required a \<longleftrightarrow> selector a = (''resource'', ''required'')"

definition admits :: "ScheduleAffinity list \<Rightarrow> (string \<rightharpoonup> string) \<Rightarrow> bool" where
  "admits groups node =
     (let req = filter is_required groups in
      req = [] \<or>
      (if list_ex sa_preferred_priority req then list_ex (group_matches node) req
       else list_all (group_matches node) req))"

section \<open>What the encoder returns\<close>

definition add_ops :: "LabelOperator list \<Rightarrow> ScheduleAffinity \<Rightarrow> ScheduleAffinity" where
  "add_ops cs a = (if is_required a then a\<lparr>sa_label_ops := sa_label_ops a @ cs\<rparr> else a)"

definition standalone :: "LabelOperator list \<Rightarrow> ScheduleAffinity" where
  "standalone cs = \<lparr>sa_label_ops = cs, sa_kind = ''resource'', sa_affinity = ''required'',
     sa_preferred_priority = False, sa_preferred_anti_other_labels = False\<rparr>"

definition groups_of :: "ScheduleAffinity list \<Rightarrow> LabelOperator list \<Rightarrow> ScheduleAffinity list" where
  "groups_of affs cs =
     map (add_ops cs) affs @ (if cs \<noteq> [] \<and> \<not> list_ex is_required affs then [standalone cs] else [])"

definition constraints_of :: "string option \<Rightarrow> string option \<Rightarrow> LabelOperator list" where
  "constraints_of runtime node_id =
     (case runtime of None \<Rightarrow> []
      | Some r \<Rightarrow> [\<lparr>lo_key = ''sandbox.runtime'', lo_operator = ''in'', lo_values = [r]\<rparr>])
     @ (case node_id of None \<Rightarrow> []
        | Some n \<Rightarrow> [\<lparr>lo_key = ''NODE_ID'', lo_operator = ''in'', lo_values = [n]\<rparr>])"

definition priorities_agree :: "ScheduleAffinity list \<Rightarrow> bool" where
  "priorities_agree affs \<longleftrightarrow>
     (\<forall>a\<in>set affs. \<forall>b\<in>set affs. selector a = selector b \<longrightarrow>
        sa_preferred_priority a = sa_preferred_priority b)"

lemma encoded_add_ops:
  "(if is_required a then extend_label_ops (map LabelOperator_to_dict cs) (ScheduleAffinity_to_dict a)
    else ScheduleAffinity_to_dict a) = ScheduleAffinity_to_dict (add_ops cs a)"
  by (simp add: add_ops_def extend_label_ops_def ScheduleAffinity_to_dict_def jget_def)

lemma constraint_op_eq:
  "key \<in> {''sandbox.runtime'', ''NODE_ID''} \<Longrightarrow>
   constraint_op key v
     = Inr (case v of None \<Rightarrow> [] | Some s \<Rightarrow> [\<lparr>lo_key = key, lo_operator = ''in'', lo_values = [s]\<rparr>])"
  by (cases v) (auto simp: constraint_op_def LabelOperator_init_def non_empty_str_def table_key_def
      strict_seq_def OPERATORS_def strip_by_def lstrip_by_def rstrip_by_def py_isspace_def)

lemma all_instances_The [simp]: "all_instances msg (map TheObj xs) = Inr xs"
  by (induction xs) (auto simp: all_instances_def)

lemma standalone_init:
  "cs \<noteq> [] \<Longrightarrow>
   ScheduleAffinity_init (SeqItems (map TheObj cs)) (JStr ''resource'') (JStr ''required'')
     (JBool False) (JBool False) = Inr (standalone cs)"
  by (simp add: ScheduleAffinity_init_def table_key_def strict_seq_def KINDS_def AFFINITIES_def
      boolean_def standalone_def)

text \<open>The groups seen so far are the ones whose priority is recorded.\<close>

definition prio_inv :: "build_state \<Rightarrow> ScheduleAffinity list \<Rightarrow> bool" where
  "prio_inv st seen \<longleftrightarrow>
     (\<forall>sel p. map_of (bs_priorities st) sel = Some p \<longleftrightarrow>
        (\<exists>a\<in>set seen. selector a = sel \<and> sa_preferred_priority a = p))
     \<and> (bs_has_required st \<longleftrightarrow> list_ex is_required seen)"

lemma build_item_ok:
  assumes "prio_inv st seen"
  shows "build_item cs st (TheObj a) =
    (if \<exists>b\<in>set seen. selector b = selector a \<and> sa_preferred_priority b \<noteq> sa_preferred_priority a
     then Inl (ValueError ''affinities sharing a selector must agree on preferred_priority'')
     else Inr (st\<lparr>bs_priorities := AList.update (selector a) (sa_preferred_priority a) (bs_priorities st),
                  bs_result := bs_result st @ [ScheduleAffinity_to_dict (add_ops cs a)],
                  bs_has_required := (bs_has_required st \<or> is_required a)\<rparr>))"
proof -
  have "map_of (bs_priorities st) (selector a) \<notin> {None, Some (sa_preferred_priority a)} \<longleftrightarrow>
      (\<exists>p. map_of (bs_priorities st) (selector a) = Some p \<and> p \<noteq> sa_preferred_priority a)"
    by auto
  also have "\<dots> \<longleftrightarrow> (\<exists>b\<in>set seen. selector b = selector a \<and> sa_preferred_priority b \<noteq> sa_preferred_priority a)"
    using assms [unfolded prio_inv_def, THEN conjunct1, rule_format] by blast
  finally have bad: "map_of (bs_priorities st) (selector a) \<notin> {None, Some (sa_preferred_priority a)} \<longleftrightarrow>
      (\<exists>b\<in>set seen. selector b = selector a \<and> sa_preferred_priority b \<noteq> sa_preferred_priority a)" .
  show ?thesis
    unfolding build_item_def Let_def obj_arg.case bad is_required_def [symmetric] encoded_add_ops ..
qed

lemma prio_inv_step:
  assumes "prio_inv st seen"
    and "\<not> (\<exists>b\<in>set seen. selector b = selector a \<and> sa_preferred_priority b \<noteq> sa_preferred_priority a)"
  shows "prio_inv (st\<lparr>bs_priorities := AList.update (selector a) (sa_preferred_priority a) (bs_priorities st),
                  bs_result := r, bs_has_required := (bs_has_required st \<or> is_required a)\<rparr>) (seen @ [a])"
  using assms by (auto simp: prio_inv_def update_conv)

lemma priorities_agree_snoc:
  "priorities_agree (xs @ [a]) \<longleftrightarrow> priorities_agree xs \<and>
     \<not> (\<exists>b\<in>set xs. selector b = selector a \<and> sa_preferred_priority b \<noteq> sa_preferred_priority a)"
  by (auto simp: priorities_agree_def)

lemma priorities_agree_prefix: "priorities_agree (xs @ ys) \<Longrightarrow> priorities_agree xs"
  by (auto simp: priorities_agree_def)

lemma build_items_ok:
  assumes "prio_inv st seen" "priorities_agree seen"
  shows "if priorities_agree (seen @ affs)
    then \<exists>st'. build_items cs st (map TheObj affs) = Inr st'
       \<and> bs_result st' = bs_result st @ map (ScheduleAffinity_to_dict \<circ> add_ops cs) affs
       \<and> (bs_has_required st' \<longleftrightarrow> list_ex is_required (seen @ affs))
    else build_items cs st (map TheObj affs)
       = Inl (ValueError ''affinities sharing a selector must agree on preferred_priority'')"
  using assms
proof (induction affs arbitrary: st seen)
  case Nil
  then show ?case by (simp add: prio_inv_def)
next
  case (Cons a affs)
  show ?case
  proof (cases "\<exists>b\<in>set seen. selector b = selector a \<and> sa_preferred_priority b \<noteq> sa_preferred_priority a")
    case True
    then have "\<not> priorities_agree ((seen @ [a]) @ affs)"
      using priorities_agree_prefix priorities_agree_snoc by blast
    then show ?thesis using build_item_ok [OF Cons.prems(1), of cs a, unfolded if_P [OF True]] by simp
  next
    case False
    note step = build_item_ok [OF Cons.prems(1), of cs a, unfolded if_not_P [OF False]]
    have "priorities_agree (seen @ [a])" using False Cons.prems(2) by (simp add: priorities_agree_snoc)
    from Cons.IH [OF prio_inv_step [OF Cons.prems(1) False,
          of "bs_result st @ [ScheduleAffinity_to_dict (add_ops cs a)]"] this]
    show ?thesis unfolding list.map build_items.simps step bind_result_simps
      by (cases "priorities_agree (seen @ a # affs)") auto
  qed
qed

lemma build_schedule_eq:
  "build_schedule_affinities (Some (SeqItems (map TheObj affs))) runtime node_id =
     (if priorities_agree affs
      then Inr (map ScheduleAffinity_to_dict (groups_of affs (constraints_of runtime node_id)))
      else Inl (ValueError ''affinities sharing a selector must agree on preferred_priority''))"
proof -
  let ?st = "\<lparr>bs_priorities = [], bs_result = [], bs_has_required = False\<rparr>"
  let ?cs = "constraints_of runtime node_id"
  have "prio_inv ?st []" "priorities_agree []" by (simp_all add: prio_inv_def priorities_agree_def)
  note items = build_items_ok [OF this, of affs ?cs, simplified]
  obtain cr cn where ops: "constraint_op ''sandbox.runtime'' runtime = Inr cr"
    "constraint_op ''NODE_ID'' node_id = Inr cn" and cs: "cr @ cn = ?cs"
    by (simp add: constraint_op_eq constraints_of_def)
  have "build_schedule_affinities (Some (SeqItems (map TheObj affs))) runtime node_id =
      bind_result (build_items ?cs ?st (map TheObj affs)) (\<lambda>st.
        if ?cs \<noteq> [] \<and> \<not> bs_has_required st
        then Inr (bs_result st @ [ScheduleAffinity_to_dict (standalone ?cs)])
        else Inr (bs_result st))"
    unfolding build_schedule_affinities_def option.case strict_seq_def seq_arg.case ops
      bind_result_simps Let_def cs
    by (rule arg_cong [where f = "bind_result _"]) (auto simp: standalone_init)
  then show ?thesis
    using items by (auto simp: groups_of_def)
qed

lemma group_matches_add:
  "is_required a \<Longrightarrow> group_matches node (add_ops cs a) \<longleftrightarrow> group_matches node a \<and> list_all (op_matches node) cs"
  by (simp add: group_matches_def add_ops_def)

lemma is_required_add [simp]: "is_required (add_ops cs a) = is_required a"
  by (simp add: is_required_def selector_def add_ops_def)

lemma priority_add [simp]: "sa_preferred_priority (add_ops cs a) = sa_preferred_priority a"
  by (simp add: add_ops_def)

lemma is_required_standalone [simp]: "is_required (standalone cs)"
  by (simp add: is_required_def selector_def standalone_def)

lemma admits_groups_of:
  "admits (groups_of affs cs) node \<longleftrightarrow> admits affs node \<and> list_all (op_matches node) cs"
proof (cases "list_ex is_required affs")
  case True
  let ?req = "filter is_required affs"
  have req: "filter is_required (groups_of affs cs) = map (add_ops cs) ?req" "?req \<noteq> []"
    using True by (auto simp: groups_of_def filter_map comp_def filter_empty_conv list_ex_iff)
  have m: "group_matches node (add_ops cs a) \<longleftrightarrow> group_matches node a \<and> list_all (op_matches node) cs"
    if "a \<in> set ?req" for a using that by (simp add: group_matches_add)
  obtain a\<^sub>0 where a0: "a\<^sub>0 \<in> set ?req" using req(2) by (cases ?req) auto
  have "list_ex (group_matches node) (map (add_ops cs) ?req)
      \<longleftrightarrow> (\<exists>a\<in>set ?req. group_matches node a \<and> list_all (op_matches node) cs)"
    unfolding list_ex_iff set_map using m by blast
  then have some: "list_ex (group_matches node) (map (add_ops cs) ?req)
      \<longleftrightarrow> list_ex (group_matches node) ?req \<and> list_all (op_matches node) cs"
    unfolding list_ex_iff by blast
  have "list_all (group_matches node) (map (add_ops cs) ?req)
      \<longleftrightarrow> (\<forall>a\<in>set ?req. group_matches node a \<and> list_all (op_matches node) cs)"
    unfolding list_all_iff set_map using m [unfolded list_all_iff] by blast
  then have "list_all (group_matches node) (map (add_ops cs) ?req)
      \<longleftrightarrow> list_all (group_matches node) ?req \<and> list_all (op_matches node) cs"
    using a0 unfolding list_all_iff by blast
  moreover have "list_ex sa_preferred_priority (map (add_ops cs) ?req) = list_ex sa_preferred_priority ?req"
    by (simp add: list_ex_iff)
  ultimately show ?thesis using req some by (simp add: admits_def Let_def)
next
  case False
  then have "filter is_required affs = []" "filter is_required (map (add_ops cs) affs) = []"
    by (auto simp: filter_empty_conv list_ex_iff)
  moreover have "filter is_required (groups_of affs cs) = (if cs = [] then [] else [standalone cs])"
    using False calculation by (simp add: groups_of_def)
  ultimately show ?thesis by (simp add: admits_def Let_def group_matches_def) (simp add: standalone_def)
qed


end
