(* ===== verification/Http.thy ===== *)
theory Http
  imports NetTypes
begin

text \<open>
  What \<open>_transport.py\<close> is written against: \<open>httpx\<close> requests, responses and exceptions, the clock,
  \<open>uuid.uuid4\<close> and \<open>json.loads\<close>, all operations of an arbitrary world; the exceptions of the
  client; the state of a \<open>SandboxClient\<close> and its pure helpers. An operation of the client is an
  action on a session: it returns a value or raises, and may change the session either way. A
  session also keeps the requests sent so far and their outcomes, in order; the code does not read
  that log. \<open>se_files\<close> are the local files, by path.
\<close>

section \<open>Requests, responses, exceptions\<close>

datatype transport_error =
    ConnectError | ConnectTimeout | PoolTimeout
  | ReadError | ReadTimeout | RemoteProtocolError | WriteError | WriteTimeout
  | OtherRequestError

text \<open>
  \<open>PyError\<close> is a built-in exception, \<open>HttpxError\<close> an \<open>httpx.RequestError\<close> that is not
  translated. Messages leave out the text of the error they quote.
\<close>

datatype client_exc =
    SandboxError string
  | SandboxHTTPError string int jobj
  | RetryableHTTPStatus string
  | HttpxError transport_error
  | PyError py_exc
  | FileNotFoundError string

record http_req =
  rq_method :: string
  rq_url :: string
  rq_params :: "(string \<times> string) list"
  rq_json :: json
  rq_content :: "byte list option"
  rq_headers :: "(string \<times> string) list"
  rq_timeout :: "rat option"
  rq_pool_timeout :: "rat option"

text \<open>
  The body of a response as the code reads it: \<open>text\<close>, \<open>json()\<close> (None where it raises
  \<open>ValueError\<close>), \<open>iter_lines()\<close> and \<open>iter_bytes()\<close>. A streamed body may break off:
  \<open>rs_broken\<close> is the exception its iterator then raises at the end of what it has yielded.
\<close>

record response =
  rs_status :: int
  rs_content_type :: string
  rs_text :: string
  rs_json :: "json option"
  rs_lines :: "string list"
  rs_chunks :: "byte list list"
  rs_broken :: "transport_error option"

record 'w ops =
  op_send :: "http_req \<Rightarrow> 'w \<Rightarrow> (transport_error + response) \<times> 'w"
  op_now :: "'w \<Rightarrow> rat \<times> 'w"
  op_sleep :: "rat \<Rightarrow> 'w \<Rightarrow> 'w"
  op_uuid :: "'w \<Rightarrow> string \<times> 'w"
  op_loads :: "string \<Rightarrow> json option"
  op_data :: "string \<Rightarrow> json option"

section \<open>The client's state\<close>

record client =
  cl_connection :: ConnectionConfig
  cl_server :: string
  cl_token :: string
  cl_tls :: bool
  cl_origin :: string
  cl_base :: string
  cl_rrt_port :: int
  cl_direct_enabled :: bool
  cl_direct_disabled :: bool
  cl_route_misses :: nat
  cl_direct_base :: string
  cl_last_create :: jobj
  cl_resume_chunk_size :: int
  cl_resume_max_retries :: int
  cl_resume_min_size :: int

record 'w session =
  se_client :: client
  se_world :: 'w
  se_log :: "http_req list"
  se_answers :: "(transport_error + response) list"
  se_files :: "string \<rightharpoonup> byte list"

type_synonym ('s, 'a) action = "'s \<Rightarrow> (client_exc + 'a) \<times> 's"
type_synonym ('w, 'a) act = "('w session, 'a) action"

section \<open>Actions\<close>

definition act_return :: "'a \<Rightarrow> ('s, 'a) action" where
  "act_return x s = (Inr x, s)"

definition act_raise :: "client_exc \<Rightarrow> ('s, 'a) action" where
  "act_raise e s = (Inl e, s)"

definition act_bind :: "('s, 'a) action \<Rightarrow> ('a \<Rightarrow> ('s, 'b) action) \<Rightarrow> ('s, 'b) action" where
  "act_bind m f s = (case m s of (Inl e, s') \<Rightarrow> (Inl e, s') | (Inr x, s') \<Rightarrow> f x s')"

text \<open>\<open>try: m\<close>, with the outcome as a value for the \<open>except\<close> and \<open>else\<close> clauses to look at.\<close>

definition act_try :: "('s, 'a) action \<Rightarrow> ('s, client_exc + 'a) action" where
  "act_try m s = (case m s of (r, s') \<Rightarrow> (Inr r, s'))"

definition act_lift :: "client_exc + 'a \<Rightarrow> ('s, 'a) action" where
  "act_lift r s = (r, s)"

definition get_client :: "('w, client) act" where
  "get_client s = (Inr (se_client s), s)"

definition set_client :: "(client \<Rightarrow> client) \<Rightarrow> ('w, unit) act" where
  "set_client f s = (Inr (), s\<lparr>se_client := f (se_client s)\<rparr>)"

definition now :: "'w ops \<Rightarrow> ('w, rat) act" where
  "now ops s = (case op_now ops (se_world s) of (t, w) \<Rightarrow> (Inr t, s\<lparr>se_world := w\<rparr>))"

definition sleep :: "'w ops \<Rightarrow> rat \<Rightarrow> ('w, unit) act" where
  "sleep ops d s = (Inr (), s\<lparr>se_world := op_sleep ops d (se_world s)\<rparr>)"

definition send :: "'w ops \<Rightarrow> http_req \<Rightarrow> ('w, response) act" where
  "send ops rq s =
     (case op_send ops rq (se_world s) of
        (r, w) \<Rightarrow> (map_sum HttpxError id r,
                   s\<lparr>se_world := w, se_log := se_log s @ [rq], se_answers := se_answers s @ [r]\<rparr>))"

text \<open>\<open>_new_request_id\<close>.\<close>

definition new_request_id :: "'w ops \<Rightarrow> string \<Rightarrow> ('w, string) act" where
  "new_request_id ops prefix s =
     (case op_uuid ops (se_world s) of (u, w) \<Rightarrow> (Inr (prefix @ ''-'' @ u), s\<lparr>se_world := w\<rparr>))"

lemma act_simps [simp]:
  "act_return x s = (Inr x, s)"
  "act_raise e s = (Inl e, s)"
  "act_lift r s = (r, s)"
  "get_client se = (Inr (se_client se), se)"
  "set_client f se = (Inr (), se\<lparr>se_client := f (se_client se)\<rparr>)"
  by (simp_all add: act_return_def act_raise_def act_lift_def get_client_def set_client_def)

lemma act_bind_Inr [simp]: "m s = (Inr x, s') \<Longrightarrow> act_bind m f s = f x s'"
  by (simp add: act_bind_def)

lemma act_bind_Inl [simp]: "m s = (Inl e, s') \<Longrightarrow> act_bind m f s = (Inl e, s')"
  by (simp add: act_bind_def)

lemma act_try_eq [simp]: "m s = (r, s') \<Longrightarrow> act_try m s = (Inr r, s')"
  by (simp add: act_try_def)

lemma sleep_eq [simp]: "sleep ops d s = (Inr (), s\<lparr>se_world := op_sleep ops d (se_world s)\<rparr>)"
  by (simp add: sleep_def)

section \<open>Pure helpers\<close>

definition SandboxHTTPError_from_response :: "response \<Rightarrow> string \<Rightarrow> client_exc" where
  "SandboxHTTPError_from_response resp msg =
     SandboxHTTPError msg (rs_status resp) (case rs_json resp of Some (JObj ob) \<Rightarrow> ob | _ \<Rightarrow> [])"

definition terminal :: "jobj \<Rightarrow> bool" where
  "terminal body \<longleftrightarrow>
     jget body ''code'' \<in> {JStr ''SANDBOX_EXITED'', JStr ''SANDBOX_SCHEDULE_FAILED''}
     \<and> jget body ''retryable'' = JBool False"

definition status_message :: "response \<Rightarrow> string" where
  "status_message resp = ''HTTP '' @ str_int (rs_status resp) @ '': '' @ rs_text resp"

definition as_dict :: "json \<Rightarrow> jobj" where
  "as_dict v = (case v of JObj ob \<Rightarrow> ob | _ \<Rightarrow> [(''value'', v)])"

text \<open>\<open>_json\<close>: the job envelope, whose \<open>data\<close> is base64 of JSON or already a value.\<close>

definition json_envelope :: "'w ops \<Rightarrow> response \<Rightarrow> client_exc + jobj" where
  "json_envelope ops resp =
     (if rs_status resp \<ge> 400 then Inl (SandboxHTTPError_from_response resp (status_message resp))
      else
        case rs_json resp of
          None \<Rightarrow> Inr []
        | Some (JObj envelope) \<Rightarrow>
            (let code = jget_or envelope ''code'' (JInt (rs_status resp));
                 msg = jget envelope ''message'';
                 raw = jget envelope ''data'' in
             if code \<in> {JStr ''SANDBOX_EXITED'', JStr ''SANDBOX_SCHEDULE_FAILED'', JStr ''SANDBOX_RECOVERING''}
             then Inl (SandboxHTTPError ''sandbox state error'' (rs_status resp) envelope)
             else if (case as_int code of Some n \<Rightarrow> n \<ge> 400 | None \<Rightarrow> False)
             then Inl (SandboxHTTPError ''error code'' (the (as_int code)) envelope)
             else if raw = JNull \<or> raw = JStr [] then Inr []
             else
               case raw of
                 JStr s \<Rightarrow>
                   (case op_data ops s of
                      None \<Rightarrow> Inl (SandboxError ''failed to decode response data'')
                    | Some v \<Rightarrow> Inr (as_dict v))
               | v \<Rightarrow> Inr (as_dict v))
        | Some _ \<Rightarrow> Inl (PyError (AttributeError ''object has no attribute get'')))"

text \<open>\<open>_safe_id\<close>.\<close>

definition safe_id :: "string \<Rightarrow> string" where
  "safe_id sandbox_id =
     map (\<lambda>c. if c \<in> {CHR ''/'', CHR ''.'', CHR ''_''} then CHR ''-'' else c)
       (py_replace ''@'' ''-at-'' sandbox_id)"

definition is_sandbox_error :: "client_exc \<Rightarrow> bool" where
  "is_sandbox_error e \<longleftrightarrow> (case e of SandboxError _ \<Rightarrow> True | SandboxHTTPError _ _ _ \<Rightarrow> True | RetryableHTTPStatus _ \<Rightarrow> True | _ \<Rightarrow> False)"

text \<open>\<open>_CREATE_RETRYABLE_ERRORS\<close>; a pool timeout is not among them.\<close>

definition create_retryable :: "client_exc \<Rightarrow> bool" where
  "create_retryable e =
     (case e of
        RetryableHTTPStatus _ \<Rightarrow> True
      | HttpxError t \<Rightarrow> t \<in> {ConnectError, ConnectTimeout, ReadError, ReadTimeout, RemoteProtocolError,
                              WriteError, WriteTimeout}
      | _ \<Rightarrow> False)"

definition retryable_status :: "int \<Rightarrow> bool" where
  "retryable_status n \<longleftrightarrow> n \<in> {502, 503, 504}"

definition MAX_ATTEMPTS :: nat where "MAX_ATTEMPTS = 3"
definition RETRY_BACKOFF :: rat where "RETRY_BACKOFF = 1 / 10"
definition GET_DEFAULT_TIMEOUT :: int where "GET_DEFAULT_TIMEOUT = 300"
definition GET_TIMEOUT_BUFFER :: int where "GET_TIMEOUT_BUFFER = 30"

text \<open>\<open>_RETRY_BACKOFF_SECONDS * 2 ** (attempt - 1)\<close>, with \<open>left\<close> attempts still to come.\<close>

definition backoff_before :: "nat \<Rightarrow> rat" where
  "backoff_before left = RETRY_BACKOFF * 2 ^ (MAX_ATTEMPTS - left - 1)"

section \<open>The world and its clock\<close>

text \<open>
  What the client relies on: a clock that never goes back, whatever is called, and that a sleep
  advances by at least its duration. \<open>clk\<close> is the time of a world.
\<close>

locale timed =
  fixes ops :: "'w ops" and clk :: "'w \<Rightarrow> rat"
  assumes now_law: "op_now ops w = (t, w') \<Longrightarrow> clk w \<le> t \<and> t \<le> clk w'"
    and send_law: "op_send ops rq w = (r, w') \<Longrightarrow> clk w \<le> clk w'"
    and uuid_law: "op_uuid ops w = (u, w') \<Longrightarrow> clk w \<le> clk w'"
    and sleep_law: "0 \<le> d \<Longrightarrow> clk w + d \<le> clk (op_sleep ops d w)"
begin

lemma now_act: "now ops s = (Inr t, s') \<Longrightarrow> clk (se_world s) \<le> t \<and> t \<le> clk (se_world s')"
  using now_law by (auto simp: now_def split: prod.splits)

lemma send_act: "send ops rq s = (r, s') \<Longrightarrow> clk (se_world s) \<le> clk (se_world s')"
  using send_law by (auto simp: send_def split: prod.splits)

lemma sleep_act: "0 \<le> d \<Longrightarrow> clk (se_world s) + d \<le> clk (se_world (snd (sleep ops d s)))"
  using sleep_law by simp

lemma id_act: "new_request_id ops p s = (r, s') \<Longrightarrow> clk (se_world s) \<le> clk (se_world s')"
  using uuid_law by (auto simp: new_request_id_def split: prod.splits)

end

text \<open>
  A recorded world: what each request is answered with and how long it takes, in order. When the
  record is used up a connection error is returned. Identifiers are numbered.
\<close>

record script =
  sc_answers :: "(rat \<times> (transport_error + response)) list"
  sc_time :: rat
  sc_ids :: nat

definition script_send :: "http_req \<Rightarrow> script \<Rightarrow> (transport_error + response) \<times> script" where
  "script_send rq w =
     (case sc_answers w of
        [] \<Rightarrow> (Inl ConnectError, w)
      | (d, r) # rest \<Rightarrow> (r, w\<lparr>sc_answers := rest, sc_time := sc_time w + \<bar>d\<bar>\<rparr>))"

definition script_ops :: "(string \<Rightarrow> json option) \<Rightarrow> (string \<Rightarrow> json option) \<Rightarrow> script ops" where
  "script_ops loads dat =
     \<lparr>op_send = script_send, op_now = (\<lambda>w. (sc_time w, w)),
      op_sleep = (\<lambda>d w. w\<lparr>sc_time := sc_time w + d\<rparr>),
      op_uuid = (\<lambda>w. (str_nat (sc_ids w), w\<lparr>sc_ids := Suc (sc_ids w)\<rparr>)),
      op_loads = loads, op_data = dat\<rparr>"

interpretation scripted: timed "script_ops loads dat" sc_time
  by unfold_locales (auto simp: script_ops_def script_send_def split: list.splits prod.splits)

section \<open>What the actions leave alone\<close>

lemma now_keeps: "now ops s = (r, s') \<Longrightarrow> se_client s' = se_client s \<and> se_log s' = se_log s
     \<and> se_answers s' = se_answers s \<and> (\<exists>t. r = Inr t)"
  by (auto simp: now_def split: prod.splits)

lemma id_keeps:
  "new_request_id ops p s = (r, s') \<Longrightarrow>
   se_client s' = se_client s \<and> se_log s' = se_log s \<and> se_answers s' = se_answers s
   \<and> (\<exists>u. r = Inr (p @ ''-'' @ u))"
  by (auto simp: new_request_id_def split: prod.splits)

lemma send_keeps:
  "send ops rq s = (r, s') \<Longrightarrow>
   se_client s' = se_client s \<and> se_log s' = se_log s @ [rq]
   \<and> (\<exists>a. r = map_sum HttpxError id a \<and> se_answers s' = se_answers s @ [a])"
  by (auto simp: send_def map_sum_def split: prod.splits sum.splits)

lemma act_bind_cases:
  assumes "act_bind m f s = (r, s'')"
  obtains (Raise) e where "m s = (Inl e, s'')" "r = Inl e"
    | (Step) x s' where "m s = (Inr x, s')" "f x s' = (r, s'')"
  using assms by (auto simp: act_bind_def split: prod.splits sum.splits)

lemma act_try_cases:
  assumes "act_try m s = (r, s'')"
  obtains x where "r = Inr x" "m s = (x, s'')"
  using assms by (auto simp: act_try_def split: prod.splits)

lemma id_returns:
  "\<exists>u s'. new_request_id ops p s = (Inr (p @ ''-'' @ u), s') \<and> se_client s' = se_client s \<and> se_log s' = se_log s
     \<and> se_answers s' = se_answers s"
  by (auto simp: new_request_id_def split: prod.splits)

end
