(* ===== verification/TransportLifecycle.thy ===== *)
theory TransportLifecycle
  imports Http
begin

text \<open>
  The control-plane half of \<open>SandboxClient\<close>: construction, create with its event stream and
  retries, delete, snapshots, pause, resume, reload and network updates, instance queries.
\<close>

section \<open>Construction\<close>

definition env_int :: "env \<Rightarrow> string \<Rightarrow> string \<Rightarrow> int result" where
  "env_int environ name dflt =
     (case py_int (case environ name of None \<Rightarrow> dflt | Some v \<Rightarrow> v) of
        None \<Rightarrow> Inl (ValueError ''invalid literal for int()'') | Some n \<Rightarrow> Inr n)"

definition rrt_port_env :: "env \<Rightarrow> int result" where
  "rrt_port_env environ =
     (let raw = py_strip (case environ ''YR_RRT_PORT'' of None \<Rightarrow> ''50090'' | Some v \<Rightarrow> v)
      in case py_int (if raw = [] then ''50090'' else raw) of
           None \<Rightarrow> Inl (ValueError ''invalid literal for int()'') | Some n \<Rightarrow> Inr n)"

definition SandboxClient_init ::
  "env \<Rightarrow> string option \<Rightarrow> string option \<Rightarrow> bool \<Rightarrow> ConnectionConfig obj_arg \<Rightarrow> client result" where
  "SandboxClient_init environ server token verify_tls connection =
     bind_result
       (case connection of
          OtherObj _ \<Rightarrow> Inl (TypeError ''connection must be a ConnectionConfig'')
        | TheObj c \<Rightarrow>
            if server \<noteq> None \<or> token \<noteq> None \<or> verify_tls
            then Inl (ValueError ''connection cannot be combined with server, token, or verify_tls'')
            else Inr c
        | NoObj \<Rightarrow> ConnectionConfig_from_env environ server token verify_tls) (\<lambda>c.
     let scheme = (if cc_use_tls c then ''https'' else ''http'');
         origin = scheme @ ''://'' @ cc_server_address c in
     bind_result (rrt_port_env environ) (\<lambda>rrt_port.
     bind_result (env_int environ ''YR_RESUME_CHUNK_SIZE'' ''8388608'') (\<lambda>chunk_size.
     bind_result (env_int environ ''YR_RESUME_MAX_RETRIES'' ''3'') (\<lambda>max_retries.
     bind_result (env_int environ ''YR_RESUME_MIN_SIZE'' ''67108864'') (\<lambda>min_size.
       Inr \<lparr>cl_connection = c, cl_server = cc_server_address c, cl_token = cc_token c,
            cl_tls = cc_use_tls c, cl_origin = origin, cl_base = origin @ ''/api/sandbox/v1'',
            cl_rrt_port = rrt_port, cl_direct_enabled = True, cl_direct_disabled = False,
            cl_route_misses = 0, cl_direct_base = origin @ ''/direct'', cl_last_create = [],
            cl_resume_chunk_size = chunk_size, cl_resume_max_retries = max_retries,
            cl_resume_min_size = min_size\<rparr>)))))"

definition set_direct_enabled :: "json \<Rightarrow> client \<Rightarrow> client result" where
  "set_direct_enabled enabled c =
     bind_result (boolean ''enabled'' enabled) (\<lambda>enabled.
       Inr (if enabled then c\<lparr>cl_direct_enabled := True\<rparr>
            else c\<lparr>cl_direct_enabled := False, cl_direct_disabled := True\<rparr>))"

section \<open>The create event stream\<close>

text \<open>
  The loop over \<open>iter_lines\<close>: comment lines are skipped, a blank line ends an event, and the
  first \<open>final\<close> event with data ends the loop. \<open>None\<close> is a stream that ends before it.
\<close>

fun sse_scan :: "string \<Rightarrow> string list \<Rightarrow> string list \<Rightarrow> string option" where
  "sse_scan event dat [] = None"
| "sse_scan event dat (line # lines) =
     (if line = [] then
        (if event = ''final'' \<and> dat \<noteq> [] then Some (join_with [CHR 0x0A] dat)
         else sse_scan [] [] lines)
      else if starts_with '':'' line then sse_scan event dat lines
      else if starts_with ''event:'' line then sse_scan (py_strip (drop 6 line)) dat lines
      else if starts_with ''data:'' line
        then sse_scan event (dat @ [lstrip_by py_isspace (drop 5 line)]) lines
      else sse_scan event dat lines)"

definition create_body_result :: "'w ops \<Rightarrow> response \<Rightarrow> client_exc + jobj" where
  "create_body_result ops resp =
     (case sse_scan [] [] (rs_lines resp) of
        None \<Rightarrow>
          (case rs_broken resp of
             Some e \<Rightarrow> Inl (HttpxError e)
           | None \<Rightarrow> Inl (SandboxError ''sandbox create stream ended before final event''))
      | Some text \<Rightarrow>
          (case op_loads ops text of
             None \<Rightarrow> Inl (SandboxError ''invalid sandbox create final event'')
           | Some (JObj final) \<Rightarrow>
               if jget final ''status'' \<noteq> JStr ''running''
               then Inl (SandboxError ''sandbox create did not reach running state'')
               else Inr final
           | Some _ \<Rightarrow> Inl (SandboxError ''sandbox create final event must contain a JSON object'')))"

text \<open>\<open>resp.read()\<close> of a streamed response raises when the body breaks off.\<close>

definition read_body :: "response \<Rightarrow> client_exc + unit" where
  "read_body resp = (case rs_broken resp of Some e \<Rightarrow> Inl (HttpxError e) | None \<Rightarrow> Inr ())"

text \<open>\<open>sub in s\<close> for strings.\<close>

fun has_substring :: "string \<Rightarrow> string \<Rightarrow> bool" where
  "has_substring p [] = (p = [])"
| "has_substring p (c # s) = (starts_with p (c # s) \<or> has_substring p s)"

definition create_info_attempt ::
  "'w ops \<Rightarrow> jobj \<Rightarrow> string \<Rightarrow> rat \<Rightarrow> ('w, jobj) act" where
  "create_info_attempt ops body request_id request_timeout =
     act_bind get_client (\<lambda>c.
     act_bind (send ops \<lparr>rq_method = ''POST'', rq_url = cl_base c @ ''/sandboxes'', rq_params = [],
         rq_json = JObj body, rq_content = None,
         rq_headers = [(''Accept'', ''text/event-stream''), (''X-Request-Id'', request_id)],
         rq_timeout = Some request_timeout, rq_pool_timeout = Some request_timeout\<rparr>) (\<lambda>resp.
       if retryable_status (rs_status resp)
       then act_bind (act_lift (read_body resp)) (\<lambda>_. act_raise (RetryableHTTPStatus (status_message resp)))
       else if \<not> has_substring ''text/event-stream'' (py_lower (rs_content_type resp))
       then act_bind (act_lift (read_body resp)) (\<lambda>_. act_lift (json_envelope ops resp))
       else if rs_status resp \<ge> 400
       then act_bind (act_lift (read_body resp)) (\<lambda>_. act_raise (SandboxError (status_message resp)))
       else act_lift (create_body_result ops resp)))"

section \<open>Create\<close>

definition create_failed :: "nat \<Rightarrow> string \<Rightarrow> client_exc" where
  "create_failed attempts request_id =
     SandboxError (''sandbox create transport failed after '' @ str_nat attempts
       @ '' attempts (requestId='' @ request_id @ '')'')"

text \<open>The attempts that are left; \<open>attempts\<close> is the number made so far.\<close>

fun create_loop :: "'w ops \<Rightarrow> jobj \<Rightarrow> string \<Rightarrow> rat \<Rightarrow> nat \<Rightarrow> nat \<Rightarrow> ('w, jobj) act" where
  "create_loop ops body request_id deadline attempts 0 = act_raise (create_failed attempts request_id)"
| "create_loop ops body request_id deadline attempts (Suc left) =
     act_bind (now ops) (\<lambda>t.
       if deadline - t \<le> 0 then act_raise (create_failed attempts request_id)
       else
         act_bind (act_try (create_info_attempt ops body request_id (deadline - t))) (\<lambda>r.
           case r of
             Inr dat \<Rightarrow> act_bind (set_client (\<lambda>c. c\<lparr>cl_last_create := dat\<rparr>)) (\<lambda>_. act_return dat)
           | Inl e \<Rightarrow>
               if \<not> create_retryable e then act_raise e
               else if left = 0 then act_raise (create_failed (Suc attempts) request_id)
               else
                 act_bind (now ops) (\<lambda>t'.
                   let backoff = min (backoff_before left) (max 0 (deadline - t')) in
                   if backoff \<le> 0 then act_raise (create_failed (Suc attempts) request_id)
                   else act_bind (sleep ops backoff)
                     (\<lambda>_. create_loop ops body request_id deadline (Suc attempts) left))))"

text \<open>\<open>int(v)\<close>.\<close>

definition int_of_json :: "json \<Rightarrow> int result" where
  "int_of_json v =
     (case v of
        JInt n \<Rightarrow> Inr n
      | JBool b \<Rightarrow> Inr (if b then 1 else 0)
      | JFloat q \<Rightarrow> Inr (if q < 0 then - \<lfloor>- q\<rfloor> else \<lfloor>q\<rfloor>)
      | JStr s \<Rightarrow>
          (case py_int s of None \<Rightarrow> Inl (ValueError ''invalid literal for int()'') | Some n \<Rightarrow> Inr n)
      | _ \<Rightarrow> Inl (TypeError ''int() argument must be a string or a number''))"

definition DEFAULT_CREATE_LOGICAL_TIMEOUT :: int where "DEFAULT_CREATE_LOGICAL_TIMEOUT = 90"

definition create_info :: "'w ops \<Rightarrow> jobj \<Rightarrow> ('w, jobj) act" where
  "create_info ops body =
     act_bind (act_lift (map_sum PyError id
         (int_of_json (jor (jget body ''createTimeoutSeconds'') (JInt DEFAULT_CREATE_LOGICAL_TIMEOUT)))))
       (\<lambda>logical.
     act_bind (new_request_id ops ''create'') (\<lambda>request_id.
     act_bind (now ops) (\<lambda>t.
       create_loop ops body request_id (t + of_int (logical + GET_TIMEOUT_BUFFER)) 0 MAX_ATTEMPTS)))"

definition client_create :: "'w ops \<Rightarrow> jobj \<Rightarrow> ('w, json) act" where
  "client_create ops body =
     act_bind (create_info ops body) (\<lambda>dat.
       let sid = jor (jget dat ''sandboxId'') (jget dat ''instanceId'') in
       if truthy sid then act_return sid
       else act_raise (SandboxError ''create response missing sandboxId''))"

section \<open>Delete\<close>

definition plain_request :: "string \<Rightarrow> string \<Rightarrow> json \<Rightarrow> (string \<times> string) list \<Rightarrow> rat option \<Rightarrow> http_req" where
  "plain_request meth url body headers timeout =
     \<lparr>rq_method = meth, rq_url = url, rq_params = [], rq_json = body, rq_content = None,
      rq_headers = headers, rq_timeout = timeout, rq_pool_timeout = timeout\<rparr>"

definition delete_failed :: "string \<Rightarrow> string \<Rightarrow> client_exc" where
  "delete_failed sandbox_id request_id =
     SandboxError (''delete '' @ sandbox_id @ '' failed (requestId='' @ request_id @ '')'')"

text \<open>Every answer of a retried request: \<open>Some\<close> ends the loop, None asks for another attempt.\<close>

fun retry_loop ::
  "'w ops \<Rightarrow> http_req \<Rightarrow> (response \<Rightarrow> (client_exc + 'a) option) \<Rightarrow> client_exc \<Rightarrow> nat \<Rightarrow> ('w, 'a) act" where
  "retry_loop ops rq judge exhausted 0 = act_raise exhausted"
| "retry_loop ops rq judge exhausted (Suc left) =
     act_bind (act_try (send ops rq)) (\<lambda>r.
       case (case r of Inl e \<Rightarrow> if create_retryable e then None else Some (Inl e) | Inr resp \<Rightarrow> judge resp) of
         Some result \<Rightarrow> act_lift result
       | None \<Rightarrow>
           if left = 0 then act_raise exhausted
           else act_bind (sleep ops (backoff_before left))
             (\<lambda>_. retry_loop ops rq judge exhausted left))"

definition delete_judge :: "string \<Rightarrow> string \<Rightarrow> response \<Rightarrow> (client_exc + unit) option" where
  "delete_judge sandbox_id request_id resp =
     (if rs_status resp \<in> {200, 202, 204, 404} then Some (Inr ())
      else if \<not> retryable_status (rs_status resp) then Some (Inl (delete_failed sandbox_id request_id))
      else None)"

definition client_delete :: "'w ops \<Rightarrow> string \<Rightarrow> ('w, unit) act" where
  "client_delete ops sandbox_id =
     act_bind (new_request_id ops ''delete'') (\<lambda>request_id.
     act_bind get_client (\<lambda>c.
       retry_loop ops
         (plain_request ''DELETE'' (cl_base c @ ''/sandboxes/'' @ sandbox_id) JNull
            [(''X-Request-Id'', request_id)] (Some 60))
         (delete_judge sandbox_id request_id) (delete_failed sandbox_id request_id) MAX_ATTEMPTS))"

section \<open>Snapshots\<close>

definition YR_TIMEOUT :: "int \<Rightarrow> rat option" where
  "YR_TIMEOUT timeout_seconds = Some (of_int (timeout_seconds + GET_TIMEOUT_BUFFER))"

definition snapshot_uncertain :: "string \<Rightarrow> client_exc" where
  "snapshot_uncertain request_id =
     SandboxError (''sandbox snapshot result is uncertain (requestId='' @ request_id @ '')'')"

definition client_create_snapshot ::
  "'w ops \<Rightarrow> string \<Rightarrow> string option \<Rightarrow> int \<Rightarrow> ('w, jobj) act" where
  "client_create_snapshot ops sandbox_id name timeout_seconds =
     act_bind (new_request_id ops ''snapshot'') (\<lambda>request_id.
     act_bind get_client (\<lambda>c.
     act_bind (act_try (send ops
         (plain_request ''POST'' (cl_base c @ ''/sandboxes/'' @ sandbox_id @ ''/snapshots'')
            (JObj ((''timeoutSeconds'', JInt timeout_seconds) # opt_entry ''name'' JStr name))
            [(''X-YR-Request-ID'', request_id)] (YR_TIMEOUT timeout_seconds)))) (\<lambda>r.
       case r of
         Inl e \<Rightarrow> act_raise (if create_retryable e then snapshot_uncertain request_id else e)
       | Inr resp \<Rightarrow>
           if retryable_status (rs_status resp) then act_raise (snapshot_uncertain request_id)
           else act_lift (json_envelope ops resp))))"

definition client_get_snapshot :: "'w ops \<Rightarrow> string \<Rightarrow> ('w, jobj) act" where
  "client_get_snapshot ops snapshot_id =
     act_bind get_client (\<lambda>c.
     act_bind (send ops (plain_request ''GET'' (cl_base c @ ''/snapshots/'' @ snapshot_id) JNull []
         (YR_TIMEOUT GET_DEFAULT_TIMEOUT))) (\<lambda>resp. act_lift (json_envelope ops resp)))"

definition client_list_snapshots ::
  "'w ops \<Rightarrow> string option \<Rightarrow> string option \<Rightarrow> int option \<Rightarrow> ('w, jobj) act" where
  "client_list_snapshots ops name page_token page_size =
     act_bind get_client (\<lambda>c.
     act_bind (send ops
         ((plain_request ''GET'' (cl_base c @ ''/snapshots'') JNull [] (YR_TIMEOUT GET_DEFAULT_TIMEOUT))
           \<lparr>rq_params :=
              (case name of None \<Rightarrow> [] | Some n \<Rightarrow> [(''name'', n)])
              @ (case page_token of None \<Rightarrow> [] | Some t \<Rightarrow> [(''pageToken'', t)])
              @ (case page_size of None \<Rightarrow> [] | Some n \<Rightarrow> [(''pageSize'', str_int n)])\<rparr>))
       (\<lambda>resp. act_lift (json_envelope ops resp)))"

definition client_delete_snapshot :: "'w ops \<Rightarrow> string \<Rightarrow> ('w, unit) act" where
  "client_delete_snapshot ops snapshot_id =
     act_bind (new_request_id ops ''delete-snapshot'') (\<lambda>request_id.
     act_bind get_client (\<lambda>c.
     act_bind (send ops (plain_request ''DELETE'' (cl_base c @ ''/snapshots/'' @ snapshot_id) JNull
         [(''X-YR-Request-ID'', request_id)] (YR_TIMEOUT GET_DEFAULT_TIMEOUT))) (\<lambda>resp.
     act_bind (act_lift (json_envelope ops resp)) (\<lambda>_. act_return ()))))"

section \<open>Pause, resume, reload, network\<close>

definition lifecycle_failed :: "string \<Rightarrow> string \<Rightarrow> client_exc" where
  "lifecycle_failed operation request_id =
     SandboxError (''sandbox '' @ operation @ '' failed (requestId='' @ request_id @ '')'')"

definition lifecycle_judge ::
  "'w ops \<Rightarrow> string \<Rightarrow> string \<Rightarrow> response \<Rightarrow> (client_exc + jobj) option" where
  "lifecycle_judge ops operation request_id resp =
     (if retryable_status (rs_status resp) then None
      else
        case json_envelope ops resp of
          Inl e \<Rightarrow> Some (Inl (if is_sandbox_error e then lifecycle_failed operation request_id else e))
        | Inr result \<Rightarrow>
            if operation = ''pause'' \<and> jget result ''snapshotId'' \<noteq> JStr request_id
            then Some (Inl (SandboxError
              (''sandbox pause returned a snapshotId that does not match the internal requestId=''
               @ request_id)))
            else Some (Inr result))"

definition lifecycle_request ::
  "'w ops \<Rightarrow> string \<Rightarrow> string \<Rightarrow> jobj \<Rightarrow> int \<Rightarrow> string \<Rightarrow> ('w, jobj) act" where
  "lifecycle_request ops sandbox_id operation body timeout_seconds meth =
     act_bind (new_request_id ops operation) (\<lambda>request_id.
     act_bind get_client (\<lambda>c.
       retry_loop ops
         (plain_request (if meth = ''put'' then ''PUT'' else ''POST'')
            (cl_base c @ ''/sandboxes/'' @ sandbox_id @ ''/'' @ operation) (JObj body)
            [(''X-YR-Request-ID'', request_id)] (YR_TIMEOUT timeout_seconds))
         (lifecycle_judge ops operation request_id) (lifecycle_failed operation request_id) MAX_ATTEMPTS))"

definition client_pause :: "'w ops \<Rightarrow> string \<Rightarrow> int \<Rightarrow> int \<Rightarrow> ('w, jobj) act" where
  "client_pause ops sandbox_id ttl_seconds timeout_seconds =
     lifecycle_request ops sandbox_id ''pause''
       [(''ttlSeconds'', JInt ttl_seconds), (''timeoutSeconds'', JInt timeout_seconds)]
       timeout_seconds ''post''"

definition client_resume :: "'w ops \<Rightarrow> string \<Rightarrow> ('w, jobj) act" where
  "client_resume ops sandbox_id = lifecycle_request ops sandbox_id ''resume'' [] GET_DEFAULT_TIMEOUT ''post''"

definition client_reload :: "'w ops \<Rightarrow> string \<Rightarrow> ('w, jobj) act" where
  "client_reload ops sandbox_id = lifecycle_request ops sandbox_id ''reload'' [] GET_DEFAULT_TIMEOUT ''post''"

definition client_update_network_policy :: "'w ops \<Rightarrow> string \<Rightarrow> jobj \<Rightarrow> ('w, jobj) act" where
  "client_update_network_policy ops sandbox_id policy =
     lifecycle_request ops sandbox_id ''network'' policy GET_DEFAULT_TIMEOUT ''put''"

section \<open>Queries\<close>

definition client_resources :: "'w ops \<Rightarrow> ('w, jobj) act" where
  "client_resources ops =
     act_bind get_client (\<lambda>c.
     act_bind (send ops (plain_request ''GET'' (cl_origin c @ ''/global-scheduler/resources'') JNull
         [(''Type'', ''json''), (''Accept'', ''application/json'')] (Some 60))) (\<lambda>resp.
       if rs_status resp \<ge> 400
       then act_raise (SandboxError (''resource query failed: '' @ status_message resp))
       else
         case rs_json resp of
           None \<Rightarrow> act_raise (SandboxError ''resource query returned invalid JSON'')
         | Some (JObj payload) \<Rightarrow> act_return payload
         | Some _ \<Rightarrow> act_raise (SandboxError ''resource query returned an invalid response'')))"

definition is_instance :: "string \<Rightarrow> json \<Rightarrow> bool" where
  "is_instance sandbox_id item =
     (case item of JObj ob \<Rightarrow> jget ob ''id'' = JStr sandbox_id | _ \<Rightarrow> False)"

definition instance_info :: "'w ops \<Rightarrow> string \<Rightarrow> ('w, jobj) act" where
  "instance_info ops sandbox_id =
     act_bind get_client (\<lambda>c.
     act_bind (send ops ((plain_request ''GET'' (cl_origin c @ ''/api/instances'') JNull [] (Some 60))
         \<lparr>rq_params := [(''instance_id'', sandbox_id)]\<rparr>)) (\<lambda>resp.
       if rs_status resp \<ge> 400
       then act_raise (SandboxError (''get instance '' @ sandbox_id @ '' failed: '' @ status_message resp))
       else
         case rs_json resp of
           None \<Rightarrow> act_raise (SandboxError (''get instance '' @ sandbox_id @ '' returned invalid JSON''))
         | Some (JList items) \<Rightarrow>
             (case find (is_instance sandbox_id) items of
                Some (JObj ob) \<Rightarrow> act_return ob
              | _ \<Rightarrow> act_raise (SandboxError (''sandbox '' @ sandbox_id @ '' was not found'')))
         | Some _ \<Rightarrow>
             act_raise (SandboxError (''get instance '' @ sandbox_id @ '' returned an invalid response''))))"

section \<open>Retries keep the identity of the operation\<close>

lemma json_envelope_not_retryable: "json_envelope ops resp = Inl e \<Longrightarrow> \<not> create_retryable e"
  by (auto simp: json_envelope_def SandboxHTTPError_from_response_def create_retryable_def Let_def
      split: if_splits option.splits json.splits)

lemma retry_loop_cases:
  assumes "retry_loop ops rq judge exhausted (Suc left) s = (r, s'')"
  obtains
    (Done) x where "send ops rq s = (x, s'')"
      "(case x of Inl e \<Rightarrow> if create_retryable e then None else Some (Inl e) | Inr resp \<Rightarrow> judge resp) = Some r"
  | (Stop) x where "send ops rq s = (x, s'')" "left = 0" "r = Inl exhausted"
  | (Again) x s' where "send ops rq s = (x, s')" "0 < left"
      "retry_loop ops rq judge exhausted left (snd (sleep ops (backoff_before left) s')) = (r, s'')"
proof -
  obtain x s' where x: "send ops rq s = (x, s')" by (cases "send ops rq s")
  let ?v = "case x of Inl e \<Rightarrow> if create_retryable e then None else Some (Inl e) | Inr resp \<Rightarrow> judge resp"
  show thesis
  proof (cases ?v)
    case None
    then show thesis using assms x Stop [of x] Again [of x s'] by (cases "left = 0") auto
  next
    case (Some y)
    then show thesis using assms x Done [of x] by auto
  qed
qed

lemma retry_loop_requests:
  "retry_loop ops rq judge exhausted k s = (r, s') \<Longrightarrow>
   se_client s' = se_client s \<and>
   (\<exists>n\<le>k. se_log s' = se_log s @ replicate n rq \<and> (0 < k \<longrightarrow> 0 < n))"
proof (induction k arbitrary: s)
  case 0
  then show ?case by auto
next
  case (Suc left)
  from Suc.prems show ?case
  proof (cases rule: retry_loop_cases)
    case (Done x)
    then show ?thesis using send_keeps [OF Done(1)] by (intro conjI exI [of _ 1]) auto
  next
    case (Stop x)
    then show ?thesis using send_keeps [OF Stop(1)] by (intro conjI exI [of _ 1]) auto
  next
    case (Again x t)
    from Suc.IH [OF Again(3)] obtain n where
      "se_client s' = se_client t" "n \<le> left" "se_log s' = se_log t @ replicate n rq"
      by auto
    then show ?thesis using send_keeps [OF Again(1)] by (intro conjI exI [of _ "Suc n"]) auto
  qed
qed

text \<open>A result is one the judge gave for some answer, an error that is not retried, or exhaustion.\<close>

lemma retry_loop_result:
  assumes "retry_loop ops rq judge exhausted k s = (r, s')"
    and "\<And>resp. judge resp = Some r \<Longrightarrow> P" "\<And>e. \<not> create_retryable e \<Longrightarrow> r = Inl e \<Longrightarrow> P"
    and "r = Inl exhausted \<Longrightarrow> P"
  shows P
  using assms(1)
proof (induction k arbitrary: s)
  case 0
  then show ?case using assms(4) by simp
next
  case (Suc left)
  from Suc.prems show ?case
  proof (cases rule: retry_loop_cases)
    case (Done x)
    then show ?thesis using assms(2,3) by (cases x) (auto split: if_splits)
  qed (use Suc.IH assms(4) in blast)+
qed

definition create_request :: "client \<Rightarrow> jobj \<Rightarrow> string \<Rightarrow> rat \<Rightarrow> http_req" where
  "create_request c body request_id t =
     \<lparr>rq_method = ''POST'', rq_url = cl_base c @ ''/sandboxes'', rq_params = [],
      rq_json = JObj body, rq_content = None,
      rq_headers = [(''Accept'', ''text/event-stream''), (''X-Request-Id'', request_id)],
      rq_timeout = Some t, rq_pool_timeout = Some t\<rparr>"

lemma create_attempt_request:
  "create_info_attempt ops body request_id t s = (r, s') \<Longrightarrow>
   se_client s' = se_client s \<and> se_log s' = se_log s @ [create_request (se_client s) body request_id t]
   \<and> (\<exists>x. send ops (create_request (se_client s) body request_id t) s = (x, s'))"
  unfolding create_info_attempt_def create_request_def [symmetric]
  by (cases "send ops (create_request (se_client s) body request_id t) s")
    (auto simp: act_bind_def dest!: send_keeps split: sum.splits if_splits prod.splits)

lemma now_returns: "\<exists>t s'. now ops s = (Inr t, s')"
  by (auto simp: now_def split: prod.splits)

lemma create_loop_cases:
  assumes "create_loop ops body request_id deadline n (Suc left) s = (r, s'')"
  obtains
    (Late) t where "now ops s = (Inr t, s'')" "r = Inl (create_failed n request_id)"
  | (Created) t s\<^sub>1 s\<^sub>2 dat where "now ops s = (Inr t, s\<^sub>1)" "t < deadline"
      "create_info_attempt ops body request_id (deadline - t) s\<^sub>1 = (Inr dat, s\<^sub>2)"
      "r = Inr dat" "s'' = s\<^sub>2\<lparr>se_client := (se_client s\<^sub>2)\<lparr>cl_last_create := dat\<rparr>\<rparr>"
  | (Refused) t s\<^sub>1 e where "now ops s = (Inr t, s\<^sub>1)" "t < deadline"
      "create_info_attempt ops body request_id (deadline - t) s\<^sub>1 = (Inl e, s'')"
      "\<not> create_retryable e" "r = Inl e"
  | (Stop) t s\<^sub>1 s\<^sub>2 e where "now ops s = (Inr t, s\<^sub>1)" "t < deadline"
      "create_info_attempt ops body request_id (deadline - t) s\<^sub>1 = (Inl e, s\<^sub>2)"
      "s'' = s\<^sub>2 \<or> (\<exists>t'. now ops s\<^sub>2 = (Inr t', s''))" "r = Inl (create_failed (Suc n) request_id)"
  | (Again) t t' s\<^sub>1 s\<^sub>2 s\<^sub>3 e d where "now ops s = (Inr t, s\<^sub>1)" "t < deadline"
      "create_info_attempt ops body request_id (deadline - t) s\<^sub>1 = (Inl e, s\<^sub>2)"
      "now ops s\<^sub>2 = (Inr t', s\<^sub>3)" "0 < d" "d \<le> deadline - t'"
      "create_loop ops body request_id deadline (Suc n) left (snd (sleep ops d s\<^sub>3)) = (r, s'')"
proof -
  obtain t s\<^sub>1 where t: "now ops s = (Inr t, s\<^sub>1)"
    using now_returns by blast
  show thesis
  proof (cases "deadline - t \<le> 0")
    case True
    then show thesis using assms t Late by auto
  next
    case False
    obtain x s\<^sub>2 where x: "create_info_attempt ops body request_id (deadline - t) s\<^sub>1 = (x, s\<^sub>2)"
      by (cases "create_info_attempt ops body request_id (deadline - t) s\<^sub>1")
    show thesis
    proof (cases x)
      case (Inr dat)
      then show thesis using assms t x False Created [OF t _ x [unfolded Inr]] by auto
    next
      case (Inl e)
      obtain t' s\<^sub>3 where t': "now ops s\<^sub>2 = (Inr t', s\<^sub>3)"
        using now_returns by blast
      consider "\<not> create_retryable e" | "create_retryable e" "left = 0"
        | "create_retryable e" "left \<noteq> 0" "min (backoff_before left) (max 0 (deadline - t')) \<le> 0"
        | "create_retryable e" "left \<noteq> 0" "0 < min (backoff_before left) (max 0 (deadline - t'))"
        by linarith
      then show thesis
      proof cases
        case 1
        then have "s\<^sub>2 = s''" "r = Inl e" using assms t x Inl False by auto
        then show thesis using Refused [OF t] x Inl False 1 by auto
      next
        case 2
        then show thesis using assms t x Inl False Stop [OF t _ x [unfolded Inl]] by auto
      next
        case 3
        then show thesis using assms t x t' Inl False Stop [OF t _ x [unfolded Inl]] by (auto simp: Let_def)
      next
        case 4
        define d where "d = min (backoff_before left) (max 0 (deadline - t'))"
        have d: "0 < d" "d \<le> deadline - t'" using 4(3) by (auto simp: d_def min_def max_def split: if_splits)
        moreover have "create_loop ops body request_id deadline (Suc n) left (snd (sleep ops d s\<^sub>3)) = (r, s'')"
          using assms t x t' Inl False 4(1,2) d(1) by (simp add: Let_def d_def [symmetric])
        ultimately show thesis using Again [OF t _ x [unfolded Inl] t'] False by simp
      qed
    qed
  qed
qed

context timed
begin

lemma create_attempt_clock:
  "create_info_attempt ops body request_id t s = (r, s') \<Longrightarrow> clk (se_world s) \<le> clk (se_world s')"
  using create_attempt_request send_act by blast

lemma create_loop_run:
  "create_loop ops body request_id deadline n k s = (r, s') \<Longrightarrow>
   \<exists>ts. length ts \<le> k
     \<and> se_log s' = se_log s @ map (create_request (se_client s) body request_id) ts
     \<and> list_all (\<lambda>t. 0 < t \<and> t \<le> deadline - clk (se_world s)) ts
     \<and> (case r of
          Inr dat \<Rightarrow> se_client s' = (se_client s)\<lparr>cl_last_create := dat\<rparr>
        | Inl e \<Rightarrow> se_client s' = se_client s \<and> \<not> create_retryable e)"
proof (induction k arbitrary: n s)
  case 0
  then show ?case by (auto simp: create_failed_def create_retryable_def)
next
  case (Suc left)
  have failed: "\<not> create_retryable (create_failed m request_id)" for m
    by (simp add: create_failed_def create_retryable_def)
  from Suc.prems show ?case
  proof (cases rule: create_loop_cases)
    case (Late t)
    then show ?thesis using now_keeps [OF Late(1)] failed by (intro exI [of _ "[]"]) auto
  next
    case (Created t s\<^sub>1 s\<^sub>2 dat)
    then show ?thesis
      using now_keeps [OF Created(1)] now_act [OF Created(1)] create_attempt_request [OF Created(3)]
      by (intro exI [of _ "[deadline - t]"]) auto
  next
    case (Refused t s\<^sub>1 e)
    then show ?thesis
      using now_keeps [OF Refused(1)] now_act [OF Refused(1)] create_attempt_request [OF Refused(3)]
      by (intro exI [of _ "[deadline - t]"]) auto
  next
    case (Stop t s\<^sub>1 s\<^sub>2 e)
    moreover have "se_client s' = se_client s\<^sub>2 \<and> se_log s' = se_log s\<^sub>2"
      using Stop(4) now_keeps by blast
    ultimately show ?thesis
      using now_keeps [OF Stop(1)] now_act [OF Stop(1)] create_attempt_request [OF Stop(3)] failed
      by (intro exI [of _ "[deadline - t]"]) auto
  next
    case (Again t t' s\<^sub>1 s\<^sub>2 s\<^sub>3 e d)
    let ?s = "snd (sleep ops d s\<^sub>3)"
    have same: "se_client ?s = se_client s"
      "se_log ?s = se_log s @ [create_request (se_client s) body request_id (deadline - t)]"
      using now_keeps [OF Again(1)] now_keeps [OF Again(4)] create_attempt_request [OF Again(3)] by auto
    have "clk (se_world s) \<le> clk (se_world ?s)"
      using now_act [OF Again(1)] now_act [OF Again(4)] create_attempt_clock [OF Again(3)]
        sleep_act [of d s\<^sub>3] Again(5) by linarith
    then have later: "x \<le> deadline - clk (se_world s)" if "x \<le> deadline - clk (se_world ?s)" for x
      using that by linarith
    from Suc.IH [OF Again(7)] obtain ts where "length ts \<le> left"
      "se_log s' = se_log ?s @ map (create_request (se_client s) body request_id) ts"
      "list_all (\<lambda>t. 0 < t \<and> t \<le> deadline - clk (se_world ?s)) ts"
      "case r of Inr dat \<Rightarrow> se_client s' = (se_client s)\<lparr>cl_last_create := dat\<rparr>
         | Inl e \<Rightarrow> se_client s' = se_client s \<and> \<not> create_retryable e"
      unfolding same by blast
    then show ?thesis
      using same later now_act [OF Again(1)] Again(2)
      by (intro exI [of _ "(deadline - t) # ts"]) (auto simp: list_all_iff)
  qed
qed

end



definition sample_client :: client where
  "sample_client =
     \<lparr>cl_connection = \<lparr>cc_server_address = ''h'', cc_token = ''t'', cc_use_tls = True,
        cc_gateway_address = None, cc_gateway_use_tls = False, cc_verify_tls = False\<rparr>,
      cl_server = ''h'', cl_token = ''t'', cl_tls = True, cl_origin = ''https://h'', cl_base = ''https://h'',
      cl_rrt_port = 50090, cl_direct_enabled = True, cl_direct_disabled = False, cl_route_misses = 0,
      cl_direct_base = ''https://h/direct'', cl_last_create = [], cl_resume_chunk_size = 2,
      cl_resume_max_retries = 3, cl_resume_min_size = 2\<rparr>"

definition sample_response :: "int \<Rightarrow> json \<Rightarrow> response" where
  "sample_response status v =
     \<lparr>rs_status = status, rs_content_type = ''application/json'', rs_text = [], rs_json = Some v,
      rs_lines = [], rs_chunks = [], rs_broken = None\<rparr>"

definition sample_session :: "(transport_error + response) list \<Rightarrow> script session" where
  "sample_session answers =
     \<lparr>se_client = sample_client,
      se_world = \<lparr>sc_answers = map (\<lambda>a. (1, a)) answers, sc_time = 0, sc_ids = 7\<rparr>, se_log = [],
      se_answers = [], se_files = Map.empty\<rparr>"

abbreviation sample_ops :: "script ops" where
  "sample_ops \<equiv> script_ops (\<lambda>_. None) (\<lambda>_. None)"

lemmas script_simps = act_bind_def act_try_def send_def now_def new_request_id_def script_ops_def
  script_send_def sample_session_def sample_client_def sample_response_def Let_def


text \<open>What one answer decides: nothing when it is retried.\<close>

definition verdict :: "(response \<Rightarrow> (client_exc + 'a) option) \<Rightarrow> transport_error + response \<Rightarrow> (client_exc + 'a) option" where
  "verdict judge a =
     (case a of Inl e \<Rightarrow> if create_retryable (HttpxError e) then None else Some (Inl (HttpxError e))
      | Inr resp \<Rightarrow> judge resp)"

text \<open>
  The retry loop on a recorded world: the first of at most \<open>k\<close> answers that decides anything is
  the result, and the request is sent once for each answer up to that one.
\<close>

lemma retry_loop_script:
  assumes "retry_loop (script_ops l d) rq judge exhausted k s = (r, s')"
    and "k \<le> length (sc_answers (se_world s))"
  shows "r = (case filter (\<lambda>v. v \<noteq> None) (map (verdict judge \<circ> snd) (take k (sc_answers (se_world s)))) of
       Some x # _ \<Rightarrow> x | _ \<Rightarrow> Inl exhausted)
    \<and> se_log s' = se_log s @ replicate
        (min k (Suc (length (takeWhile (\<lambda>a. verdict judge (snd a) = None) (sc_answers (se_world s)))))) rq"
  using assms
proof (induction k arbitrary: s)
  case 0
  then show ?case by simp
next
  case (Suc left)
  obtain da a rest where ans: "sc_answers (se_world s) = (da, a) # rest"
    using Suc.prems(2) by (cases "sc_answers (se_world s)") auto
  define t where "t = s\<lparr>se_world := (se_world s)\<lparr>sc_answers := rest, sc_time := sc_time (se_world s) + \<bar>da\<bar>\<rparr>,
      se_log := se_log s @ [rq], se_answers := se_answers s @ [a]\<rparr>"
  have snt: "send (script_ops l d) rq s = (map_sum HttpxError id a, t)"
    by (simp add: send_def script_ops_def script_send_def ans t_def)
  have v: "(case map_sum HttpxError id a of
        Inl e \<Rightarrow> if create_retryable e then None else Some (Inl e) | Inr resp \<Rightarrow> judge resp) = verdict judge a"
    by (cases a) (simp_all add: verdict_def)
  have step: "retry_loop (script_ops l d) rq judge exhausted (Suc left) s =
      (case verdict judge a of Some x \<Rightarrow> (x, t) | None \<Rightarrow>
        if left = 0 then (Inl exhausted, t)
        else retry_loop (script_ops l d) rq judge exhausted left
               (snd (sleep (script_ops l d) (backoff_before left) t)))"
    by (auto simp: snt v act_bind_def act_try_def split: option.splits)
  show ?case
  proof (cases "verdict judge a")
    case (Some x)
    then show ?thesis using Suc.prems(1) step by (auto simp: ans t_def)
  next
    case None
    show ?thesis
    proof (cases "left = 0")
      case True
      then show ?thesis using Suc.prems(1) step None by (auto simp: ans t_def)
    next
      case False
      define w where "w = snd (sleep (script_ops l d) (backoff_before left) t)"
      have w: "sc_answers (se_world w) = rest" "se_log w = se_log s @ [rq]"
        by (simp_all add: w_def t_def script_ops_def)
      have "retry_loop (script_ops l d) rq judge exhausted left w = (r, s')"
        unfolding w_def using Suc.prems(1) step None False by simp
      from Suc.IH [OF this] Suc.prems(2) show ?thesis
        by (simp add: w ans None)
    qed
  qed
qed

definition delete_request :: "client \<Rightarrow> string \<Rightarrow> string \<Rightarrow> http_req" where
  "delete_request c sandbox_id request_id =
     plain_request ''DELETE'' (cl_base c @ ''/sandboxes/'' @ sandbox_id) JNull
       [(''X-Request-Id'', request_id)] (Some 60)"

text \<open>The answers that \<open>delete\<close> is meant to survive, and what any other answer means, by the status codes.\<close>

definition transient_answer :: "transport_error + response \<Rightarrow> bool" where
  "transient_answer a = (case a of Inl e \<Rightarrow> e \<notin> {PoolTimeout, OtherRequestError} | Inr resp \<Rightarrow> rs_status resp \<in> {502, 503, 504})"

definition delete_meaning :: "string \<Rightarrow> string \<Rightarrow> transport_error + response \<Rightarrow> client_exc + unit" where
  "delete_meaning sandbox_id request_id a =
     (case a of
        Inl e \<Rightarrow> Inl (HttpxError e)
      | Inr resp \<Rightarrow>
          if rs_status resp \<in> {200, 202, 204, 404} then Inr ()
          else Inl (SandboxError (''delete '' @ sandbox_id @ '' failed (requestId='' @ request_id @ '')'')))"

lemma delete_verdict:
  "verdict (delete_judge sandbox_id request_id) a
    = (if transient_answer a then None else Some (delete_meaning sandbox_id request_id a))"
proof (cases a)
  case (Inl e)
  then show ?thesis by (cases e) (simp_all add: verdict_def transient_answer_def delete_meaning_def create_retryable_def)
qed (auto simp: verdict_def delete_judge_def transient_answer_def delete_meaning_def delete_failed_def retryable_status_def)

text \<open>
  C23: The first of at most three answers that is not transient decides a delete: 200, 202, 204 and
  404 are success, so deleting what is gone succeeds; any other answer fails it; three transient
  answers fail it. The same request, under one request id, is sent once per answer used.
\<close>

theorem delete_outcome:
  assumes "client_delete (script_ops l d) sandbox_id s = (r, s')"
    and "3 \<le> length (sc_answers (se_world s))"
  shows "\<exists>u. r = (case filter (\<lambda>a. \<not> transient_answer a) (map snd (take 3 (sc_answers (se_world s)))) of
       a # _ \<Rightarrow> delete_meaning sandbox_id (''delete-'' @ u) a
     | [] \<Rightarrow> Inl (SandboxError (''delete '' @ sandbox_id @ '' failed (requestId='' @ ''delete-'' @ u @ '')'')))
    \<and> se_log s' = se_log s @ replicate
        (min 3 (Suc (length (takeWhile (\<lambda>a. transient_answer (snd a)) (sc_answers (se_world s))))))
        (delete_request (se_client s) sandbox_id (''delete-'' @ u))
    \<and> se_client s' = se_client s"
proof -
  obtain u s\<^sub>1 where u: "new_request_id (script_ops l d) ''delete'' s = (Inr (''delete-'' @ u), s\<^sub>1)"
    and same: "se_client s\<^sub>1 = se_client s" "se_log s\<^sub>1 = se_log s"
    using id_returns [of "script_ops l d" "''delete''" s] by auto
  let ?id = "''delete-'' @ u"
  have ans: "sc_answers (se_world s\<^sub>1) = sc_answers (se_world s)"
    using u by (auto simp: new_request_id_def script_ops_def)
  have run: "retry_loop (script_ops l d) (delete_request (se_client s) sandbox_id ?id)
      (delete_judge sandbox_id ?id) (delete_failed sandbox_id ?id) 3 s\<^sub>1 = (r, s')"
    using assms(1) u same by (simp add: client_delete_def delete_request_def MAX_ATTEMPTS_def)
  have three: "3 \<le> length (sc_answers (se_world s\<^sub>1))" using assms(2) ans by simp
  have pick: "(case filter (\<lambda>v. v \<noteq> None) (map (verdict (delete_judge sandbox_id ?id) \<circ> snd) xs) of
        Some x # _ \<Rightarrow> x | _ \<Rightarrow> Inl (delete_failed sandbox_id ?id))
      = (case filter (\<lambda>a. \<not> transient_answer a) (map snd xs) of
        a # _ \<Rightarrow> delete_meaning sandbox_id ?id a | [] \<Rightarrow> Inl (delete_failed sandbox_id ?id))" for xs
    by (induction xs) (simp_all add: delete_verdict)
  have "(\<lambda>a. verdict (delete_judge sandbox_id ?id) (snd a) = None) = (\<lambda>a. transient_answer (snd a))"
    by (simp add: delete_verdict fun_eq_iff)
  note script = retry_loop_script [OF run three, unfolded ans this pick same]
  have "se_client s' = se_client s" using retry_loop_requests [OF run] same by simp
  with script [unfolded delete_failed_def] show ?thesis by (intro exI [of _ u]) (simp only: append_assoc simp_thms)
qed

theorem delete_outcome_witness:
  "fst (client_delete sample_ops ''sb''
       (sample_session [Inl ReadTimeout, Inr (sample_response 503 JNull), Inr (sample_response 404 JNull)])) = Inr ()"
proof -
  let ?s = "sample_session [Inl ReadTimeout, Inr (sample_response 503 JNull), Inr (sample_response 404 JNull)]"
  obtain r s' where run: "client_delete sample_ops ''sb'' ?s = (r, s')" by fastforce
  have "3 \<le> length (sc_answers (se_world ?s))" by (simp add: sample_session_def)
  from delete_outcome [OF run this] obtain u where
    "r = (case filter (\<lambda>a. \<not> transient_answer a) (map snd (take 3 (sc_answers (se_world ?s)))) of
       a # _ \<Rightarrow> delete_meaning ''sb'' (''delete-'' @ u) a
     | [] \<Rightarrow> Inl (SandboxError (''delete '' @ ''sb'' @ '' failed (requestId='' @ ''delete-'' @ u @ '')'')))"
    by blast
  then have "r = Inr ()"
    by (simp add: sample_session_def transient_answer_def delete_meaning_def sample_response_def)
  with run show ?thesis by simp
qed

text \<open>
  A pause that is reported as successful carries the identity of the request: the snapshot id
  in the answer is the request id in the header of every request that was sent for it.
\<close>

theorem pause_snapshot_is_request:
  assumes "client_pause ops sandbox_id ttl timeout s = (r, s')"
  shows "\<exists>u n. 0 < n \<and> n \<le> 3
    \<and> se_log s' = se_log s @ replicate n
        (plain_request ''POST'' (cl_base (se_client s) @ ''/sandboxes/'' @ sandbox_id @ ''/pause'')
          (JObj [(''ttlSeconds'', JInt ttl), (''timeoutSeconds'', JInt timeout)])
          [(''X-YR-Request-ID'', ''pause-'' @ u)] (YR_TIMEOUT timeout))
    \<and> (case r of Inr result \<Rightarrow> jget result ''snapshotId'' = JStr (''pause-'' @ u)
       | Inl e \<Rightarrow> \<not> create_retryable e)"
proof -
  obtain u s\<^sub>1 where u: "new_request_id ops ''pause'' s = (Inr (''pause-'' @ u), s\<^sub>1)"
    and same: "se_client s\<^sub>1 = se_client s" "se_log s\<^sub>1 = se_log s"
    using id_returns [of ops "''pause''" s] by auto
  let ?id = "''pause-'' @ u"
  let ?rq = "plain_request ''POST'' (cl_base (se_client s) @ ''/sandboxes/'' @ sandbox_id @ ''/pause'')
      (JObj [(''ttlSeconds'', JInt ttl), (''timeoutSeconds'', JInt timeout)])
      [(''X-YR-Request-ID'', ?id)] (YR_TIMEOUT timeout)"
  have run: "retry_loop ops ?rq (lifecycle_judge ops ''pause'' ?id) (lifecycle_failed ''pause'' ?id) 3 s\<^sub>1 = (r, s')"
    using assms u same by (simp add: client_pause_def lifecycle_request_def MAX_ATTEMPTS_def)
  have "case r of Inr result \<Rightarrow> jget result ''snapshotId'' = JStr ?id | Inl e \<Rightarrow> \<not> create_retryable e"
  proof (rule retry_loop_result [OF run])
    fix resp assume "lifecycle_judge ops ''pause'' ?id resp = Some r"
    then show ?thesis
      by (auto simp: lifecycle_judge_def lifecycle_failed_def create_retryable_def
          dest!: json_envelope_not_retryable split: if_splits sum.splits)
  qed (auto simp: lifecycle_failed_def create_retryable_def)
  with retry_loop_requests [OF run] same show ?thesis by auto
qed

theorem pause_snapshot_is_request_witness:
  "\<exists>u n. 0 < n \<and> n \<le> 3 \<and>
     se_log (snd (client_pause sample_ops ''sb'' 60 5 (sample_session [Inl ConnectError, Inl ReadTimeout, Inl WriteError])))
     = replicate n
        (plain_request ''POST'' (cl_base sample_client @ ''/sandboxes/sb/pause'')
          (JObj [(''ttlSeconds'', JInt 60), (''timeoutSeconds'', JInt 5)])
          [(''X-YR-Request-ID'', ''pause-'' @ u)] (YR_TIMEOUT 5))"
proof -
  obtain r s' where run:
    "client_pause sample_ops ''sb'' 60 5 (sample_session [Inl ConnectError, Inl ReadTimeout, Inl WriteError]) = (r, s')"
    by fastforce
  from pause_snapshot_is_request [OF run] show ?thesis
    by (auto simp: run) (auto simp: sample_session_def)
qed

section \<open>The event stream\<close>

text \<open>An event as a server writes it: its name, its data lines and a blank line.\<close>

definition sse_event :: "string \<times> string list \<Rightarrow> string list" where
  "sse_event ev = (''event: '' @ fst ev) # map ((@) ''data: '') (snd ev) @ [[]]"

definition trimmed :: "string \<Rightarrow> bool" where
  "trimmed s \<longleftrightarrow> py_strip s = s"

lemma trimmed_lstrip: "trimmed s \<Longrightarrow> lstrip_by py_isspace (CHR '' '' # s) = s"
proof -
  assume "trimmed s"
  then have "s = [] \<or> \<not> py_isspace (hd s)" using strip_by_ends [of py_isspace s] by (auto simp: trimmed_def)
  moreover have "py_isspace (CHR '' '')" by (simp add: py_isspace_def)
  ultimately show ?thesis by (simp add: lstrip_by_def dropWhile_id)
qed

lemma trimmed_strip: "trimmed s \<Longrightarrow> py_strip (CHR '' '' # s) = s"
  using trimmed_lstrip [of s] unfolding trimmed_def strip_by_def
  by (metis rstrip_by_def lstrip_by_def dropWhile_idem)

lemma sse_scan_data:
  "list_all trimmed ds \<Longrightarrow>
   sse_scan event dat (map ((@) ''data: '') ds @ rest) = sse_scan event (dat @ ds) rest"
  by (induction ds arbitrary: dat) (auto simp: trimmed_lstrip)

lemma sse_scan_event:
  assumes "trimmed (fst ev)" "list_all trimmed (snd ev)"
  shows "sse_scan e [] (sse_event ev @ rest) =
    (if fst ev = ''final'' \<and> snd ev \<noteq> [] then Some (join_with [CHR 0x0A] (snd ev)) else sse_scan [] [] rest)"
proof -
  have "sse_scan e [] (sse_event ev @ rest) = sse_scan (fst ev) [] (map ((@) ''data: '') (snd ev) @ [] # rest)"
    using trimmed_strip [OF assms(1)] by (simp add: sse_event_def)
  also have "\<dots> = sse_scan (fst ev) (snd ev) ([] # rest)"
    using sse_scan_data [OF assms(2)] by simp
  finally show ?thesis by simp
qed



end
