(* ===== verification/TransportDirect.thy ===== *)
theory TransportDirect
  imports TransportLifecycle
begin

text \<open>
  \<open>invoke\<close>: an action is tried on the \<open>/direct\<close> route, at most three times under one request id,
  and falls back to the frontend when the route is missing or could not be reached. Route misses
  are counted; a sustained run of them disables the route for the client.
\<close>

section \<open>One direct attempt\<close>

definition DIRECT_POOL_TIMEOUT :: rat where "DIRECT_POOL_TIMEOUT = 2"
definition ROUTE_MISS_BUDGET :: nat where "ROUTE_MISS_BUDGET = 3"

definition safe_fallback_error :: "transport_error \<Rightarrow> bool" where
  "safe_fallback_error e \<longleftrightarrow> e \<in> {ConnectError, ConnectTimeout, PoolTimeout}"

definition unknown_outcome_error :: "transport_error \<Rightarrow> bool" where
  "unknown_outcome_error e \<longleftrightarrow> e \<in> {ReadError, ReadTimeout, RemoteProtocolError, WriteError, WriteTimeout}"

definition remaining_timeout :: "'w ops \<Rightarrow> rat option \<Rightarrow> ('w, rat option) act" where
  "remaining_timeout ops deadline =
     (case deadline of
        None \<Rightarrow> act_return None
      | Some d \<Rightarrow> act_bind (now ops) (\<lambda>t. act_return (Some (max 0 (d - t)))))"

definition invoke_body :: "string \<Rightarrow> jobj \<Rightarrow> string \<Rightarrow> json" where
  "invoke_body action args request_id =
     JObj [(''action'', JStr action), (''args'', JObj args), (''requestId'', JStr request_id)]"

definition direct_request ::
  "client \<Rightarrow> string \<Rightarrow> string \<Rightarrow> jobj \<Rightarrow> string \<Rightarrow> rat option \<Rightarrow> http_req" where
  "direct_request c sandbox_id action args request_id remaining =
     \<lparr>rq_method = ''POST'', rq_url = cl_direct_base c @ ''/'' @ safe_id sandbox_id @ ''/invoke'',
      rq_params = [], rq_json = invoke_body action args request_id, rq_content = None,
      rq_headers = [(''X-YR-Request-ID'', request_id)], rq_timeout = remaining,
      rq_pool_timeout = Some (case remaining of None \<Rightarrow> DIRECT_POOL_TIMEOUT
                              | Some r \<Rightarrow> min DIRECT_POOL_TIMEOUT r)\<rparr>"

text \<open>
  What an attempt comes to: \<open>(result, fell_back)\<close>, or a failure to retry, marked safe when the
  request is known not to have been sent.
\<close>

datatype attempt = Answer jobj | FellBack | Failed client_exc bool

definition direct_unknown :: "string \<Rightarrow> client_exc" where
  "direct_unknown request_id =
     SandboxError (''direct invoke outcome is unknown (requestId='' @ request_id @ '')'')"

definition count_route_miss :: "client \<Rightarrow> client" where
  "count_route_miss c =
     (let misses = Suc (cl_route_misses c)
      in c\<lparr>cl_route_misses := misses,
           cl_direct_disabled := (cl_direct_disabled c \<or> misses > ROUTE_MISS_BUDGET)\<rparr>)"

definition reset_route_misses :: "client \<Rightarrow> client" where
  "reset_route_misses c = c\<lparr>cl_route_misses := 0\<rparr>"

definition direct_http_error :: "response \<Rightarrow> string \<Rightarrow> client_exc" where
  "direct_http_error resp request_id =
     SandboxHTTPError_from_response resp
       (''direct invoke failed: HTTP '' @ str_int (rs_status resp) @ '' (requestId='' @ request_id @ ''): ''
        @ rs_text resp)"

definition direct_outcome :: "string \<Rightarrow> client_exc + response \<Rightarrow> ('w, attempt) act" where
  "direct_outcome request_id r =
     (case r of
        Inl e \<Rightarrow>
          act_bind (set_client reset_route_misses) (\<lambda>_.
            case e of
              HttpxError t \<Rightarrow>
                if safe_fallback_error t then act_return (Failed e True)
                else if unknown_outcome_error t then act_return (Failed e False)
                else act_raise (direct_unknown request_id)
            | _ \<Rightarrow> act_raise e)
      | Inr resp \<Rightarrow>
          (let status = rs_status resp;
               body = (case rs_json resp of Some (JObj ob) \<Rightarrow> ob | _ \<Rightarrow> []);
               http_error = direct_http_error resp request_id in
           if status \<ge> 400 \<and> terminal body then act_raise http_error
           else if status = 404
           then act_bind (set_client count_route_miss) (\<lambda>_. act_return FellBack)
           else
             act_bind (set_client reset_route_misses) (\<lambda>_.
               if retryable_status status then act_return (Failed http_error False)
               else if status \<ge> 400 then act_raise http_error
               else
                 case rs_json resp of
                   None \<Rightarrow>
                     act_return (Failed (SandboxError ''direct invoke returned invalid JSON'') False)
                 | Some v \<Rightarrow> act_return (Answer (as_dict v)))))"

section \<open>The attempts\<close>

text \<open>What follows the loop: \<open>failure\<close> is the last one and whether it was safe.\<close>

definition direct_exhausted :: "string \<Rightarrow> (client_exc \<times> bool) option \<Rightarrow> ('w, jobj option) act" where
  "direct_exhausted request_id failure =
     (case failure of
        Some (e, True) \<Rightarrow>
          act_bind (set_client (\<lambda>c. c\<lparr>cl_direct_disabled := True\<rparr>)) (\<lambda>_. act_return None)
      | Some (SandboxHTTPError m st b, False) \<Rightarrow> act_raise (SandboxHTTPError m st b)
      | _ \<Rightarrow> act_raise (direct_unknown request_id))"

fun direct_loop ::
  "'w ops \<Rightarrow> string \<Rightarrow> string \<Rightarrow> jobj \<Rightarrow> string \<Rightarrow> rat option \<Rightarrow> (client_exc \<times> bool) option \<Rightarrow> nat
     \<Rightarrow> ('w, jobj option) act" where
  "direct_loop ops sandbox_id action args request_id deadline failure 0 = direct_exhausted request_id failure"
| "direct_loop ops sandbox_id action args request_id deadline failure (Suc left) =
     act_bind (remaining_timeout ops deadline) (\<lambda>remaining.
     if (case remaining of None \<Rightarrow> False | Some r \<Rightarrow> r \<le> 0) then direct_exhausted request_id failure
     else
     act_bind get_client (\<lambda>c.
     act_bind (act_try (send ops (direct_request c sandbox_id action args request_id remaining))) (\<lambda>r.
     act_bind (direct_outcome request_id r) (\<lambda>outcome.
       case outcome of
         Answer ob \<Rightarrow> act_return (Some ob)
       | FellBack \<Rightarrow> act_return None
       | Failed e safe \<Rightarrow>
           if left = 0 then direct_exhausted request_id (Some (e, safe))
           else
             act_bind (remaining_timeout ops deadline) (\<lambda>remaining.
               let backoff = (case remaining of None \<Rightarrow> backoff_before left
                              | Some r \<Rightarrow> min (backoff_before left) (max 0 r)) in
               if backoff \<le> 0 then direct_exhausted request_id (Some (e, safe))
               else act_bind (sleep ops backoff) (\<lambda>_.
                 direct_loop ops sandbox_id action args request_id deadline (Some (e, safe)) left))))))"

text \<open>\<open>_invoke_direct\<close>: None stands for \<open>({}, True)\<close>.\<close>

definition invoke_direct ::
  "'w ops \<Rightarrow> string \<Rightarrow> string \<Rightarrow> jobj \<Rightarrow> string \<Rightarrow> rat option \<Rightarrow> ('w, jobj option) act" where
  "invoke_direct ops sandbox_id action args request_id deadline =
     direct_loop ops sandbox_id action args request_id deadline None MAX_ATTEMPTS"

section \<open>Invoke\<close>

definition frontend_request ::
  "client \<Rightarrow> string \<Rightarrow> string \<Rightarrow> jobj \<Rightarrow> string \<Rightarrow> rat option \<Rightarrow> http_req" where
  "frontend_request c sandbox_id action args request_id timeout =
     plain_request ''POST'' (cl_base c @ ''/sandboxes/'' @ sandbox_id @ ''/invoke'')
       (invoke_body action args request_id) [(''X-YR-Request-ID'', request_id)] timeout"

definition invoke_frontend ::
  "'w ops \<Rightarrow> string \<Rightarrow> string \<Rightarrow> jobj \<Rightarrow> string \<Rightarrow> rat option \<Rightarrow> ('w, jobj) act" where
  "invoke_frontend ops sandbox_id action args request_id deadline =
     act_bind (remaining_timeout ops deadline) (\<lambda>timeout.
     if (case timeout of None \<Rightarrow> False | Some r \<Rightarrow> r \<le> 0)
     then act_raise (SandboxError
       (''invoke deadline exhausted before frontend fallback (requestId='' @ request_id @ '')''))
     else
     act_bind get_client (\<lambda>c.
     act_bind (send ops (frontend_request c sandbox_id action args request_id timeout)) (\<lambda>resp.
       act_lift (json_envelope ops resp))))"

definition rpc_timeout :: "int option \<Rightarrow> int option" where
  "rpc_timeout timeout =
     (case timeout of
        None \<Rightarrow> Some GET_DEFAULT_TIMEOUT
      | Some t \<Rightarrow> if t < 0 then None else Some (max (t + GET_TIMEOUT_BUFFER) GET_DEFAULT_TIMEOUT))"

definition invoke ::
  "'w ops \<Rightarrow> string \<Rightarrow> string \<Rightarrow> jobj \<Rightarrow> int option \<Rightarrow> ('w, jobj) act" where
  "invoke ops sandbox_id action args timeout =
     act_bind (new_request_id ops ''invoke'') (\<lambda>request_id.
     act_bind
       (case rpc_timeout timeout of
          None \<Rightarrow> act_return None
        | Some n \<Rightarrow> act_bind (now ops) (\<lambda>t. act_return (Some (t + of_int n)))) (\<lambda>deadline.
     act_bind get_client (\<lambda>c.
     act_bind
       (if cl_direct_enabled c \<and> \<not> cl_direct_disabled c
        then invoke_direct ops sandbox_id action args request_id deadline
        else act_return None) (\<lambda>result.
       case result of
         Some ob \<Rightarrow> act_return ob
       | None \<Rightarrow> invoke_frontend ops sandbox_id action args request_id deadline))))"

section \<open>What an invoke sends\<close>

text \<open>An invoke changes nothing in the client but the two fields of the route-miss state.\<close>

definition flags_only :: "client \<Rightarrow> client \<Rightarrow> bool" where
  "flags_only c c' \<longleftrightarrow>
     c' = c\<lparr>cl_direct_disabled := cl_direct_disabled c', cl_route_misses := cl_route_misses c'\<rparr>"

lemma flags_only_refl [simp]: "flags_only c c"
  by (simp add: flags_only_def)

lemma flags_only_trans: "flags_only a b \<Longrightarrow> flags_only b c \<Longrightarrow> flags_only a c"
  unfolding flags_only_def by (cases a; cases b; cases c) simp

lemma flags_only_ops [simp]:
  "flags_only c (reset_route_misses c)" "flags_only c (count_route_miss c)"
  "flags_only c (c\<lparr>cl_direct_disabled := b\<rparr>)"
  by (simp_all add: flags_only_def reset_route_misses_def count_route_miss_def Let_def)

lemma flags_only_request:
  "flags_only c c' \<Longrightarrow> direct_request c' = direct_request c \<and> frontend_request c' = frontend_request c
     \<and> cl_direct_enabled c' = cl_direct_enabled c"
  unfolding flags_only_def direct_request_def frontend_request_def
  by (cases c; cases c') (simp add: fun_eq_iff)

text \<open>The route stays enabled only while the misses are within the budget.\<close>

definition budget_ok :: "client \<Rightarrow> bool" where
  "budget_ok c \<longleftrightarrow> cl_direct_disabled c \<or> cl_route_misses c \<le> ROUTE_MISS_BUDGET"

lemma budget_ops [simp, inv_intros]:
  "budget_ok (reset_route_misses c)" "budget_ok (count_route_miss c)"
  "budget_ok (c\<lparr>cl_direct_disabled := True\<rparr>)"
  by (auto simp: budget_ok_def reset_route_misses_def count_route_miss_def Let_def)

text \<open>
  Outcomes after which the action is known not to have run: the connection was never
  established, or the route does not exist.
\<close>

definition not_executed :: "transport_error + response \<Rightarrow> bool" where
  "not_executed a = (case a of Inl e \<Rightarrow> safe_fallback_error e | Inr resp \<Rightarrow> rs_status resp = 404)"

text \<open>What the steps of the loop keep.\<close>

definition quiet :: "'w session \<Rightarrow> 'w session \<Rightarrow> bool" where
  "quiet s s' \<longleftrightarrow> se_log s' = se_log s \<and> se_answers s' = se_answers s
     \<and> flags_only (se_client s) (se_client s') \<and> (budget_ok (se_client s) \<longrightarrow> budget_ok (se_client s'))"

lemma quiet_refl [simp]: "quiet s s"
  by (simp add: quiet_def)

lemma quiet_trans: "quiet a b \<Longrightarrow> quiet b c \<Longrightarrow> quiet a c"
  unfolding quiet_def using flags_only_trans by metis

lemma quiet_world: "se_client s' = se_client s \<Longrightarrow> se_log s' = se_log s \<Longrightarrow> se_answers s' = se_answers s \<Longrightarrow> quiet s s'"
  by (simp add: quiet_def)

lemma quiet_set_client:
  "flags_only (se_client s) (f (se_client s)) \<Longrightarrow> budget_ok (f (se_client s)) \<Longrightarrow>
   quiet s (s\<lparr>se_client := f (se_client s)\<rparr>)"
  by (simp add: quiet_def)

lemma quiet_remaining: "remaining_timeout ops deadline s = (r, s') \<Longrightarrow> quiet s s' \<and> (\<exists>t. r = Inr t)"
  by (cases deadline)
    (auto simp: remaining_timeout_def act_bind_def intro!: quiet_world dest: now_keeps
      split: prod.splits sum.splits)

lemma quiet_sleep: "quiet s (snd (sleep ops d s))"
  by (simp add: quiet_def)

lemma direct_outcome_quiet:
  assumes "direct_outcome request_id x s = (y, s')"
  shows "quiet s s'"
    and "y = Inr FellBack \<Longrightarrow> \<exists>resp. x = Inr resp \<and> rs_status resp = 404"
    and "y = Inr (Failed e True) \<Longrightarrow> \<exists>t. x = Inl (HttpxError t) \<and> safe_fallback_error t"
  using assms
  by (auto simp: direct_outcome_def Let_def act_bind_def intro!: quiet_set_client
      split: sum.splits client_exc.splits if_splits option.splits)

lemma direct_exhausted_quiet:
  assumes "direct_exhausted request_id failure s = (r, s')"
  shows "quiet s s'" and "r = Inr None \<Longrightarrow> \<exists>e. failure = Some (e, True)"
  using assms
  by (auto simp: direct_exhausted_def act_bind_def quiet_def
      split: option.splits prod.splits bool.splits client_exc.splits)

lemma direct_loop_cases:
  assumes "direct_loop ops i a args rid deadline failure (Suc left) s = (r, s'')"
  obtains
    (Late) s\<^sub>1 where "quiet s s\<^sub>1" "direct_exhausted rid failure s\<^sub>1 = (r, s'')"
  | (Ended) rem s\<^sub>1 x s\<^sub>2 y where "quiet s s\<^sub>1"
      "send ops (direct_request (se_client s\<^sub>1) i a args rid rem) s\<^sub>1 = (x, s\<^sub>2)"
      "direct_outcome rid x s\<^sub>2 = (y, s'')" "r = Inr None \<longrightarrow> y = Inr FellBack"
  | (GaveUp) rem s\<^sub>1 x s\<^sub>2 e safe s\<^sub>3 s\<^sub>4 where "quiet s s\<^sub>1"
      "send ops (direct_request (se_client s\<^sub>1) i a args rid rem) s\<^sub>1 = (x, s\<^sub>2)"
      "direct_outcome rid x s\<^sub>2 = (Inr (Failed e safe), s\<^sub>3)" "quiet s\<^sub>3 s\<^sub>4"
      "direct_exhausted rid (Some (e, safe)) s\<^sub>4 = (r, s'')"
  | (Again) rem s\<^sub>1 x s\<^sub>2 e safe s\<^sub>3 s\<^sub>4 where "quiet s s\<^sub>1"
      "send ops (direct_request (se_client s\<^sub>1) i a args rid rem) s\<^sub>1 = (x, s\<^sub>2)"
      "direct_outcome rid x s\<^sub>2 = (Inr (Failed e safe), s\<^sub>3)" "quiet s\<^sub>3 s\<^sub>4" "0 < left"
      "direct_loop ops i a args rid deadline (Some (e, safe)) left s\<^sub>4 = (r, s'')"
proof -
  obtain rem s\<^sub>1 where rem: "remaining_timeout ops deadline s = (Inr rem, s\<^sub>1)" and q: "quiet s s\<^sub>1"
    using quiet_remaining [of ops deadline s] by (metis prod.collapse)
  show thesis
  proof (cases "case rem of None \<Rightarrow> False | Some r \<Rightarrow> r \<le> 0")
    case True
    then show thesis using assms rem Late [OF q] by simp
  next
    case False
    let ?rq = "direct_request (se_client s\<^sub>1) i a args rid rem"
    obtain x s\<^sub>2 where x: "send ops ?rq s\<^sub>1 = (x, s\<^sub>2)" by (metis prod.collapse)
    obtain y s\<^sub>3 where y: "direct_outcome rid x s\<^sub>2 = (y, s\<^sub>3)" by (metis prod.collapse)
    show thesis
    proof (cases "\<exists>e safe. y = Inr (Failed e safe)")
      case False': False
      have "s'' = s\<^sub>3 \<and> (r = Inr None \<longrightarrow> y = Inr FellBack)"
        using assms rem x y False False'
        by (cases y) (auto simp: act_bind_def act_try_def split: attempt.splits)
      then show thesis using Ended [OF q x] y by simp
    next
      case True
      then obtain e safe where f: "y = Inr (Failed e safe)" by blast
      obtain rem' s\<^sub>4 where rem': "remaining_timeout ops deadline s\<^sub>3 = (Inr rem', s\<^sub>4)" and q': "quiet s\<^sub>3 s\<^sub>4"
        using quiet_remaining [of ops deadline s\<^sub>3] by (metis prod.collapse)
      let ?d = "case rem' of None \<Rightarrow> backoff_before left | Some r \<Rightarrow> min (backoff_before left) (max 0 r)"
      have run: "(if left = 0 then direct_exhausted rid (Some (e, safe)) s\<^sub>3
          else if ?d \<le> 0 then direct_exhausted rid (Some (e, safe)) s\<^sub>4
          else direct_loop ops i a args rid deadline (Some (e, safe)) left (snd (sleep ops ?d s\<^sub>4))) = (r, s'')"
        using assms rem x y f rem' False by (simp add: Let_def split: if_splits)
      show thesis
        using run GaveUp [OF q x y [unfolded f]] Again [OF q x y [unfolded f]] q'
          quiet_trans [OF q' quiet_sleep] quiet_refl
        by (metis (no_types, lifting) gr0I)
    qed
  qed
qed

text \<open>
  The attempts of a run: their timeouts, and their outcomes in order. Falling back means that the
  last outcome, if there was an attempt at all, was one after which the action has not run.
\<close>

lemma send_quiet:
  assumes "quiet s s\<^sub>1" "send ops (direct_request (se_client s\<^sub>1) i a args rid rem) s\<^sub>1 = (x, s\<^sub>2)"
    and "quiet s\<^sub>2 s\<^sub>3"
  obtains ans where "x = map_sum HttpxError id ans"
    "se_log s\<^sub>3 = se_log s @ [direct_request (se_client s) i a args rid rem]"
    "se_answers s\<^sub>3 = se_answers s @ [ans]"
    "flags_only (se_client s) (se_client s\<^sub>3)"
    "budget_ok (se_client s) \<longrightarrow> budget_ok (se_client s\<^sub>3)"
proof -
  from send_keeps [OF assms(2)] obtain ans where ans: "x = map_sum HttpxError id ans"
    "se_answers s\<^sub>2 = se_answers s\<^sub>1 @ [ans]" "se_client s\<^sub>2 = se_client s\<^sub>1"
    "se_log s\<^sub>2 = se_log s\<^sub>1 @ [direct_request (se_client s\<^sub>1) i a args rid rem]"
    by auto
  moreover have "direct_request (se_client s\<^sub>1) = direct_request (se_client s)"
    using assms(1) flags_only_request unfolding quiet_def by blast
  ultimately show thesis
    using assms(1,3) that [of ans] flags_only_trans unfolding quiet_def by metis
qed

lemma direct_loop_run:
  "direct_loop ops i a args rid deadline failure k s = (r, s') \<Longrightarrow>
   \<exists>rems as. length as = length rems \<and> length rems \<le> k
     \<and> se_log s' = se_log s @ map (direct_request (se_client s) i a args rid) rems
     \<and> se_answers s' = se_answers s @ as
     \<and> flags_only (se_client s) (se_client s')
     \<and> (budget_ok (se_client s) \<longrightarrow> budget_ok (se_client s'))
     \<and> (r = Inr None \<longrightarrow> (if as = [] then \<exists>e. failure = Some (e, True) else not_executed (last as)))"
proof (induction k arbitrary: failure s)
  case 0
  then show ?case
    using direct_exhausted_quiet [of rid failure s r s'] by (auto simp: quiet_def intro!: exI [of _ "[]"])
next
  case (Suc left)
  from Suc.prems show ?case
  proof (cases rule: direct_loop_cases)
    case (Late s\<^sub>1)
    then have "quiet s s'" using direct_exhausted_quiet(1) quiet_trans by blast
    then show ?thesis
      using direct_exhausted_quiet(2) [OF Late(2)] by (auto simp: quiet_def intro!: exI [of _ "[]"])
  next
    case (Ended rem s\<^sub>1 x s\<^sub>2 y)
    obtain ans where ans: "x = map_sum HttpxError id ans"
      "se_log s' = se_log s @ [direct_request (se_client s) i a args rid rem]"
      "se_answers s' = se_answers s @ [ans]" "flags_only (se_client s) (se_client s')"
      "budget_ok (se_client s) \<longrightarrow> budget_ok (se_client s')"
      by (rule send_quiet [OF Ended(1,2) direct_outcome_quiet(1) [OF Ended(3)]])
    have "not_executed ans" if "r = Inr None"
      using Ended(4) that direct_outcome_quiet(2) [OF Ended(3)] ans(1)
      by (cases ans) (auto simp: not_executed_def)
    with ans show ?thesis by (intro exI [of _ "[rem]"] exI [of _ "[ans]"]) auto
  next
    case (GaveUp rem s\<^sub>1 x s\<^sub>2 e safe s\<^sub>3 s\<^sub>4)
    have "quiet s\<^sub>2 s'"
      using direct_outcome_quiet(1) [OF GaveUp(3)] GaveUp(4) direct_exhausted_quiet(1) [OF GaveUp(5)]
        quiet_trans by blast
    then obtain ans where ans: "x = map_sum HttpxError id ans"
      "se_log s' = se_log s @ [direct_request (se_client s) i a args rid rem]"
      "se_answers s' = se_answers s @ [ans]" "flags_only (se_client s) (se_client s')"
      "budget_ok (se_client s) \<longrightarrow> budget_ok (se_client s')"
      by (rule send_quiet [OF GaveUp(1,2)])
    have "not_executed ans" if "r = Inr None"
    proof -
      have "safe" using direct_exhausted_quiet(2) [OF GaveUp(5) that] by simp
      with direct_outcome_quiet(3) [OF GaveUp(3)] ans(1) show ?thesis
        by (cases ans) (auto simp: not_executed_def)
    qed
    with ans show ?thesis by (intro exI [of _ "[rem]"] exI [of _ "[ans]"]) auto
  next
    case (Again rem s\<^sub>1 x s\<^sub>2 e safe s\<^sub>3 s\<^sub>4)
    have "quiet s\<^sub>2 s\<^sub>4"
      using direct_outcome_quiet(1) [OF Again(3)] Again(4) quiet_trans by blast
    then obtain ans where ans: "x = map_sum HttpxError id ans"
      "se_log s\<^sub>4 = se_log s @ [direct_request (se_client s) i a args rid rem]"
      "se_answers s\<^sub>4 = se_answers s @ [ans]" "flags_only (se_client s) (se_client s\<^sub>4)"
      "budget_ok (se_client s) \<longrightarrow> budget_ok (se_client s\<^sub>4)"
      by (rule send_quiet [OF Again(1,2)])
    have safe: "not_executed ans" if "\<exists>e'. Some (e, safe) = Some (e', True)"
      using direct_outcome_quiet(3) [of rid x s\<^sub>2 _ s\<^sub>3 e] Again(3) ans(1) that
      by (cases ans) (auto simp: not_executed_def)
    from Suc.IH [OF Again(6)] obtain rems as where ih: "length as = length rems" "length rems \<le> left"
      "se_log s' = se_log s\<^sub>4 @ map (direct_request (se_client s\<^sub>4) i a args rid) rems"
      "se_answers s' = se_answers s\<^sub>4 @ as" "flags_only (se_client s\<^sub>4) (se_client s')"
      "budget_ok (se_client s\<^sub>4) \<longrightarrow> budget_ok (se_client s')"
      "r = Inr None \<longrightarrow> (if as = [] then \<exists>e'. Some (e, safe) = Some (e', True) else not_executed (last as))"
      by blast
    moreover have "direct_request (se_client s\<^sub>4) = direct_request (se_client s)"
      using flags_only_request [OF ans(4)] by simp
    ultimately show ?thesis
      using ans safe flags_only_trans [OF ans(4) ih(5)]
      by (intro exI [of _ "rem # rems"] exI [of _ "ans # as"]) auto
  qed
qed

lemma invoke_frontend_run:
  assumes "invoke_frontend ops i a args rid d s = (r, s')"
  obtains fs bs where "length fs \<le> 1"
    "se_log s' = se_log s @ map (frontend_request (se_client s) i a args rid) fs"
    "se_answers s' = se_answers s @ bs" "se_client s' = se_client s"
proof -
  obtain t s\<^sub>1 where t: "remaining_timeout ops d s = (Inr t, s\<^sub>1)"
    and same: "se_client s\<^sub>1 = se_client s" "se_log s\<^sub>1 = se_log s" "se_answers s\<^sub>1 = se_answers s"
  proof (cases d)
    case None
    then show thesis using that by (simp add: remaining_timeout_def)
  next
    case (Some x)
    obtain t s' where "now ops s = (Inr t, s')" using now_returns by blast
    then show thesis using that now_keeps [of ops s "Inr t" s'] Some by (auto simp: remaining_timeout_def)
  qed
  obtain x s\<^sub>2 where x: "send ops (frontend_request (se_client s) i a args rid t) s\<^sub>1 = (x, s\<^sub>2)"
    by (metis prod.collapse)
  show thesis
  proof (cases "case t of None \<Rightarrow> False | Some r \<Rightarrow> r \<le> 0")
    case True
    then have "s' = s\<^sub>1" using assms t by (simp add: invoke_frontend_def)
    then show thesis using that [of "[]" "[]"] same by simp
  next
    case False
    then have "s' = s\<^sub>2"
      using assms t x same by (auto simp: invoke_frontend_def act_bind_def split: sum.splits)
    then show thesis using that [of "[t]"] send_keeps [OF x] same by auto
  qed
qed




end
