(* ===== verification/TransportFiles.thy ===== *)
theory TransportFiles
  imports TransportLifecycle
begin

text \<open>
  The data path of \<open>SandboxClient\<close>: binary uploads and downloads on the \<open>/direct\<close> route, whole or
  resumable. A file being uploaded does not change meanwhile.
\<close>

section \<open>Uploads\<close>

definition dict_update :: "(string \<times> string) list \<Rightarrow> (string \<times> string) list \<Rightarrow> (string \<times> string) list" where
  "dict_update d new = foldl (\<lambda>d (k, v). AList.update k v d) d new"

text \<open>An HTTP answer that must be JSON; \<open>as_dict\<close> is applied by the callers that do.\<close>

definition direct_json :: "string \<Rightarrow> client_exc + response \<Rightarrow> client_exc + json" where
  "direct_json what r =
     (case r of
        Inl (HttpxError e) \<Rightarrow> Inl (SandboxError (what @ '' failed''))
      | Inl e \<Rightarrow> Inl e
      | Inr resp \<Rightarrow>
          if rs_status resp \<ge> 400 then Inl (SandboxError (what @ '' failed: '' @ status_message resp))
          else
            case rs_json resp of
              None \<Rightarrow> Inl (SandboxError (what @ '' returned non-JSON body''))
            | Some v \<Rightarrow> Inr v)"

definition direct_url :: "client \<Rightarrow> string \<Rightarrow> string \<Rightarrow> string" where
  "direct_url c sandbox_id leaf = cl_direct_base c @ ''/'' @ safe_id sandbox_id @ leaf"

definition upload_request ::
  "client \<Rightarrow> string \<Rightarrow> byte list \<Rightarrow> string \<Rightarrow> rat option \<Rightarrow> string \<Rightarrow> nat option
     \<Rightarrow> (string \<times> string) list \<Rightarrow> http_req" where
  "upload_request c sandbox_id content remote_path timeout upload_type content_len extra =
     \<lparr>rq_method = ''POST'', rq_url = direct_url c sandbox_id ''/upload'',
      rq_params = dict_update [(''path'', remote_path), (''type'', upload_type)] extra,
      rq_json = JNull, rq_content = Some content,
      rq_headers =
        (''Content-Type'', if upload_type = ''tar'' then ''application/x-tar'' else ''application/octet-stream'')
        # (case content_len of None \<Rightarrow> [] | Some n \<Rightarrow> [(''Content-Length'', str_nat n)]),
      rq_timeout = timeout, rq_pool_timeout = timeout\<rparr>"

definition upload_direct ::
  "'w ops \<Rightarrow> string \<Rightarrow> byte list \<Rightarrow> string \<Rightarrow> rat option \<Rightarrow> string \<Rightarrow> nat option
     \<Rightarrow> (string \<times> string) list \<Rightarrow> ('w, jobj) act" where
  "upload_direct ops sandbox_id content remote_path timeout upload_type content_len extra =
     act_bind get_client (\<lambda>c.
     act_bind (act_try (send ops
         (upload_request c sandbox_id content remote_path timeout upload_type content_len extra))) (\<lambda>r.
       act_lift (map_sum id as_dict (direct_json ''direct upload'' r))))"

definition upload_bytes_direct ::
  "'w ops \<Rightarrow> string \<Rightarrow> byte list \<Rightarrow> string \<Rightarrow> rat option \<Rightarrow> ('w, jobj) act" where
  "upload_bytes_direct ops sandbox_id dat remote_path timeout =
     upload_direct ops sandbox_id dat remote_path timeout ''file'' (Some (length dat)) []"

definition upload_stream_direct ::
  "'w ops \<Rightarrow> string \<Rightarrow> byte list list \<Rightarrow> string \<Rightarrow> rat option \<Rightarrow> string \<Rightarrow> ('w, jobj) act" where
  "upload_stream_direct ops sandbox_id chunks remote_path timeout upload_type =
     upload_direct ops sandbox_id (concat chunks) remote_path timeout upload_type None []"

definition direct_get_request ::
  "client \<Rightarrow> string \<Rightarrow> string \<Rightarrow> (string \<times> string) list \<Rightarrow> (string \<times> string) list \<Rightarrow> rat option \<Rightarrow> http_req" where
  "direct_get_request c sandbox_id leaf params headers timeout =
     (plain_request ''GET'' (direct_url c sandbox_id leaf) JNull headers timeout)\<lparr>rq_params := params\<rparr>"

text \<open>\<open>int(parsed.get("offset", d))\<close>.\<close>

definition offset_of :: "jobj \<Rightarrow> int \<Rightarrow> client_exc + int" where
  "offset_of parsed d = map_sum PyError id (int_of_json (jget_or parsed ''offset'' (JInt d)))"

definition upload_status ::
  "'w ops \<Rightarrow> string \<Rightarrow> string \<Rightarrow> string \<Rightarrow> rat option \<Rightarrow> ('w, int) act" where
  "upload_status ops sandbox_id remote_path upload_id timeout =
     act_bind get_client (\<lambda>c.
     act_bind (act_try (send ops (direct_get_request c sandbox_id ''/upload/status''
         [(''path'', remote_path), (''uploadId'', upload_id)] [] timeout))) (\<lambda>r.
     act_bind (act_lift (direct_json ''direct upload status'' r)) (\<lambda>v.
       case v of
         JObj parsed \<Rightarrow> act_lift (offset_of parsed 0)
       | _ \<Rightarrow> act_raise (PyError (AttributeError ''object has no attribute get'')))))"

definition upload_commit ::
  "'w ops \<Rightarrow> string \<Rightarrow> string \<Rightarrow> string \<Rightarrow> nat \<Rightarrow> rat option \<Rightarrow> ('w, jobj) act" where
  "upload_commit ops sandbox_id remote_path upload_id nbytes timeout =
     act_bind (new_request_id ops ''upload-commit'') (\<lambda>request_id.
     act_bind get_client (\<lambda>c.
     act_bind (act_try (send ops
         ((plain_request ''POST'' (direct_url c sandbox_id ''/upload/commit'') JNull
            [(''X-YR-Request-ID'', request_id)] timeout)
          \<lparr>rq_params := [(''path'', remote_path), (''uploadId'', upload_id), (''totalSize'', str_nat nbytes)]\<rparr>)))
       (\<lambda>r. act_lift (map_sum id as_dict (direct_json ''direct upload commit'' r)))))"

section \<open>Resumable uploads\<close>

text \<open>
  The inner loop: one chunk, and after each error the server's own offset. \<open>left\<close> is the number
  of further errors that are tolerated.
\<close>

fun upload_chunk ::
  "'w ops \<Rightarrow> string \<Rightarrow> string \<Rightarrow> string \<Rightarrow> nat \<Rightarrow> rat option \<Rightarrow> byte list \<Rightarrow> nat \<Rightarrow> int \<Rightarrow> ('w, int) act" where
  "upload_chunk ops sandbox_id remote_path upload_id nbytes timeout chunk left offset =
     act_bind (act_try (upload_direct ops sandbox_id chunk remote_path timeout ''file'' (Some (length chunk))
         [(''uploadId'', upload_id), (''offset'', str_int offset), (''totalSize'', str_nat nbytes)])) (\<lambda>r.
       case r of
         Inr result \<Rightarrow> act_lift (offset_of result (offset + int (length chunk)))
       | Inl e \<Rightarrow>
           if \<not> is_sandbox_error e then act_raise e
           else
             case left of
               0 \<Rightarrow> act_raise e
             | Suc left \<Rightarrow>
                 act_bind (upload_status ops sandbox_id remote_path upload_id timeout)
                   (upload_chunk ops sandbox_id remote_path upload_id nbytes timeout chunk left))"

text \<open>\<open>f.seek(offset)\<close> and \<open>f.read(n)\<close>: a negative size reads to the end.\<close>

definition read_at :: "byte list \<Rightarrow> int \<Rightarrow> int \<Rightarrow> client_exc + byte list" where
  "read_at dat offset n =
     (if offset < 0 then Inl (PyError (ValueError ''negative seek value''))
      else Inr (if n < 0 then drop (nat offset) dat else take (nat n) (drop (nat offset) dat)))"

text \<open>The outer loop, with fuel: a server that never moves its offset keeps it running.\<close>

fun upload_loop ::
  "nat \<Rightarrow> 'w ops \<Rightarrow> string \<Rightarrow> string \<Rightarrow> string \<Rightarrow> rat option \<Rightarrow> byte list \<Rightarrow> int \<Rightarrow> ('w, unit option) act" where
  "upload_loop 0 ops sandbox_id remote_path upload_id timeout dat offset = act_return None"
| "upload_loop (Suc fuel) ops sandbox_id remote_path upload_id timeout dat offset =
     (let nbytes = length dat in
      if offset \<ge> int nbytes then act_return (Some ())
      else
        act_bind get_client (\<lambda>c.
        act_bind (act_lift (read_at dat offset (min (cl_resume_chunk_size c) (int nbytes - offset)))) (\<lambda>chunk.
          if chunk = [] then act_return (Some ())
          else
            act_bind (upload_chunk ops sandbox_id remote_path upload_id nbytes timeout chunk
                (nat (cl_resume_max_retries c)) offset)
              (upload_loop fuel ops sandbox_id remote_path upload_id timeout dat))))"

definition upload_file_resumable ::
  "nat \<Rightarrow> 'w ops \<Rightarrow> string \<Rightarrow> byte list \<Rightarrow> string \<Rightarrow> rat option \<Rightarrow> ('w, jobj option) act" where
  "upload_file_resumable fuel ops sandbox_id dat remote_path timeout =
     act_bind (new_request_id ops ''upload'') (\<lambda>upload_id.
     act_bind (upload_status ops sandbox_id remote_path upload_id timeout) (\<lambda>offset.
     act_bind (upload_loop fuel ops sandbox_id remote_path upload_id timeout dat offset) (\<lambda>ended.
       case ended of
         None \<Rightarrow> act_return None
       | Some _ \<Rightarrow>
           act_bind (upload_commit ops sandbox_id remote_path upload_id (length dat) timeout)
             (\<lambda>result. act_return (Some result)))))"

definition upload_file_direct ::
  "nat \<Rightarrow> 'w ops \<Rightarrow> string \<Rightarrow> string \<Rightarrow> string \<Rightarrow> rat option \<Rightarrow> string \<Rightarrow> ('w, jobj option) act" where
  "upload_file_direct fuel ops sandbox_id local_path remote_path timeout upload_type s =
     (case se_files s local_path of
        None \<Rightarrow> (Inl (FileNotFoundError local_path), s)
      | Some dat \<Rightarrow>
          if upload_type = ''file'' \<and> int (length dat) \<ge> cl_resume_min_size (se_client s)
          then upload_file_resumable fuel ops sandbox_id dat remote_path timeout s
          else act_bind (upload_direct ops sandbox_id dat remote_path timeout upload_type (Some (length dat)) [])
                 (\<lambda>result. act_return (Some result)) s)"

section \<open>Downloads\<close>

text \<open>\<open>_write_stream_to_file\<close>: what was yielded is written before a broken stream raises.\<close>

definition write_stream_to_file :: "response \<Rightarrow> string \<Rightarrow> bool \<Rightarrow> ('w, unit) act" where
  "write_stream_to_file resp path app s =
     (let old = (if app then (case se_files s path of None \<Rightarrow> [] | Some b \<Rightarrow> b) else []);
          s' = s\<lparr>se_files := (se_files s)(path \<mapsto> old @ concat (rs_chunks resp))\<rparr>
      in (case rs_broken resp of Some e \<Rightarrow> (Inl (HttpxError e), s') | None \<Rightarrow> (Inr (), s')))"

text \<open>One pass of a streamed download into \<open>path\<close>.\<close>

definition stream_to_file ::
  "'w ops \<Rightarrow> http_req \<Rightarrow> string \<Rightarrow> (response \<Rightarrow> bool) \<Rightarrow> ('w, unit) act" where
  "stream_to_file ops rq path app =
     act_bind (send ops rq) (\<lambda>resp.
       if rs_status resp \<ge> 400
       then act_bind (act_lift (read_body resp))
         (\<lambda>_. act_raise (SandboxError (''direct download failed: '' @ status_message resp)))
       else write_stream_to_file resp path (app resp))"

definition replace_file :: "string \<Rightarrow> string \<Rightarrow> ('w, unit) act" where
  "replace_file src dst s =
     (case se_files s src of
        None \<Rightarrow> (Inl (FileNotFoundError src), s)
      | Some b \<Rightarrow> (Inr (), s\<lparr>se_files := (se_files s)(src := None, dst \<mapsto> b)\<rparr>))"

definition part_path :: "string \<Rightarrow> string" where "part_path local_path = local_path @ ''.part''"

text \<open>One round of the loop; \<open>left\<close> is the number of further errors that are tolerated.\<close>

definition download_round ::
  "'w ops \<Rightarrow> string \<Rightarrow> string \<Rightarrow> string \<Rightarrow> rat option \<Rightarrow> ('w, unit) act" where
  "download_round ops sandbox_id remote_path local_path timeout s =
     (let part = part_path local_path;
          offset = (case se_files s part of None \<Rightarrow> 0 | Some b \<Rightarrow> length b);
          headers = (if offset > 0 then [(''Range'', ''bytes='' @ str_nat offset @ ''-'')] else []);
          rq = direct_get_request (se_client s) sandbox_id ''/download''
                 [(''path'', remote_path), (''type'', ''file'')] headers timeout
      in act_bind (stream_to_file ops rq part (\<lambda>resp. offset > 0 \<and> rs_status resp = 206))
           (\<lambda>_. replace_file part local_path) s)"

fun download_loop ::
  "'w ops \<Rightarrow> string \<Rightarrow> string \<Rightarrow> string \<Rightarrow> rat option \<Rightarrow> nat \<Rightarrow> ('w, unit) act" where
  "download_loop ops sandbox_id remote_path local_path timeout left =
     act_bind (act_try (download_round ops sandbox_id remote_path local_path timeout)) (\<lambda>r.
       case r of
         Inr _ \<Rightarrow> act_return ()
       | Inl (HttpxError e) \<Rightarrow>
           (case left of
              0 \<Rightarrow> act_raise (SandboxError ''direct download failed'')
            | Suc left \<Rightarrow> download_loop ops sandbox_id remote_path local_path timeout left)
       | Inl e \<Rightarrow> act_raise e)"

definition download_file_resumable ::
  "'w ops \<Rightarrow> string \<Rightarrow> string \<Rightarrow> string \<Rightarrow> rat option \<Rightarrow> ('w, unit) act" where
  "download_file_resumable ops sandbox_id remote_path local_path timeout s =
     download_loop ops sandbox_id remote_path local_path timeout (nat (cl_resume_max_retries (se_client s))) s"

definition download_file_direct ::
  "'w ops \<Rightarrow> string \<Rightarrow> string \<Rightarrow> string \<Rightarrow> rat option \<Rightarrow> string \<Rightarrow> ('w, unit) act" where
  "download_file_direct ops sandbox_id remote_path local_path timeout download_type =
     (if download_type = ''file''
      then download_file_resumable ops sandbox_id remote_path local_path timeout
      else
        act_bind get_client (\<lambda>c.
        act_bind (act_try (stream_to_file ops
            (direct_get_request c sandbox_id ''/download''
               [(''path'', remote_path), (''type'', download_type)] [] timeout) local_path (\<lambda>_. False))) (\<lambda>r.
          case r of
            Inl (HttpxError _) \<Rightarrow> act_raise (SandboxError ''direct download failed'')
          | Inl e \<Rightarrow> act_raise e
          | Inr _ \<Rightarrow> act_return ())))"

definition download_bytes_direct ::
  "'w ops \<Rightarrow> string \<Rightarrow> string \<Rightarrow> rat option \<Rightarrow> ('w, byte list) act" where
  "download_bytes_direct ops sandbox_id remote_path timeout =
     act_bind get_client (\<lambda>c.
     act_bind (act_try (send ops (direct_get_request c sandbox_id ''/download''
         [(''path'', remote_path), (''type'', ''file'')] [] timeout))) (\<lambda>r.
       case r of
         Inl (HttpxError _) \<Rightarrow> act_raise (SandboxError ''direct download failed'')
       | Inl e \<Rightarrow> act_raise e
       | Inr resp \<Rightarrow>
           if rs_status resp \<ge> 400
           then act_raise (SandboxError (''direct download failed: '' @ status_message resp))
           else act_return (concat (rs_chunks resp))))"

section \<open>A server that keeps partial uploads\<close>

text \<open>
  The upload protocol as the client uses it: an upload at the server's offset is appended and
  answered with the new offset, any other is refused; a commit of the right size stores the file.
  An upload may be dropped before it is stored, or stored with its answer lost.
\<close>

datatype upload_fault = Dropped | Lost

record upload_world =
  uw_stored :: "byte list"
  uw_committed :: "byte list option"
  uw_faults :: "upload_fault option list"
  uw_ids :: nat

definition json_response :: "int \<Rightarrow> jobj \<Rightarrow> response" where
  "json_response status ob =
     \<lparr>rs_status = status, rs_content_type = ''application/json'', rs_text = [], rs_json = Some (JObj ob),
      rs_lines = [], rs_chunks = [], rs_broken = None\<rparr>"

definition store_chunk :: "http_req \<Rightarrow> string \<Rightarrow> upload_world \<Rightarrow> response \<times> upload_world" where
  "store_chunk rq offset w =
     (if offset = str_int (int (length (uw_stored w)))
      then let stored = uw_stored w @ the (rq_content rq)
           in (json_response 200 [(''offset'', JInt (int (length stored)))], w\<lparr>uw_stored := stored\<rparr>)
      else (json_response 409 [], w))"

definition upload_server :: "http_req \<Rightarrow> upload_world \<Rightarrow> (transport_error + response) \<times> upload_world" where
  "upload_server rq w =
     (if rq_method rq = ''GET''
      then (Inr (json_response 200 [(''offset'', JInt (int (length (uw_stored w))))]), w)
      else
        case map_of (rq_params rq) ''offset'' of
          None \<Rightarrow>
            if map_of (rq_params rq) ''totalSize'' = Some (str_nat (length (uw_stored w)))
            then (Inr (json_response 200 []), w\<lparr>uw_committed := Some (uw_stored w)\<rparr>)
            else (Inr (json_response 409 []), w)
        | Some offset \<Rightarrow>
            (let fault = (case uw_faults w of [] \<Rightarrow> None | f # _ \<Rightarrow> f);
                 w = w\<lparr>uw_faults := tl (uw_faults w)\<rparr>
             in if fault = Some Dropped then (Inl ReadTimeout, w)
                else case store_chunk rq offset w of
                  (resp, w) \<Rightarrow> (if fault = Some Lost then Inl ReadTimeout else Inr resp, w)))"

definition upload_ops :: "upload_world ops" where
  "upload_ops =
     \<lparr>op_send = upload_server, op_now = (\<lambda>w. (0, w)), op_sleep = (\<lambda>d w. w),
      op_uuid = (\<lambda>w. (str_nat (uw_ids w), w\<lparr>uw_ids := Suc (uw_ids w)\<rparr>)),
      op_loads = (\<lambda>_. None), op_data = (\<lambda>_. None)\<rparr>"

text \<open>The part of a session the protocol is about.\<close>

definition upload_state :: "upload_world session \<Rightarrow> client \<times> byte list \<times> byte list option \<times> upload_fault option list" where
  "upload_state s = (se_client s, uw_stored (se_world s), uw_committed (se_world s), uw_faults (se_world s))"

lemma upload_state_iff:
  "upload_state s = (c, st, co, fs) \<longleftrightarrow>
     se_client s = c \<and> uw_stored (se_world s) = st \<and> uw_committed (se_world s) = co
     \<and> uw_faults (se_world s) = fs"
  by (simp add: upload_state_def)

lemma upload_params [simp]:
  "map_of (rq_params (upload_request c i content p t ty n
      [(''uploadId'', u), (''offset'', off), (''totalSize'', tot)])) ''offset'' = Some off"
  "rq_method (upload_request c i content p t ty n ex) = ''POST''"
  "rq_content (upload_request c i content p t ty n ex) = Some content"
  by (simp_all add: upload_request_def dict_update_def update_conv)

lemma send_upload_ops:
  "send upload_ops rq s =
     (case upload_server rq (se_world s) of
        (r, w) \<Rightarrow> (map_sum HttpxError id r,
                   s\<lparr>se_world := w, se_log := se_log s @ [rq], se_answers := se_answers s @ [r]\<rparr>))"
  by (simp add: send_def upload_ops_def)

lemma offset_json [simp]: "offset_of [(''offset'', JInt n)] d = Inr n"
  by (simp add: offset_of_def jget_or_def int_of_json_def)

lemma upload_status_run:
  assumes "upload_state s = (c, st, co, fs)"
  shows "\<exists>s'. upload_status upload_ops i p u t s = (Inr (int (length st)), s') \<and> upload_state s' = (c, st, co, fs)"
  using assms
  by (simp add: upload_status_def act_bind_def act_try_def send_upload_ops upload_server_def
      direct_get_request_def plain_request_def direct_json_def json_response_def upload_state_iff)

definition next_fault :: "upload_fault option list \<Rightarrow> upload_fault option" where
  "next_fault fs = (case fs of [] \<Rightarrow> None | f # _ \<Rightarrow> f)"

lemma upload_direct_run:
  assumes "upload_state s = (c, st, co, fs)" "next_fault fs \<noteq> Some Lost"
  shows "\<exists>s' e. upload_direct upload_ops i chunk p t ''file'' n
      [(''uploadId'', u), (''offset'', str_int (int (length st))), (''totalSize'', tot)] s
    = (if next_fault fs = Some Dropped then Inl (SandboxError e)
       else Inr [(''offset'', JInt (int (length st + length chunk)))], s')
    \<and> upload_state s' = (c, if next_fault fs = Some Dropped then st else st @ chunk, co, tl fs)"
  using assms
  by (cases "next_fault fs = Some Dropped")
    (auto simp: upload_direct_def act_bind_def act_try_def send_upload_ops upload_server_def
      next_fault_def [symmetric]
      direct_json_def json_response_def upload_state_iff store_chunk_def Let_def as_dict_def)

text \<open>What is left of the faults after a chunk has got through.\<close>

definition after_chunk :: "upload_fault option list \<Rightarrow> upload_fault option list" where
  "after_chunk fs = tl (dropWhile ((=) (Some Dropped)) fs)"

lemma upload_chunk_run:
  assumes "upload_state s = (c, st, co, fs)" "Some Lost \<notin> set fs"
    and "length (takeWhile ((=) (Some Dropped)) fs) \<le> left"
  shows "\<exists>s'. upload_chunk upload_ops i p u tot t chunk left (int (length st)) s
      = (Inr (int (length st + length chunk)), s')
    \<and> upload_state s' = (c, st @ chunk, co, after_chunk fs)"
  using assms
proof (induction left arbitrary: s fs)
  case 0
  then have f: "next_fault fs \<noteq> Some Dropped" "next_fault fs \<noteq> Some Lost" "after_chunk fs = tl fs"
    by (cases fs; auto simp: next_fault_def after_chunk_def split: if_splits)+
  obtain s' where
    "upload_direct upload_ops i chunk p t ''file'' (Some (length chunk))
      [(''uploadId'', u), (''offset'', str_int (int (length st))), (''totalSize'', str_nat tot)] s
      = (Inr [(''offset'', JInt (int (length st + length chunk)))], s')"
    "upload_state s' = (c, st @ chunk, co, tl fs)"
    using upload_direct_run [OF 0(1) f(2)] f(1) by fastforce
  then show ?case using f by (simp add: act_bind_def act_try_def)
next
  case (Suc left)
  have f: "next_fault fs \<noteq> Some Lost"
    using Suc.prems(2) by (cases fs) (auto simp: next_fault_def)
  from upload_direct_run [OF Suc.prems(1) f] obtain s\<^sub>1 e where
    up: "upload_direct upload_ops i chunk p t ''file'' (Some (length chunk))
      [(''uploadId'', u), (''offset'', str_int (int (length st))), (''totalSize'', str_nat tot)] s
      = (if next_fault fs = Some Dropped then Inl (SandboxError e)
         else Inr [(''offset'', JInt (int (length st + length chunk)))], s\<^sub>1)"
    and st: "upload_state s\<^sub>1 = (c, if next_fault fs = Some Dropped then st else st @ chunk, co, tl fs)"
    by blast
  show ?case
  proof (cases "next_fault fs = Some Dropped")
    case False
    then have "after_chunk fs = tl fs" by (cases fs) (auto simp: next_fault_def after_chunk_def)
    with False show ?thesis using up st by (simp add: act_bind_def act_try_def)
  next
    case True
    then obtain fs' where fs: "fs = Some Dropped # fs'" by (cases fs) (auto simp: next_fault_def)
    have "upload_state s\<^sub>1 = (c, st, co, fs')" using st True fs by simp
    from upload_status_run [OF this, of i p u t] obtain s\<^sub>2 where
      s2: "upload_status upload_ops i p u t s\<^sub>1 = (Inr (int (length st)), s\<^sub>2)"
      "upload_state s\<^sub>2 = (c, st, co, fs')"
      by blast
    have "upload_chunk upload_ops i p u tot t chunk (Suc left) (int (length st)) s
        = upload_chunk upload_ops i p u tot t chunk left (int (length st)) s\<^sub>2"
      using up True s2(1) by (simp add: act_bind_def act_try_def is_sandbox_error_def)
    then show ?thesis
      using Suc.IH [OF s2(2)] Suc.prems(2,3) by (simp add: fs after_chunk_def)
  qed
qed

definition drops :: "upload_fault option list \<Rightarrow> nat" where
  "drops fs = length (filter ((=) (Some Dropped)) fs)"

lemma drops_prefix: "length (takeWhile ((=) (Some Dropped)) fs) \<le> drops fs"
  by (induction fs) (auto simp: drops_def)

lemma after_chunk_less:
  "drops (after_chunk fs) \<le> drops fs" "Some Lost \<notin> set fs \<Longrightarrow> Some Lost \<notin> set (after_chunk fs)"
proof -
  have "drops (tl gs) \<le> drops gs" for gs by (cases gs) (auto simp: drops_def)
  moreover have "drops (dropWhile ((=) (Some Dropped)) fs) \<le> drops fs"
    by (induction fs) (auto simp: drops_def)
  ultimately show "drops (after_chunk fs) \<le> drops fs" unfolding after_chunk_def using le_trans by blast
  show "Some Lost \<notin> set (after_chunk fs)" if "Some Lost \<notin> set fs"
  proof
    assume "Some Lost \<in> set (after_chunk fs)"
    then have "Some Lost \<in> set (dropWhile ((=) (Some Dropped)) fs)"
      unfolding after_chunk_def by (metis list.set_sel(2) tl_Nil)
    then show False using that by (auto dest: set_dropWhileD)
  qed
qed

lemma upload_loop_run:
  assumes "upload_state s = (c, st, co, fs)" "Some Lost \<notin> set fs"
    and "drops fs \<le> nat (cl_resume_max_retries c)" "0 < cl_resume_chunk_size c"
    and "dat = st @ rest" "length rest < fuel"
  shows "\<exists>s' fs'. upload_loop fuel upload_ops i p u t dat (int (length st)) s = (Inr (Some ()), s')
    \<and> upload_state s' = (c, dat, co, fs')"
  using assms
proof (induction fuel arbitrary: s st fs rest)
  case 0
  then show ?case by simp
next
  case (Suc fuel)
  show ?case
  proof (cases "rest = []")
    case True
    then show ?thesis using Suc.prems by simp
  next
    case False
    let ?n = "min (cl_resume_chunk_size c) (int (length rest))"
    have n: "0 < ?n" using False Suc.prems(4) by simp
    let ?chunk = "take (nat ?n) rest"
    have read: "read_at dat (int (length st)) k = Inr (take (nat k) rest)" if "0 < k" for k
      using that Suc.prems(5) by (simp add: read_at_def)
    have chunk: "read_at dat (int (length st)) ?n = Inr ?chunk" by (rule read [OF n])
    have some: "take (nat k) rest \<noteq> []" "length (drop (nat k) rest) < fuel" if "0 < k" for k
      using that False Suc.prems(6) by (cases rest; simp)+
    have ne: "?chunk \<noteq> []" by (rule some(1) [OF n])
    have c: "se_client s = c" using Suc.prems(1) by (simp add: upload_state_iff)
    have few: "length (takeWhile ((=) (Some Dropped)) fs) \<le> nat (cl_resume_max_retries c)"
      using Suc.prems(3) drops_prefix le_trans by blast
    from upload_chunk_run [OF Suc.prems(1,2) few, of i p u "length dat" t ?chunk]
    obtain s' where s':
      "upload_chunk upload_ops i p u (length dat) t ?chunk (nat (cl_resume_max_retries c)) (int (length st)) s
         = (Inr (int (length st + length ?chunk)), s')"
      "upload_state s' = (c, st @ ?chunk, co, after_chunk fs)"
      by blast
    have step: "upload_loop (Suc fuel) upload_ops i p u t dat (int (length st)) s
        = upload_loop fuel upload_ops i p u t dat (int (length (st @ ?chunk))) s'"
      using chunk ne s'(1) c False Suc.prems(5) by (simp add: Let_def)
    have "dat = (st @ ?chunk) @ drop (nat ?n) rest" using Suc.prems(5) by simp
    moreover have "length (drop (nat ?n) rest) < fuel" by (rule some(2) [OF n])
    moreover have "drops (after_chunk fs) \<le> nat (cl_resume_max_retries c)"
      using after_chunk_less(1) Suc.prems(3) le_trans by blast
    ultimately show ?thesis
      unfolding step using Suc.IH [OF s'(2)] after_chunk_less(2) Suc.prems(2,4) by blast
  qed
qed


definition upload_session :: "upload_fault option list \<Rightarrow> upload_world session" where
  "upload_session fs =
     \<lparr>se_client = sample_client,
      se_world = \<lparr>uw_stored = [], uw_committed = None, uw_faults = fs, uw_ids = 1\<rparr>,
      se_log = [], se_answers = [], se_files = Map.empty\<rparr>"


lemma upload_chunk_retry:
  assumes "upload_direct ops i chunk p t ''file'' (Some (length chunk))
      [(''uploadId'', u), (''offset'', str_int off), (''totalSize'', str_nat tot)] s = (Inl (SandboxError e), s\<^sub>1)"
    and "upload_status ops i p u t s\<^sub>1 = (Inr off', s\<^sub>2)"
  shows "upload_chunk ops i p u tot t chunk (Suc left) off s = upload_chunk ops i p u tot t chunk left off' s\<^sub>2"
  using assms by (simp add: act_bind_def act_try_def is_sandbox_error_def)

declare upload_chunk.simps [simp del]

lemma upload_direct_lost:
  assumes "upload_state s = (c, st, co, [Some Lost])"
  shows "\<exists>s' e. upload_direct upload_ops i chunk p t ''file'' n
      [(''uploadId'', u), (''offset'', str_int (int (length st))), (''totalSize'', tot)] s
    = (Inl (SandboxError e), s') \<and> upload_state s' = (c, st @ chunk, co, [])"
  using assms
  by (auto simp: upload_direct_def act_bind_def act_try_def send_upload_ops upload_server_def
      direct_json_def json_response_def upload_state_iff store_chunk_def Let_def)

text \<open>
  C26: An upload whose answer is lost after the server has stored the chunk is not resumed but
  corrupted: the client asks the server for its offset and then sends the same chunk again at the
  new offset. For a file of two chunks \<open>x\<close> and \<open>y\<close> the size is right, so the commit succeeds, and
  what is committed is \<open>x\<close> twice.
\<close>

theorem lost_answer_corrupts_upload:
  assumes "upload_state s = (c, [], co, [Some Lost])" "x \<noteq> []" "length y = length x"
    and "cl_resume_chunk_size c = int (length x)" "0 < cl_resume_max_retries c" "2 \<le> fuel"
  shows "\<exists>s'. upload_file_resumable fuel upload_ops sandbox_id (x @ y) remote_path timeout s = (Inr (Some []), s')
    \<and> uw_committed (se_world s') = Some (x @ x)"
proof -
  let ?dat = "x @ y" and ?n = "int (length x)"
  obtain u s\<^sub>1 where u: "new_request_id upload_ops ''upload'' s = (Inr u, s\<^sub>1)"
    and s1: "upload_state s\<^sub>1 = (c, [], co, [Some Lost])"
    using assms(1) by (simp add: new_request_id_def upload_ops_def upload_state_iff)
  from upload_status_run [OF s1, of sandbox_id remote_path u timeout] obtain s\<^sub>2 where
    s2: "upload_status upload_ops sandbox_id remote_path u timeout s\<^sub>1 = (Inr 0, s\<^sub>2)"
    "upload_state s\<^sub>2 = (c, [], co, [Some Lost])"
    by auto
  from upload_direct_lost [OF s2(2), of sandbox_id x remote_path timeout "Some (length x)" u "str_nat (length ?dat)"]
  obtain s\<^sub>3 e where s3: "upload_direct upload_ops sandbox_id x remote_path timeout ''file'' (Some (length x))
      [(''uploadId'', u), (''offset'', str_int 0), (''totalSize'', str_nat (length ?dat))] s\<^sub>2
      = (Inl (SandboxError e), s\<^sub>3)" "upload_state s\<^sub>3 = (c, x, co, [])"
    by auto
  from upload_status_run [OF s3(2), of sandbox_id remote_path u timeout] obtain s\<^sub>4 where
    s4: "upload_status upload_ops sandbox_id remote_path u timeout s\<^sub>3 = (Inr ?n, s\<^sub>4)"
    "upload_state s\<^sub>4 = (c, x, co, [])"
    by blast
  obtain left where left: "nat (cl_resume_max_retries c) = Suc left"
    using assms(5) by (cases "nat (cl_resume_max_retries c)") auto
  from upload_chunk_run [OF s4(2), of left sandbox_id remote_path u "length ?dat" timeout x] obtain s\<^sub>5 where
    s5: "upload_chunk upload_ops sandbox_id remote_path u (length ?dat) timeout x left ?n s\<^sub>4
      = (Inr (?n + ?n), s\<^sub>5)" "upload_state s\<^sub>5 = (c, x @ x, co, [])"
    by (auto simp: after_chunk_def)
  have chunk: "upload_chunk upload_ops sandbox_id remote_path u (length ?dat) timeout x (Suc left) 0 s\<^sub>2
      = (Inr (?n + ?n), s\<^sub>5)"
    using upload_chunk_retry [OF s3(1) s4(1)] s5(1) by simp
  obtain fuel' where fuel: "fuel = Suc (Suc fuel')" using assms(6) by (cases fuel; cases "fuel - 1") auto
  have client: "se_client s\<^sub>2 = c" "se_client s\<^sub>5 = c"
    using s2(2) s5(2) by (simp_all add: upload_state_iff)
  have "read_at ?dat 0 (min ?n (int (length ?dat) - 0)) = Inr x"
    using assms(3) by (simp add: read_at_def)
  then have loop: "upload_loop fuel upload_ops sandbox_id remote_path u timeout ?dat 0 s\<^sub>2 = (Inr (Some ()), s\<^sub>5)"
    using chunk client assms(2-4) left by (simp add: fuel Let_def)
  obtain s' where s': "upload_commit upload_ops sandbox_id remote_path u (length ?dat) timeout s\<^sub>5 = (Inr [], s')"
    "uw_committed (se_world s') = Some (x @ x)"
    using s5(2) assms(3)
    by (simp add: upload_commit_def new_request_id_def upload_ops_def upload_state_iff act_bind_def
        act_try_def send_def upload_server_def plain_request_def direct_json_def json_response_def as_dict_def)
  have "upload_file_resumable fuel upload_ops sandbox_id ?dat remote_path timeout s = (Inr (Some []), s')"
    using u s2(1) loop s'(1) by (simp add: upload_file_resumable_def)
  then show ?thesis using s'(2) by blast
qed

theorem lost_answer_corrupts_upload_witness:
  "\<exists>s'. upload_file_resumable 2 upload_ops ''sb'' [1, 2, 3, 4] ''/f'' None (upload_session [Some Lost])
     = (Inr (Some []), s') \<and> uw_committed (se_world s') = Some [1, 2, 1, 2]"
  using lost_answer_corrupts_upload [of "upload_session [Some Lost]" sample_client None "[1, 2]" "[3, 4]" 2
      "''sb''" "''/f''" None]
  by (simp add: upload_session_def upload_state_def sample_client_def)

section \<open>A server that honours ranges\<close>

text \<open>
  A server with fixed content: a request without a range gets all of it, one with a range that
  starts inside the content the rest from there (206), any other range 416. Each body may be cut
  off after some bytes, in the order of \<open>dw_cuts\<close>.
\<close>

record download_world =
  dw_content :: "byte list"
  dw_cuts :: "nat option list"

definition cut_body :: "nat option \<Rightarrow> int \<Rightarrow> byte list \<Rightarrow> response" where
  "cut_body brk status body =
     \<lparr>rs_status = status, rs_content_type = ''application/octet-stream'', rs_text = [], rs_json = None,
      rs_lines = [], rs_chunks = [case brk of None \<Rightarrow> body | Some k \<Rightarrow> take k body],
      rs_broken = (case brk of None \<Rightarrow> None | Some _ \<Rightarrow> Some ReadError)\<rparr>"

text \<open>The first position of the range \<open>bytes=<first>-\<close>.\<close>

definition range_start :: "string \<Rightarrow> nat" where
  "range_start r = dec_value (butlast (drop 6 r))"

definition download_server :: "http_req \<Rightarrow> download_world \<Rightarrow> (transport_error + response) \<times> download_world" where
  "download_server rq w =
     (let brk = (case dw_cuts w of [] \<Rightarrow> None | k # _ \<Rightarrow> k);
          w' = w\<lparr>dw_cuts := tl (dw_cuts w)\<rparr>
      in case map_of (rq_headers rq) ''Range'' of
           None \<Rightarrow> (Inr (cut_body brk 200 (dw_content w)), w')
         | Some r \<Rightarrow>
             if range_start r < length (dw_content w)
             then (Inr (cut_body brk 206 (drop (range_start r) (dw_content w))), w')
             else (Inr (cut_body None 416 []), w'))"

definition download_ops :: "download_world ops" where
  "download_ops =
     \<lparr>op_send = download_server, op_now = (\<lambda>w. (0, w)), op_sleep = (\<lambda>d w. w),
      op_uuid = (\<lambda>w. ([], w)), op_loads = (\<lambda>_. None), op_data = (\<lambda>_. None)\<rparr>"

lemma range_start_bytes: "range_start (''bytes='' @ str_nat n @ ''-'') = n"
  by (simp add: range_start_def str_nat_def butlast_append)

definition part_bytes :: "'w session \<Rightarrow> string \<Rightarrow> byte list" where
  "part_bytes s local_path = (case se_files s (part_path local_path) of None \<Rightarrow> [] | Some b \<Rightarrow> b)"

lemma part_path_neq [simp]: "part_path p \<noteq> p" "p \<noteq> part_path p"
  by (auto simp: part_path_def)

lemma send_download_ops:
  "send download_ops rq s =
     (case download_server rq (se_world s) of
        (r, w) \<Rightarrow> (map_sum HttpxError id r,
                   s\<lparr>se_world := w, se_log := se_log s @ [rq], se_answers := se_answers s @ [r]\<rparr>))"
  by (simp add: send_def download_ops_def)

text \<open>A round completes the file, or extends the part and raises, or is refused for its range.\<close>

lemma download_round_run:
  assumes "dw_content (se_world s) = content" "content = part_bytes s local_path @ rest"
  obtains
    (Complete) s' where "download_round download_ops i p local_path t s = (Inr (), s')"
      "se_files s' = (se_files s)(part_path local_path := None, local_path \<mapsto> content)"
  | (Cut) s' k where "download_round download_ops i p local_path t s = (Inl (HttpxError ReadError), s')"
      "dw_content (se_world s') = content" "se_client s' = se_client s"
      "se_files s' = (se_files s)(part_path local_path \<mapsto> part_bytes s local_path @ take k rest)"
  | (Refused) s' e where "download_round download_ops i p local_path t s = (Inl (SandboxError e), s')"
      "se_files s' = se_files s" "rest = []" "content \<noteq> []"
proof -
  let ?part = "part_bytes s local_path" and ?f = "part_path local_path"
  let ?headers = "if length ?part > 0 then [(''Range'', ''bytes='' @ str_nat (length ?part) @ ''-'')] else []"
  let ?rq = "direct_get_request (se_client s) i ''/download'' [(''path'', p), (''type'', ''file'')] ?headers t"
  let ?brk = "case dw_cuts (se_world s) of [] \<Rightarrow> None | k # _ \<Rightarrow> k"
  have off: "(case se_files s ?f of None \<Rightarrow> 0 | Some b \<Rightarrow> length b) = length ?part"
    by (simp add: part_bytes_def split: option.splits)
  have hd: "rq_headers ?rq = ?headers" by (simp add: direct_get_request_def plain_request_def)
  define s\<^sub>1 where "s\<^sub>1 = s\<lparr>se_world := (se_world s)\<lparr>dw_cuts := tl (dw_cuts (se_world s))\<rparr>,
      se_log := se_log s @ [?rq], se_answers := se_answers s @ [fst (download_server ?rq (se_world s))]\<rparr>"
  have files: "se_files s\<^sub>1 = se_files s" "dw_content (se_world s\<^sub>1) = content" "se_client s\<^sub>1 = se_client s"
    using assms(1) by (simp_all add: s\<^sub>1_def)
  have round: "download_round download_ops i p local_path t s =
      act_bind (stream_to_file download_ops ?rq ?f (\<lambda>resp. length ?part > 0 \<and> rs_status resp = 206))
        (\<lambda>_. replace_file ?f local_path) s"
    by (simp add: download_round_def off Let_def)
  show thesis
  proof (cases "?part \<noteq> [] \<and> rest = []")
    case True
    then have "send download_ops ?rq s = (Inr (cut_body None 416 []), s\<^sub>1)"
      using assms hd by (simp add: send_download_ops download_server_def s\<^sub>1_def Let_def range_start_bytes [simplified])
    then show thesis
      using Refused [of _ s\<^sub>1] True assms(2) files
      by (simp add: round stream_to_file_def act_bind_def read_body_def cut_body_def)
  next
    case False
    then obtain st where snt: "send download_ops ?rq s = (Inr (cut_body ?brk st rest), s\<^sub>1)"
      and st: "st = (if ?part = [] then 200 else 206)"
      using assms hd by (cases "?part = []")
        (simp_all add: send_download_ops download_server_def s\<^sub>1_def Let_def range_start_bytes [simplified])
    have w: "write_stream_to_file (cut_body ?brk st rest) ?f (length ?part > 0 \<and> st = 206) s\<^sub>1 =
        (case ?brk of
           None \<Rightarrow> (Inr (), s\<^sub>1\<lparr>se_files := (se_files s)(?f \<mapsto> content)\<rparr>)
         | Some k \<Rightarrow> (Inl (HttpxError ReadError), s\<^sub>1\<lparr>se_files := (se_files s)(?f \<mapsto> ?part @ take k rest)\<rparr>))"
      using assms(2) st files(1)
      by (cases ?brk; cases "?part = []")
        (auto simp: write_stream_to_file_def cut_body_def part_bytes_def Let_def split: option.splits)
    have stream: "stream_to_file download_ops ?rq ?f (\<lambda>resp. length ?part > 0 \<and> rs_status resp = 206) s =
        write_stream_to_file (cut_body ?brk st rest) ?f (length ?part > 0 \<and> st = 206) s\<^sub>1"
      using snt st by (simp add: stream_to_file_def) (simp add: cut_body_def)
    show thesis
    proof (cases ?brk)
      case None
      have "download_round download_ops i p local_path t s =
          (Inr (), s\<^sub>1\<lparr>se_files := (se_files s)(?f := None, local_path \<mapsto> content)\<rparr>)"
        unfolding round act_bind_def stream None w [unfolded None option.case] by (simp add: replace_file_def)
      then show thesis by (rule Complete) simp
    next
      case (Some k)
      have "download_round download_ops i p local_path t s =
          (Inl (HttpxError ReadError), s\<^sub>1\<lparr>se_files := (se_files s)(?f \<mapsto> ?part @ take k rest)\<rparr>)"
        unfolding round act_bind_def stream Some w [unfolded Some option.case] by simp
      then show thesis by (rule Cut) (use files in simp_all)
    qed
  qed
qed


definition download_session :: "byte list \<Rightarrow> byte list option \<Rightarrow> nat option list \<Rightarrow> download_world session" where
  "download_session content part cuts =
     \<lparr>se_client = sample_client, se_world = \<lparr>dw_content = content, dw_cuts = cuts\<rparr>,
      se_log = [], se_answers = [], se_files = (\<lambda>p. if p = ''/l.part'' then part else None)\<rparr>"


text \<open>
  A part that already holds the whole content, as a break after the last byte leaves it, is
  never turned into the file: the range the client asks for starts at the end of the content, the
  server refuses it, and this call and every later one fails with the part left in place.
\<close>

theorem complete_part_never_finishes:
  assumes "dw_content (se_world s) = part_bytes s local_path" "part_bytes s local_path \<noteq> []"
  shows "\<exists>e s'. download_file_resumable download_ops sandbox_id remote_path local_path timeout s
      = (Inl (SandboxError e), s') \<and> se_files s' = se_files s"
proof -
  have "\<exists>e s\<^sub>1. download_round download_ops sandbox_id remote_path local_path timeout s
      = (Inl (SandboxError e), s\<^sub>1) \<and> se_files s\<^sub>1 = se_files s"
  proof -
    let ?n = "length (part_bytes s local_path)"
    have "(case se_files s (part_path local_path) of None \<Rightarrow> 0 | Some b \<Rightarrow> length b) = ?n"
      by (simp add: part_bytes_def split: option.splits)
    moreover have "range_start (''bytes='' @ str_nat ?n @ ''-'') = ?n" by (rule range_start_bytes)
    ultimately show ?thesis
      using assms
      by (simp add: download_round_def Let_def stream_to_file_def act_bind_def send_download_ops
          download_server_def direct_get_request_def plain_request_def cut_body_def read_body_def)
  qed
  then show ?thesis
    unfolding download_file_resumable_def
    by (auto simp: act_bind_def act_try_def download_loop.simps [of _ _ _ _ _ "nat _"])
qed

theorem complete_part_never_finishes_witness:
  "\<exists>e s'. download_file_resumable download_ops ''sb'' ''/f'' ''/l'' None
       (download_session [1, 2] (Some [1, 2]) []) = (Inl (SandboxError e), s')
     \<and> se_files s' = se_files (download_session [1, 2] (Some [1, 2]) [])"
  by (rule complete_part_never_finishes)
    (simp_all add: download_session_def part_bytes_def part_path_def)

end
