(* ===== verification/HttpPool.thy ===== *)
theory HttpPool
  imports Bytes
begin

text \<open>
  \<open>_http_pool.py\<close>: one shared HTTP client per target and process, handed out as leases that carry
  a sandbox's token. The registry's and a lease's methods hold a lock while they run, so each is
  one step of the process; closing a lease is two, because the lease's lock is released before the
  registry is told. A fork copies the memory of the process into a child with another pid. The
  clients themselves (httpx) are identities.
\<close>

section \<open>Client settings\<close>

definition DEFAULT_MAX_CONNECTIONS :: int where "DEFAULT_MAX_CONNECTIONS = 256"
definition DEFAULT_MAX_KEEPALIVE_CONNECTIONS :: int where "DEFAULT_MAX_KEEPALIVE_CONNECTIONS = 128"
definition DEFAULT_KEEPALIVE_EXPIRY :: rat where "DEFAULT_KEEPALIVE_EXPIRY = 30"

definition pool_env :: "env \<Rightarrow> string \<Rightarrow> string" where
  "pool_env environ name = py_strip (case environ name of None \<Rightarrow> [] | Some v \<Rightarrow> v)"

definition pool_int_env :: "env \<Rightarrow> string \<Rightarrow> int \<Rightarrow> int result" where
  "pool_int_env environ name dflt =
     (let raw = pool_env environ name in
      if raw = [] then Inr dflt
      else
        case py_int raw of
          None \<Rightarrow> Inl (ValueError ''invalid literal for int()'')
        | Some n \<Rightarrow> if n \<le> 0 then Inl (ValueError (name @ '' must be a positive integer'')) else Inr n)"

text \<open>\<open>py_float\<close> is \<open>float(s)\<close> on finite values, None where it raises.\<close>

definition pool_float_env :: "(string \<Rightarrow> rat option) \<Rightarrow> env \<Rightarrow> string \<Rightarrow> rat \<Rightarrow> rat result" where
  "pool_float_env py_float environ name dflt =
     (let raw = pool_env environ name in
      if raw = [] then Inr dflt
      else
        case py_float raw of
          None \<Rightarrow> Inl (ValueError ''could not convert string to float'')
        | Some q \<Rightarrow> if q \<le> 0 then Inl (ValueError (name @ '' must be greater than zero'')) else Inr q)"

record client_limits =
  li_verify :: bool
  li_max_connections :: int
  li_max_keepalive :: int
  li_keepalive_expiry :: rat

definition new_http_client :: "(string \<Rightarrow> rat option) \<Rightarrow> env \<Rightarrow> bool \<Rightarrow> client_limits result" where
  "new_http_client py_float environ verify_tls =
     bind_result (pool_int_env environ ''YR_HTTP_MAX_CONNECTIONS'' DEFAULT_MAX_CONNECTIONS) (\<lambda>max_connections.
     bind_result (pool_int_env environ ''YR_HTTP_MAX_KEEPALIVE_CONNECTIONS'' DEFAULT_MAX_KEEPALIVE_CONNECTIONS)
       (\<lambda>max_keepalive.
     if max_keepalive > max_connections
     then Inl (ValueError (''YR_HTTP_MAX_KEEPALIVE_CONNECTIONS must be less than or equal to ''
       @ ''YR_HTTP_MAX_CONNECTIONS''))
     else
     bind_result (pool_float_env py_float environ ''YR_HTTP_KEEPALIVE_EXPIRY'' DEFAULT_KEEPALIVE_EXPIRY)
       (\<lambda>expiry.
       Inr \<lparr>li_verify = verify_tls, li_max_connections = max_connections,
            li_max_keepalive = max_keepalive, li_keepalive_expiry = expiry\<rparr>)))"

section \<open>Registry and leases\<close>

type_synonym target = "string \<times> string \<times> bool"

record pool_entry =
  pe_client :: nat
  pe_references :: nat

record registry =
  rg_pid :: int
  rg_entries :: "(target \<times> pool_entry) list"

text \<open>
  \<open>le_releasing\<close> marks a lease between the two steps of its \<open>close\<close>; the code has no such field.
\<close>

record lease =
  le_target :: target
  le_pid :: int
  le_client :: nat
  le_token :: string
  le_closed :: bool
  le_releasing :: bool

text \<open>A process: its pid, the registry, the leases that were handed out, and the clients made and closed.\<close>

record process =
  pr_pid :: int
  pr_registry :: registry
  pr_leases :: "lease list"
  pr_clients :: "client_limits list"
  pr_closed :: "nat list"

definition reset_after_fork :: "process \<Rightarrow> process" where
  "reset_after_fork p =
     (if pr_pid p = rg_pid (pr_registry p) then p
      else p\<lparr>pr_registry := \<lparr>rg_pid = pr_pid p, rg_entries = []\<rparr>\<rparr>)"

definition add_reference :: "pool_entry \<Rightarrow> pool_entry" where
  "add_reference e = e\<lparr>pe_references := Suc (pe_references e)\<rparr>"

definition set_entry :: "target \<Rightarrow> pool_entry \<Rightarrow> process \<Rightarrow> process" where
  "set_entry t e p =
     p\<lparr>pr_registry := (pr_registry p)\<lparr>rg_entries := AList.update t e (rg_entries (pr_registry p))\<rparr>\<rparr>"

definition find_entry :: "process \<Rightarrow> target \<Rightarrow> pool_entry option" where
  "find_entry p t = map_of (rg_entries (pr_registry p)) t"

definition acquire_target ::
  "(string \<Rightarrow> rat option) \<Rightarrow> env \<Rightarrow> target \<Rightarrow> process \<Rightarrow> (int \<times> nat) result \<times> process" where
  "acquire_target py_float environ t p =
     (let p = reset_after_fork p in
      case find_entry p t of
        Some e \<Rightarrow> (Inr (rg_pid (pr_registry p), pe_client e), set_entry t (add_reference e) p)
      | None \<Rightarrow>
          (case new_http_client py_float environ (snd (snd t)) of
             Inl err \<Rightarrow> (Inl err, p)
           | Inr limits \<Rightarrow>
               (let cl = length (pr_clients p) in
                (Inr (rg_pid (pr_registry p), cl),
                 set_entry t \<lparr>pe_client = cl, pe_references = 1\<rparr> (p\<lparr>pr_clients := pr_clients p @ [limits]\<rparr>)))))"

definition acquire ::
  "(string \<Rightarrow> rat option) \<Rightarrow> env \<Rightarrow> target \<Rightarrow> string \<Rightarrow> process \<Rightarrow> nat result \<times> process" where
  "acquire py_float environ t token p =
     (case acquire_target py_float environ t p of
        (Inl err, p) \<Rightarrow> (Inl err, p)
      | (Inr (pid, cl), p) \<Rightarrow>
          (Inr (length (pr_leases p)),
           p\<lparr>pr_leases := pr_leases p @ [\<lparr>le_target = t, le_pid = pid, le_client = cl, le_token = token,
                                          le_closed = False, le_releasing = False\<rparr>]\<rparr>))"

definition release :: "target \<Rightarrow> int \<Rightarrow> process \<Rightarrow> process" where
  "release t lease_pid p =
     (let p = reset_after_fork p in
      if lease_pid \<noteq> rg_pid (pr_registry p) then p
      else
        case find_entry p t of
          Some e \<Rightarrow> if pe_references e > 0 then set_entry t (e\<lparr>pe_references := pe_references e - 1\<rparr>) p else p
        | None \<Rightarrow> p)"

definition update_lease :: "nat \<Rightarrow> (lease \<Rightarrow> lease) \<Rightarrow> process \<Rightarrow> process" where
  "update_lease i f p = p\<lparr>pr_leases := (pr_leases p)[i := f (pr_leases p ! i)]\<rparr>"

text \<open>\<open>close\<close>: under the lease's lock, and then the registry's \<open>release\<close>.\<close>

definition close_mark :: "nat \<Rightarrow> process \<Rightarrow> process" where
  "close_mark i p =
     (if le_closed (pr_leases p ! i) then p
      else update_lease i (\<lambda>l. l\<lparr>le_closed := True, le_releasing := True\<rparr>) p)"

definition close_release :: "nat \<Rightarrow> process \<Rightarrow> process" where
  "close_release i p =
     (let l = pr_leases p ! i in
      release (le_target l) (le_pid l) (update_lease i (\<lambda>l. l\<lparr>le_releasing := False\<rparr>) p))"

definition current_client ::
  "(string \<Rightarrow> rat option) \<Rightarrow> env \<Rightarrow> nat \<Rightarrow> process \<Rightarrow> nat result \<times> process" where
  "current_client py_float environ i p =
     (let l = pr_leases p ! i in
      if le_closed l then (Inl (RuntimeError ''Cannot send a request after SandboxClient.close()''), p)
      else if pr_pid p = le_pid l then (Inr (le_client l), p)
      else
        case acquire_target py_float environ (le_target l) p of
          (Inl err, p) \<Rightarrow> (Inl err, p)
        | (Inr (pid, cl), p) \<Rightarrow>
            (Inr cl, update_lease i (\<lambda>l. l\<lparr>le_pid := pid, le_client := cl\<rparr>) p))"

text \<open>\<open>httpx.Headers\<close> is case-insensitive: assignment replaces the first match and drops the others.\<close>

fun set_header :: "string \<Rightarrow> string \<Rightarrow> (string \<times> string) list \<Rightarrow> (string \<times> string) list" where
  "set_header k v [] = [(k, v)]"
| "set_header k v ((k', v') # hs) =
     (if py_lower k' = py_lower k
      then (k, v) # filter (\<lambda>(k', _). py_lower k' \<noteq> py_lower k) hs
      else (k', v') # set_header k v hs)"

definition request_headers :: "lease \<Rightarrow> (string \<times> string) list \<Rightarrow> (string \<times> string) list" where
  "request_headers l headers = set_header ''X-Auth'' (le_token l) headers"

definition close_all :: "process \<Rightarrow> process" where
  "close_all p =
     (let p = reset_after_fork p in
      p\<lparr>pr_registry := (pr_registry p)\<lparr>rg_entries := []\<rparr>,
        pr_closed := pr_closed p @ map (pe_client \<circ> snd) (rg_entries (pr_registry p))\<rparr>)"

definition pool_snapshot :: "process \<Rightarrow> ((int \<times> target) \<times> nat \<times> nat) list \<times> process" where
  "pool_snapshot p =
     (let p = reset_after_fork p in
      (map (\<lambda>(t, e). ((rg_pid (pr_registry p), t), pe_client e, pe_references e)) (rg_entries (pr_registry p)), p))"

text \<open>\<open>_after_fork_in_child\<close>, in the child's copy of the memory.\<close>

definition fork_child :: "int \<Rightarrow> process \<Rightarrow> process" where
  "fork_child pid p = p\<lparr>pr_pid := pid, pr_registry := \<lparr>rg_pid = pid, rg_entries = []\<rparr>\<rparr>"

text \<open>The start of a program, after the module has been imported.\<close>

definition fresh_process :: "int \<Rightarrow> process" where
  "fresh_process pid =
     \<lparr>pr_pid = pid, pr_registry = \<lparr>rg_pid = pid, rg_entries = []\<rparr>, pr_leases = [], pr_clients = [],
      pr_closed = []\<rparr>"

section \<open>Runs of a process\<close>

text \<open>
  Any interleaving of the operations, each at its atomic steps, without \<open>close_all\<close>, which runs at
  exit. A child gets a pid that no lease remembers.
\<close>

inductive pool_run ::
  "(string \<Rightarrow> rat option) \<Rightarrow> env \<Rightarrow> process \<Rightarrow> process \<Rightarrow> bool"
  for py_float :: "string \<Rightarrow> rat option" and environ :: env where
  Start: "pool_run py_float environ p p"
| Acquire: "pool_run py_float environ p q \<Longrightarrow> acquire py_float environ t token q = (r, q') \<Longrightarrow>
    pool_run py_float environ p q'"
| Request: "pool_run py_float environ p q \<Longrightarrow> i < length (pr_leases q) \<Longrightarrow>
    current_client py_float environ i q = (r, q') \<Longrightarrow> pool_run py_float environ p q'"
| CloseMark: "pool_run py_float environ p q \<Longrightarrow> i < length (pr_leases q) \<Longrightarrow>
    pool_run py_float environ p (close_mark i q)"
| CloseRelease: "pool_run py_float environ p q \<Longrightarrow> i < length (pr_leases q) \<Longrightarrow>
    le_releasing (pr_leases q ! i) \<Longrightarrow> pool_run py_float environ p (close_release i q)"
| Snapshot: "pool_run py_float environ p q \<Longrightarrow> pool_snapshot q = (r, q') \<Longrightarrow> pool_run py_float environ p q'"
| Fork: "pool_run py_float environ p q \<Longrightarrow> pid \<notin> le_pid ` set (pr_leases q) \<Longrightarrow>
    pool_run py_float environ p (fork_child pid q)"

text \<open>A lease holds a reference of this process from its acquisition until it is released.\<close>

definition holds :: "int \<Rightarrow> target \<Rightarrow> lease \<Rightarrow> bool" where
  "holds pid t l \<longleftrightarrow> le_target l = t \<and> le_pid l = pid \<and> (\<not> le_closed l \<or> le_releasing l)"

definition holders :: "process \<Rightarrow> target \<Rightarrow> nat" where
  "holders p t = length (filter (holds (pr_pid p) t) (pr_leases p))"

definition references :: "process \<Rightarrow> target \<Rightarrow> nat" where
  "references p t = (case find_entry p t of None \<Rightarrow> 0 | Some e \<Rightarrow> pe_references e)"

definition shared :: "process \<Rightarrow> lease \<Rightarrow> bool" where
  "shared p l \<longleftrightarrow> (le_pid l = pr_pid p \<longrightarrow>
     (\<exists>e. find_entry p (le_target l) = Some e \<and> pe_client e = le_client l))
     \<and> (le_releasing l \<longrightarrow> le_closed l)"

definition pool_inv :: "process \<Rightarrow> bool" where
  "pool_inv p \<longleftrightarrow> rg_pid (pr_registry p) = pr_pid p
     \<and> (\<forall>t. references p t = holders p t) \<and> list_all (shared p) (pr_leases p)"

lemma pool_invD:
  assumes "pool_inv p"
  shows "rg_pid (pr_registry p) = pr_pid p" "references p t = holders p t"
    "l \<in> set (pr_leases p) \<Longrightarrow> shared p l"
  using assms unfolding pool_inv_def list_all_iff by blast+

lemma filter_update:
  "i < length xs \<Longrightarrow>
   length (filter P (xs[i := y])) + (if P (xs ! i) then 1 else 0)
     = length (filter P xs) + (if P y then 1 else 0)"
proof (induction xs arbitrary: i)
  case (Cons x xs)
  then show ?case by (cases i) auto
qed simp

lemma find_set_entry [simp]:
  "find_entry (set_entry t e p) t' = (if t' = t then Some e else find_entry p t')"
  by (simp add: find_entry_def set_entry_def update_conv)

lemma set_entry_fields [simp]:
  "pr_pid (set_entry t e p) = pr_pid p" "pr_leases (set_entry t e p) = pr_leases p"
  "rg_pid (pr_registry (set_entry t e p)) = rg_pid (pr_registry p)"
  "pr_clients (set_entry t e p) = pr_clients p"
  by (simp_all add: set_entry_def)

lemma reset_id: "pool_inv p \<Longrightarrow> reset_after_fork p = p"
  by (simp add: reset_after_fork_def pool_inv_def)

text \<open>Acquiring adds one reference to the target's entry, which it creates if needed.\<close>

lemma acquire_target_run:
  assumes "pool_inv p" "acquire_target py_float environ t p = (r, q)"
  obtains (Failed) err where "r = Inl err" "q = p"
  | (Got) cl e where "r = Inr (pr_pid p, cl)" "find_entry q t = Some e" "pe_client e = cl"
      "pe_references e = Suc (references p t)" "\<And>t'. t' \<noteq> t \<Longrightarrow> find_entry q t' = find_entry p t'"
      "\<And>e'. find_entry p t = Some e' \<Longrightarrow> pe_client e' = cl"
      "pr_pid q = pr_pid p" "rg_pid (pr_registry q) = pr_pid p" "pr_leases q = pr_leases p"
proof (cases "find_entry p t")
  case (Some e)
  then have "q = set_entry t (add_reference e) p" "r = Inr (pr_pid p, pe_client e)"
    using assms pool_invD(1) [OF assms(1)]
    by (simp_all add: acquire_target_def reset_id [OF assms(1)] Let_def)
  then show thesis
    using Some pool_invD(1) [OF assms(1)]
    by (intro Got [of "pe_client e" "add_reference e"]) (simp_all add: add_reference_def references_def)
next
  case None
  show thesis
  proof (cases "new_http_client py_float environ (snd (snd t))")
    case (Inl err)
    then show thesis using assms None Failed by (auto simp: acquire_target_def reset_id [OF assms(1)])
  next
    case (Inr limits)
    let ?cl = "length (pr_clients p)"
    have "q = set_entry t \<lparr>pe_client = ?cl, pe_references = 1\<rparr> (p\<lparr>pr_clients := pr_clients p @ [limits]\<rparr>)"
      "r = Inr (pr_pid p, ?cl)"
      using assms None Inr pool_invD(1) [OF assms(1)]
      by (auto simp: acquire_target_def reset_id [OF assms(1)] Let_def)
    then show thesis
      using None pool_invD(1) [OF assms(1)]
      by (intro Got [of ?cl "\<lparr>pe_client = ?cl, pe_references = 1\<rparr>"])
        (simp_all add: references_def find_entry_def update_conv set_entry_def)
  qed
qed

text \<open>A lease set to a freshly acquired client, at a new place or the place of a lease that held none.\<close>

lemma pool_inv_got:
  assumes "pool_inv p" "find_entry q t = Some e" "pe_client e = cl"
    "pe_references e = Suc (references p t)" "\<And>t'. t' \<noteq> t \<Longrightarrow> find_entry q t' = find_entry p t'"
    "\<And>e'. find_entry p t = Some e' \<Longrightarrow> pe_client e' = cl"
    "pr_pid q = pr_pid p" "rg_pid (pr_registry q) = pr_pid p"
    and l: "le_target l = t" "le_pid l = pr_pid p" "le_client l = cl" "\<not> le_closed l" "\<not> le_releasing l"
    and len: "\<And>t'. length (filter (holds (pr_pid p) t') ls)
        = holders p t' + (if t' = t then 1 else 0)"
    and sub: "set ls \<subseteq> insert l (set (pr_leases p))"
  shows "pool_inv (q\<lparr>pr_leases := ls\<rparr>)"
proof -
  let ?q = "q\<lparr>pr_leases := ls\<rparr>"
  have find: "find_entry ?q t' = find_entry q t'" for t' by (simp add: find_entry_def)
  have "references ?q t' = holders ?q t'" for t'
    using assms(2,4,5,7) len [of t'] pool_invD(2) [OF assms(1)]
    by (cases "t' = t") (auto simp: references_def holders_def find)
  moreover have "shared ?q l'" if "l' \<in> set ls" for l'
  proof (cases "l' = l")
    case True
    then show ?thesis using assms(2,3) l by (simp add: shared_def find)
  next
    case False
    then have "shared p l'" using that sub pool_invD(3) [OF assms(1)] by blast
    then show ?thesis
      using assms(2,3,5,6,7) by (cases "le_target l' = t") (auto simp: shared_def find)
  qed
  ultimately show ?thesis using assms(7,8) by (simp add: pool_inv_def list_all_iff)
qed

lemma pool_inv_acquire [inv_intros]:
  assumes "pool_inv p" "acquire py_float environ t token p = (r, q)"
  shows "pool_inv q"
proof -
  obtain r' p' where a: "acquire_target py_float environ t p = (r', p')" by fastforce
  show ?thesis
  proof (rule acquire_target_run [OF assms(1) a])
    fix err assume "r' = Inl err" "p' = p"
    then show ?thesis using assms a by (simp add: acquire_def)
  next
    fix cl e assume g: "r' = Inr (pr_pid p, cl)" "find_entry p' t = Some e" "pe_client e = cl"
      "pe_references e = Suc (references p t)" "\<And>t'. t' \<noteq> t \<Longrightarrow> find_entry p' t' = find_entry p t'"
      "\<And>e'. find_entry p t = Some e' \<Longrightarrow> pe_client e' = cl"
      "pr_pid p' = pr_pid p" "rg_pid (pr_registry p') = pr_pid p" "pr_leases p' = pr_leases p"
    let ?l = "\<lparr>le_target = t, le_pid = pr_pid p, le_client = cl, le_token = token,
        le_closed = False, le_releasing = False\<rparr>"
    have "q = p'\<lparr>pr_leases := pr_leases p @ [?l]\<rparr>"
      using assms(2) a g(1,9) by (auto simp: acquire_def)
    moreover have "pool_inv (p'\<lparr>pr_leases := pr_leases p @ [?l]\<rparr>)"
      by (rule pool_inv_got [where l = ?l, OF assms(1) g(2-8)]) (auto simp: holders_def holds_def)
    ultimately show ?thesis by simp
  qed
qed

lemma pool_inv_request [inv_intros]:
  assumes "pool_inv p" "i < length (pr_leases p)" "current_client py_float environ i p = (r, q)"
  shows "pool_inv q"
proof -
  let ?l = "pr_leases p ! i"
  have mem: "?l \<in> set (pr_leases p)" using assms(2) by simp
  show ?thesis
  proof (cases "le_closed ?l \<or> pr_pid p = le_pid ?l")
    case True
    then have "q = p" using assms(3) by (auto simp: current_client_def Let_def split: if_splits)
    then show ?thesis using assms(1) by simp
  next
    case False
    obtain r' p' where a: "acquire_target py_float environ (le_target ?l) p = (r', p')" by fastforce
    show ?thesis
    proof (rule acquire_target_run [OF assms(1) a])
      fix err assume "r' = Inl err" "p' = p"
      then have "q = p" using assms(3) a False by (simp add: current_client_def Let_def)
      then show ?thesis using assms(1) by simp
    next
      fix cl e assume g: "r' = Inr (pr_pid p, cl)" "find_entry p' (le_target ?l) = Some e" "pe_client e = cl"
        "pe_references e = Suc (references p (le_target ?l))"
        "\<And>t'. t' \<noteq> le_target ?l \<Longrightarrow> find_entry p' t' = find_entry p t'"
        "\<And>e'. find_entry p (le_target ?l) = Some e' \<Longrightarrow> pe_client e' = cl"
        "pr_pid p' = pr_pid p" "rg_pid (pr_registry p') = pr_pid p" "pr_leases p' = pr_leases p"
      let ?l' = "?l\<lparr>le_pid := pr_pid p, le_client := cl\<rparr>"
      have q: "q = p'\<lparr>pr_leases := (pr_leases p)[i := ?l']\<rparr>"
        using assms(3) a g(1,9) False by (auto simp: current_client_def update_lease_def Let_def)
      have idle: "\<not> le_releasing ?l"
        using pool_invD(3) [OF assms(1) mem] False by (auto simp: shared_def)
      have "length (filter (holds (pr_pid p) t') ((pr_leases p)[i := ?l']))
          = holders p t' + (if t' = le_target ?l then 1 else 0)" for t'
        using filter_update [OF assms(2), of "holds (pr_pid p) t'" ?l'] False
        by (auto simp: holders_def holds_def)
      moreover have "set ((pr_leases p)[i := ?l']) \<subseteq> insert ?l' (set (pr_leases p))"
        by (rule set_update_subset_insert)
      ultimately show ?thesis
        unfolding q using False idle by (intro pool_inv_got [where l = ?l', OF assms(1) g(2-8)]) auto
    qed
  qed
qed

text \<open>A step that changes one lease without acquiring: only the count of its target can move.\<close>

lemma find_update_lease [simp]:
  "find_entry (update_lease i f p) t = find_entry p t"
  "pr_pid (update_lease i f p) = pr_pid p" "pr_registry (update_lease i f p) = pr_registry p"
  by (simp_all add: find_entry_def update_lease_def)

lemma list_all_update: "list_all P xs \<Longrightarrow> P y \<Longrightarrow> list_all P (xs[i := y])"
  by (auto simp: list_all_iff dest!: set_update_subset_insert [THEN subsetD])

lemma pool_inv_close_mark [inv_intros]:
  assumes "pool_inv p" "i < length (pr_leases p)"
  shows "pool_inv (close_mark i p)"
proof (cases "le_closed (pr_leases p ! i)")
  case True
  then show ?thesis using assms(1) by (simp add: close_mark_def)
next
  case False
  let ?l = "pr_leases p ! i"
  let ?l' = "?l\<lparr>le_closed := True, le_releasing := True\<rparr>"
  let ?q = "update_lease i (\<lambda>l. l\<lparr>le_closed := True, le_releasing := True\<rparr>) p"
  have "holders ?q t = holders p t" for t
    using filter_update [OF assms(2), of "holds (pr_pid p) t" ?l'] False
    by (auto simp: holders_def holds_def update_lease_def split: if_splits)
  moreover have "references ?q t = references p t" for t by (simp add: references_def)
  moreover have "list_all (shared ?q) (pr_leases ?q)"
  proof -
    have eq: "shared ?q = shared p" by (simp add: shared_def fun_eq_iff)
    have "shared p ?l'" using pool_invD(3) [OF assms(1), of ?l] assms(2) by (simp add: shared_def)
    then show ?thesis
      using assms(1) unfolding eq pool_inv_def by (simp add: update_lease_def list_all_update)
  qed
  ultimately show ?thesis using assms(1) False by (simp add: close_mark_def pool_inv_def)
qed

lemma pool_inv_close_release [inv_intros]:
  assumes "pool_inv p" "i < length (pr_leases p)" "le_releasing (pr_leases p ! i)"
  shows "pool_inv (close_release i p)"
proof -
  let ?l = "pr_leases p ! i"
  let ?l' = "?l\<lparr>le_releasing := False\<rparr>"
  let ?q = "update_lease i (\<lambda>l. l\<lparr>le_releasing := False\<rparr>) p"
  have closed: "le_closed ?l" using pool_invD(3) [OF assms(1), of ?l] assms(2,3) by (simp add: shared_def)
  have count: "holders ?q t + (if holds (pr_pid p) t ?l then 1 else 0) = holders p t" for t
    using filter_update [OF assms(2), of "holds (pr_pid p) t" ?l'] closed
    by (auto simp: holders_def holds_def update_lease_def split: if_splits)
  have ref: "references ?q t = references p t" for t by (simp add: references_def)
  have eq: "shared ?q = shared p" by (simp add: shared_def fun_eq_iff)
  have "shared p ?l'" using pool_invD(3) [OF assms(1), of ?l] assms(2) by (simp add: shared_def)
  then have sh: "list_all (shared p) (pr_leases ?q)"
    using assms(1) unfolding update_lease_def pool_inv_def by (simp add: list_all_update)
  have reset: "reset_after_fork ?q = ?q" using pool_invD(1) [OF assms(1)] by (simp add: reset_after_fork_def)
  show ?thesis
  proof (cases "le_pid ?l = pr_pid p")
    case False
    then have "close_release i p = ?q"
      using pool_invD(1) [OF assms(1)] by (simp add: close_release_def release_def Let_def reset)
    moreover have "holders ?q t = holders p t" for t using count [of t] False by (simp add: holds_def)
    ultimately show ?thesis using assms(1) ref sh eq by (simp add: pool_inv_def)
  next
    case True
    let ?t = "le_target ?l"
    have hold: "holds (pr_pid p) ?t ?l" using True assms(3) by (simp add: holds_def)
    then have pos: "0 < references p ?t" using count [of ?t] pool_invD(2) [OF assms(1), of ?t] by simp
    then obtain e where e: "find_entry p ?t = Some e" "0 < pe_references e"
      by (auto simp: references_def split: option.splits)
    have q: "close_release i p = set_entry ?t (e\<lparr>pe_references := pe_references e - 1\<rparr>) ?q"
      using pool_invD(1) [OF assms(1)] e True by (simp add: close_release_def release_def Let_def reset)
    have "references (close_release i p) t = holders (close_release i p) t" for t
    proof -
      have h: "holders (close_release i p) t = holders ?q t" unfolding q by (simp add: holders_def)
      have r: "references (close_release i p) t
          = (if t = ?t then references p ?t - 1 else references p t)"
        unfolding q using e by (simp add: references_def)
      show ?thesis
        using count [of t] hold pool_invD(2) [OF assms(1)] unfolding h r
        by (cases "t = ?t") (auto simp: holds_def)
    qed
    moreover have "shared (close_release i p) = shared p"
      unfolding q using e by (auto simp: shared_def fun_eq_iff)
    moreover have "pr_leases (close_release i p) = pr_leases ?q" unfolding q by simp
    ultimately show ?thesis
      using sh pool_invD(1) [OF assms(1)] by (simp add: pool_inv_def q)
  qed
qed

lemma pool_inv_fork [inv_intros]:
  assumes "pool_inv p" "pid \<notin> le_pid ` set (pr_leases p)"
  shows "pool_inv (fork_child pid p)"
  using assms
  by (auto simp: pool_inv_def fork_child_def references_def holders_def find_entry_def holds_def
      shared_def list_all_iff filter_empty_conv image_iff)

lemma pool_inv_run: "pool_run py_float environ p q \<Longrightarrow> pool_inv p \<Longrightarrow> pool_inv q"
  by (induction rule: pool_run.induct) (auto intro: inv_intros simp: pool_snapshot_def reset_id)

lemma pool_inv_fresh: "pool_inv (fresh_process pid)"
  by (simp add: pool_inv_def fresh_process_def references_def holders_def find_entry_def)

text \<open>
  C28: Over every interleaving of acquiring, requesting, closing and forking, the reference count
  of each target is exactly the number of leases of this process that are not yet released, so no
  close is counted twice and none is lost; and every lease acquired in this process, open or
  closed, refers to the one client its target has here, never to one inherited from the parent.
\<close>

theorem pool_references_exact:
  assumes "pool_run py_float environ (fresh_process pid) p"
  shows "references p t = length (filter (holds (pr_pid p) t) (pr_leases p))
    \<and> list_all (\<lambda>l. le_pid l \<noteq> pr_pid p
        \<or> map_option pe_client (find_entry p (le_target l)) = Some (le_client l)) (pr_leases p)"
proof -
  have inv: "pool_inv p" using pool_inv_run [OF assms pool_inv_fresh] .
  have "shared p l" if "l \<in> set (pr_leases p)" for l using pool_invD(3) [OF inv that] .
  then show ?thesis
    using pool_invD(2) [OF inv, of t] by (auto simp: holders_def shared_def list_all_iff)
qed

definition sample_target :: target where "sample_target = (''https'', ''h'', True)"

theorem pool_references_exact_witness:
  "references (close_mark 0 (snd (acquire (\<lambda>_. None) Map.empty sample_target ''t'' (fresh_process 7)))) sample_target = 1"
proof -
  let ?p = "snd (acquire (\<lambda>_. None) Map.empty sample_target ''t'' (fresh_process 7))"
  have p: "acquire (\<lambda>_. None) Map.empty sample_target ''t'' (fresh_process 7) = (Inr 0, ?p)"
    and l: "pr_leases ?p = [\<lparr>le_target = sample_target, le_pid = 7, le_client = 0, le_token = ''t'',
      le_closed = False, le_releasing = False\<rparr>]" and "pr_pid ?p = 7"
    by code_simp+
  have "pool_run (\<lambda>_. None) Map.empty (fresh_process 7) (close_mark 0 ?p)"
    by (rule pool_run.CloseMark [OF pool_run.Acquire [OF pool_run.Start p]]) (simp add: l)
  from pool_references_exact [OF this, of sample_target] \<open>pr_pid ?p = 7\<close>
  show ?thesis by (simp add: close_mark_def update_lease_def l holds_def)
qed

end
