(* ===== verification/Rpc.thy ===== *)
theory Rpc
  imports TransportDirect
begin

text \<open>
  What the resource classes (\<open>Commands\<close>, \<open>Filesystem\<close>, \<open>Shell\<close>, \<open>Sandbox\<close>) use of a
  \<open>SandboxClient\<close> and of the standard library, as one record of actions on any state, and that
  record for the client of \<open>_transport.py\<close> on a session.
\<close>

text \<open>\<open>h_random\<close> is \<open>random.random()\<close>; \<open>h_repr\<close> is \<open>str\<close> of a float, list or dictionary.\<close>

record 's host =
  h_invoke :: "string \<Rightarrow> string \<Rightarrow> jobj \<Rightarrow> int option \<Rightarrow> ('s, jobj) action"
  h_now :: "('s, rat) action"
  h_sleep :: "rat \<Rightarrow> ('s, unit) action"
  h_random :: "('s, rat) action"
  h_repr :: "json \<Rightarrow> string"

definition client_host :: "'w ops \<Rightarrow> rat \<Rightarrow> 'w session host" where
  "client_host ops rnd =
     \<lparr>h_invoke = invoke ops, h_now = now ops, h_sleep = sleep ops, h_random = act_return rnd,
      h_repr = (\<lambda>_. [])\<rparr>"

text \<open>\<open>str(v)\<close>.\<close>

definition py_str :: "'s host \<Rightarrow> json \<Rightarrow> string" where
  "py_str h v =
     (case v of
        JStr s \<Rightarrow> s | JInt n \<Rightarrow> str_int n | JBool b \<Rightarrow> if b then ''True'' else ''False''
      | JNull \<Rightarrow> ''None'' | _ \<Rightarrow> h_repr h v)"

text \<open>\<open>d[k]\<close> and \<open>int(v)\<close>.\<close>

definition jindex :: "jobj \<Rightarrow> string \<Rightarrow> client_exc + json" where
  "jindex d k = (case map_of d k of None \<Rightarrow> Inl (PyError (KeyError k)) | Some v \<Rightarrow> Inr v)"

definition jint :: "json \<Rightarrow> client_exc + int" where
  "jint v = map_sum PyError id (int_of_json v)"

text \<open>A result whose \<open>error\<close> entry is set becomes an exception.\<close>

definition check_error :: "string \<Rightarrow> jobj \<Rightarrow> client_exc + jobj" where
  "check_error msg result =
     (if truthy (jget result ''error'') then Inl (PyError (RuntimeError msg)) else Inr result)"

text \<open>
  A host whose clock does not go back, whose calls take at least \<open>\<delta>\<close> and whose sleeps take what
  they say. \<open>clk\<close> is the time of a state.
\<close>

locale ticking =
  fixes h :: "'s host" and clk :: "'s \<Rightarrow> rat" and \<delta> :: rat
  assumes delta_pos: "0 < \<delta>"
    and invoke_ticks: "h_invoke h i a args t s = (r, s') \<Longrightarrow> clk s + \<delta> \<le> clk s'"
    and now_reads: "\<exists>s'. h_now h s = (Inr (clk s), s') \<and> clk s \<le> clk s'"
    and random_quiet: "h_random h s = (q, s') \<Longrightarrow> clk s \<le> clk s'"
    and sleep_ticks: "h_sleep h d s = (u, s') \<Longrightarrow> clk s \<le> clk s'"
begin

lemma now_at: "h_now h s = (q, s') \<Longrightarrow> q = Inr (clk s) \<and> clk s \<le> clk s'"
  using now_reads [of s] by auto

text \<open>One unit of fuel for each \<open>\<delta>\<close> of the time left, and one more.\<close>

lemma fuel_covers:
  assumes "nat \<lceil>d / \<delta>\<rceil> + 1 \<le> fuel"
  shows "0 < fuel \<and> d \<le> of_nat (fuel - 1) * \<delta>"
proof -
  have "d / \<delta> \<le> of_int \<lceil>d / \<delta>\<rceil>" by simp
  also have "\<dots> \<le> of_nat (nat \<lceil>d / \<delta>\<rceil>)" by simp
  also have "\<dots> \<le> of_nat (fuel - 1)" using assms by simp
  finally show ?thesis using delta_pos assms by (simp add: field_simps)
qed

lemma fuel_spent:
  assumes "clk s < deadline" "clk s + \<delta> \<le> clk s1" "deadline - clk s \<le> of_nat (Suc fuel - 1) * \<delta>"
  shows "0 < fuel \<and> deadline - clk s1 \<le> of_nat (fuel - 1) * \<delta>"
proof -
  have "0 < fuel" using assms(1,3) by (cases fuel) auto
  then have "of_nat fuel * \<delta> = of_nat (fuel - 1) * \<delta> + \<delta>" by (cases fuel) (auto simp: algebra_simps)
  with assms(2,3) \<open>0 < fuel\<close> show ?thesis by simp
qed

end

text \<open>
  A recorded host: the outcomes of the calls in order, each taking a second; the calls made are
  kept. A call beyond the record cannot connect.
\<close>

record recorded =
  hs_answers :: "(client_exc + jobj) list"
  hs_time :: rat
  hs_calls :: "(string \<times> jobj) list"

definition recorded_invoke :: "string \<Rightarrow> string \<Rightarrow> jobj \<Rightarrow> int option \<Rightarrow> (recorded, jobj) action" where
  "recorded_invoke i action args t s =
     (case hs_answers s of [] \<Rightarrow> Inl (HttpxError ConnectError) | a # _ \<Rightarrow> a,
      s\<lparr>hs_answers := tl (hs_answers s), hs_time := hs_time s + 1, hs_calls := hs_calls s @ [(action, args)]\<rparr>)"

definition recorded_host :: "recorded host" where
  "recorded_host =
     \<lparr>h_invoke = recorded_invoke, h_now = (\<lambda>s. (Inr (hs_time s), s)),
      h_sleep = (\<lambda>d s. (Inr (), s\<lparr>hs_time := hs_time s + \<bar>d\<bar>\<rparr>)), h_random = act_return (1 / 2),
      h_repr = (\<lambda>_. [])\<rparr>"

interpretation recorded: ticking recorded_host hs_time 1
  by unfold_locales (auto simp: recorded_host_def recorded_invoke_def act_return_def)

end
