(* ===== verification/Commands.thy ===== *)
theory Commands
  imports Rpc
begin

text \<open>
  \<open>commands.py\<close>: running commands in the sandbox, waiting for them by polling, and background
  processes. Values that a result carries are passed on as they are, whatever their type.
\<close>

definition POLL_THRESHOLD :: int where "POLL_THRESHOLD = 30"
definition POLL_INTERVAL :: rat where "POLL_INTERVAL = 10"
definition POLL_RETRY_DELAY :: rat where "POLL_RETRY_DELAY = 1"
definition POLL_MAX_CONSECUTIVE_ERRORS :: nat where "POLL_MAX_CONSECUTIVE_ERRORS = 3"
definition POLL_NON_RETRYABLE_HTTP_STATUS :: "int list" where
  "POLL_NON_RETRYABLE_HTTP_STATUS = [400, 401, 403, 405, 410, 422]"

record CommandResult =
  cr_stdout :: json
  cr_stderr :: json
  cr_exit_code :: json

section \<open>Polling\<close>

definition poll_fatal :: "client_exc \<Rightarrow> bool" where
  "poll_fatal e =
     (case e of
        SandboxHTTPError _ status body \<Rightarrow> terminal body \<or> status \<in> set POLL_NON_RETRYABLE_HTTP_STATUS
      | _ \<Rightarrow> False)"

text \<open>\<open>except (SandboxError, httpx.RequestError)\<close>.\<close>

definition poll_caught :: "client_exc \<Rightarrow> bool" where
  "poll_caught e \<longleftrightarrow> is_sandbox_error e \<or> (case e of HttpxError _ \<Rightarrow> True | _ \<Rightarrow> False)"

text \<open>The message names the process and quotes the last error as well.\<close>

definition poll_failed :: "string \<Rightarrow> nat \<Rightarrow> client_exc" where
  "poll_failed sid errors =
     SandboxError (''process.poll failed (sandbox='' @ sid @ '') after '' @ str_nat errors
       @ '' consecutive errors'')"

definition result_of :: "jobj \<Rightarrow> client_exc + CommandResult" where
  "result_of d =
     bind_result (jindex d ''stdout'') (\<lambda>out.
     bind_result (jindex d ''stderr'') (\<lambda>err.
     bind_result (jindex d ''exit_code'') (\<lambda>code.
       Inr \<lparr>cr_stdout = out, cr_stderr = err, cr_exit_code = code\<rparr>)))"

definition failed_result :: "json \<Rightarrow> CommandResult" where
  "failed_result err = \<lparr>cr_stdout = JStr [], cr_stderr = err, cr_exit_code = JInt (-1)\<rparr>"

text \<open>What a successful poll comes to: a result, or None to poll again.\<close>

definition poll_verdict :: "jobj \<Rightarrow> client_exc + CommandResult option" where
  "poll_verdict poll =
     bind_result (jindex poll ''status'') (\<lambda>status.
       if status = JStr ''done'' then map_sum id Some (result_of poll)
       else if status = JStr ''error''
       then Inr (Some (failed_result (jget_or poll ''error'' (JStr ''Unknown error''))))
       else Inr None)"

text \<open>After the deadline: the process is killed, whatever that raises.\<close>

definition poll_timed_out :: "'s host \<Rightarrow> string \<Rightarrow> json \<Rightarrow> int \<Rightarrow> ('s, CommandResult) action" where
  "poll_timed_out h sid pid timeout =
     act_bind (act_try (h_invoke h sid ''process.kill'' [(''pid'', pid)] None)) (\<lambda>_.
       act_return (failed_result (JStr (''Command timed out after '' @ str_int timeout @ '' seconds''))))"

text \<open>One round of the loop ends it or goes round again with a count of consecutive errors.\<close>

datatype poll_next = Stop CommandResult | Again nat

definition poll_failure ::
  "'s host \<Rightarrow> string \<Rightarrow> json \<Rightarrow> int \<Rightarrow> rat \<Rightarrow> nat \<Rightarrow> client_exc \<Rightarrow> ('s, poll_next) action" where
  "poll_failure h sid pid timeout deadline errors e =
     (if \<not> poll_caught e \<or> poll_fatal e then act_raise e
      else
        act_bind (h_now h) (\<lambda>t.
        let retry_delay = min POLL_RETRY_DELAY (deadline - t) in
        if retry_delay \<le> 0 then act_bind (poll_timed_out h sid pid timeout) (act_return \<circ> Stop)
        else if Suc errors \<ge> POLL_MAX_CONSECUTIVE_ERRORS then act_raise (poll_failed sid (Suc errors))
        else act_bind (h_sleep h retry_delay) (\<lambda>_. act_return (Again (Suc errors)))))"

definition poll_round ::
  "'s host \<Rightarrow> string \<Rightarrow> json \<Rightarrow> int \<Rightarrow> rat \<Rightarrow> nat \<Rightarrow> ('s, poll_next) action" where
  "poll_round h sid pid timeout deadline errors =
     act_bind (h_now h) (\<lambda>t.
     if deadline - t \<le> 0 then act_bind (poll_timed_out h sid pid timeout) (act_return \<circ> Stop)
     else
     act_bind (h_random h) (\<lambda>rnd.
     let poll_wait = min (POLL_INTERVAL * (7 / 10 + rnd * (6 / 10))) (deadline - t) in
     act_bind (act_try (h_invoke h sid ''process.poll''
         [(''pid'', pid), (''wait_timeout'', JFloat poll_wait)] (Some \<lfloor>poll_wait\<rfloor>))) (\<lambda>r.
       case r of
         Inl e \<Rightarrow> poll_failure h sid pid timeout deadline errors e
       | Inr poll \<Rightarrow>
           act_lift (map_sum id (\<lambda>v. case v of Some result \<Rightarrow> Stop result | None \<Rightarrow> Again 0) (poll_verdict poll)))))"

text \<open>One round per unit of fuel; None is running out of it.\<close>

fun poll_loop ::
  "nat \<Rightarrow> 's host \<Rightarrow> string \<Rightarrow> json \<Rightarrow> int \<Rightarrow> rat \<Rightarrow> nat \<Rightarrow> ('s, CommandResult option) action" where
  "poll_loop 0 h sid pid timeout deadline errors = act_return None"
| "poll_loop (Suc fuel) h sid pid timeout deadline errors =
     act_bind (poll_round h sid pid timeout deadline errors) (\<lambda>next_step.
       case next_step of
         Stop result \<Rightarrow> act_return (Some result)
       | Again errors' \<Rightarrow> poll_loop fuel h sid pid timeout deadline errors')"

definition poll_pid_until_done ::
  "nat \<Rightarrow> 's host \<Rightarrow> string \<Rightarrow> json \<Rightarrow> int \<Rightarrow> ('s, CommandResult option) action" where
  "poll_pid_until_done fuel h sid pid timeout =
     act_bind (h_now h) (\<lambda>t. poll_loop fuel h sid pid timeout (t + of_int timeout) 0)"

section \<open>Handles\<close>

definition handle_wait ::
  "nat \<Rightarrow> 's host \<Rightarrow> string \<Rightarrow> json \<Rightarrow> int option \<Rightarrow> ('s, CommandResult option) action" where
  "handle_wait fuel h sid pid timeout =
     (case timeout of
        None \<Rightarrow>
          act_bind (h_invoke h sid ''process.wait'' [(''pid'', pid), (''timeout'', JNull)] (Some (-1)))
            (\<lambda>result. act_lift (map_sum id Some (result_of result)))
      | Some t \<Rightarrow> poll_pid_until_done fuel h sid pid t)"

definition process_kill :: "'s host \<Rightarrow> string \<Rightarrow> json \<Rightarrow> ('s, json) action" where
  "process_kill h sid pid =
     act_bind (h_invoke h sid ''process.kill'' [(''pid'', pid)] None)
       (\<lambda>result. act_lift (jindex result ''killed''))"

definition send_stdin :: "'s host \<Rightarrow> string \<Rightarrow> json \<Rightarrow> string \<Rightarrow> bool \<Rightarrow> ('s, unit) action" where
  "send_stdin h sid pid dat eof =
     act_bind (h_invoke h sid ''process.send_stdin''
         [(''pid'', pid), (''data'', JStr dat), (''eof'', JBool eof)] None)
       (\<lambda>result. act_lift (map_sum id (\<lambda>_. ()) (check_error ''Failed to send stdin'' result)))"

definition close_stdin :: "'s host \<Rightarrow> string \<Rightarrow> json \<Rightarrow> ('s, unit) action" where
  "close_stdin h sid pid = send_stdin h sid pid [] True"

text \<open>The same through a handle, which remembers the process and the sandbox.\<close>

record CommandHandle =
  hd_pid :: json
  hd_sid :: string

definition handle_kill :: "'s host \<Rightarrow> CommandHandle \<Rightarrow> ('s, json) action" where
  "handle_kill h ch = process_kill h (hd_sid ch) (hd_pid ch)"

definition handle_send_stdin :: "'s host \<Rightarrow> CommandHandle \<Rightarrow> string \<Rightarrow> bool \<Rightarrow> ('s, unit) action" where
  "handle_send_stdin h ch dat eof = send_stdin h (hd_sid ch) (hd_pid ch) dat eof"

definition handle_close_stdin :: "'s host \<Rightarrow> CommandHandle \<Rightarrow> ('s, unit) action" where
  "handle_close_stdin h ch = handle_send_stdin h ch [] True"

section \<open>Running commands\<close>

text \<open>What \<open>run\<close> returns: a result, the pid of a handle, or nothing when the fuel ran out.\<close>

datatype run_value = Finished CommandResult | Handle json | OutOfFuel

definition default_cwd :: "string option \<Rightarrow> string option \<Rightarrow> json" where
  "default_cwd cwd dflt =
     (case cwd of Some d \<Rightarrow> JStr d | None \<Rightarrow> (case dflt of Some d \<Rightarrow> JStr d | None \<Rightarrow> JNull))"

definition envs_json :: "(string \<times> string) list option \<Rightarrow> json" where
  "envs_json envs = (case envs of None \<Rightarrow> JNull | Some kv \<Rightarrow> JObj (map (map_prod id JStr) kv))"

definition start_process :: "'s host \<Rightarrow> string \<Rightarrow> jobj \<Rightarrow> ('s, json) action" where
  "start_process h sid args =
     act_bind (h_invoke h sid ''process.start'' args None) (\<lambda>result.
     act_bind (act_lift (check_error ''Failed to start command'' result)) (\<lambda>result.
       act_lift (jindex result ''pid'')))"

definition run_with_poll ::
  "nat \<Rightarrow> 's host \<Rightarrow> string \<Rightarrow> string \<Rightarrow> json \<Rightarrow> json \<Rightarrow> int \<Rightarrow> ('s, CommandResult option) action" where
  "run_with_poll fuel h sid cmd envs cwd timeout =
     act_bind (start_process h sid [(''cmd'', JStr cmd), (''envs'', envs), (''cwd'', cwd)])
       (\<lambda>pid. poll_pid_until_done fuel h sid pid timeout)"

definition commands_run ::
  "nat \<Rightarrow> 's host \<Rightarrow> string \<Rightarrow> string option \<Rightarrow> string \<Rightarrow> bool \<Rightarrow> (string \<times> string) list option
     \<Rightarrow> string option \<Rightarrow> int \<Rightarrow> bool \<Rightarrow> ('s, run_value) action" where
  "commands_run fuel h sid dflt cmd background envs cwd timeout stdin =
     (let effective_cwd = default_cwd cwd dflt; envs = envs_json envs in
      if stdin \<and> \<not> background
      then act_raise (PyError (ValueError ''stdin is only supported when background=True''))
      else if background
      then
        act_bind (start_process h sid
            [(''cmd'', JStr cmd), (''envs'', envs), (''cwd'', effective_cwd), (''want_stdin'', JBool stdin)])
          (\<lambda>pid. act_return (Handle pid))
      else if timeout > POLL_THRESHOLD
      then
        act_bind (run_with_poll fuel h sid cmd envs effective_cwd timeout)
          (\<lambda>r. act_return (case r of None \<Rightarrow> OutOfFuel | Some result \<Rightarrow> Finished result))
      else
        act_bind (h_invoke h sid ''process.exec''
            [(''cmd'', JStr cmd), (''envs'', envs), (''cwd'', effective_cwd), (''timeout'', JInt timeout)]
            (Some timeout))
          (\<lambda>result. act_lift (map_sum id Finished (result_of result))))"

section \<open>Listing\<close>

record CommandInfo =
  ci_pid :: int
  ci_command :: string
  ci_running :: bool

definition command_info :: "'s host \<Rightarrow> jobj \<Rightarrow> client_exc + CommandInfo" where
  "command_info h item =
     bind_result (jint (jget_or item ''pid'' (JInt 0))) (\<lambda>pid.
       Inr \<lparr>ci_pid = pid, ci_command = py_str h (jget_or item ''cmd'' (JStr [])),
            ci_running = (case jget item ''running'' of
               JBool b \<Rightarrow> b | _ \<Rightarrow> jget item ''status'' = JStr ''running'')\<rparr>)"

definition only_dicts :: "json list \<Rightarrow> jobj list" where
  "only_dicts xs = concat (map (\<lambda>v. case v of JObj ob \<Rightarrow> [ob] | _ \<Rightarrow> []) xs)"

definition commands_list :: "'s host \<Rightarrow> string \<Rightarrow> ('s, CommandInfo list) action" where
  "commands_list h sid =
     act_bind (h_invoke h sid ''process.list'' [] None) (\<lambda>result.
       case jget result ''processes'' of
         JList items \<Rightarrow> act_lift (map_result (command_info h) (only_dicts items))
       | _ \<Rightarrow> act_return [])"

section \<open>Polling ends\<close>

context ticking begin

lemma timed_out_stops: "act_bind (poll_timed_out h sid pid timeout) (act_return \<circ> Stop) s = (r, s') \<Longrightarrow> \<exists>c. r = Inr (Stop c)"
  by (auto simp: poll_timed_out_def act_return_def elim!: act_bind_cases act_try_cases)

lemma poll_failure_again:
  "poll_failure h sid pid timeout deadline errors e s = (Inr (Again n), s') \<Longrightarrow> clk s \<le> clk s'"
  by (auto simp: poll_failure_def act_raise_def act_return_def Let_def split: if_splits
      elim!: act_bind_cases dest!: now_at sleep_ticks dest: timed_out_stops)

text \<open>A round that does not end the loop brings the deadline nearer by \<open>\<delta>\<close>.\<close>

lemma poll_round_again:
  "poll_round h sid pid timeout deadline errors s = (Inr (Again n), s') \<Longrightarrow>
   clk s < deadline \<and> clk s + \<delta> \<le> clk s'"
  unfolding poll_round_def Let_def
  apply (elim act_bind_cases act_try_cases; (drule now_at)?; clarsimp split: if_splits)
  apply (auto dest: timed_out_stops)
  apply (elim act_bind_cases act_try_cases)
  apply (auto simp: act_lift_def split: sum.splits dest!: random_quiet invoke_ticks dest: poll_failure_again)
  done

text \<open>Fuel for one round per \<open>\<delta>\<close> left, and one more, is enough.\<close>

lemma poll_loop_ends:
  assumes "poll_loop fuel h sid pid timeout deadline errors s = (r, s')"
    "0 < fuel" "deadline - clk s \<le> of_nat (fuel - 1) * \<delta>"
  shows "r \<noteq> Inr None"
  using assms
proof (induction fuel arbitrary: errors s)
  case (Suc fuel)
  have "act_bind (poll_round h sid pid timeout deadline errors) (\<lambda>next_step.
       case next_step of
         Stop result \<Rightarrow> act_return (Some result)
       | Again errors' \<Rightarrow> poll_loop fuel h sid pid timeout deadline errors') s = (r, s')"
    using Suc.prems(1) by simp
  then show ?case
  proof (cases rule: act_bind_cases)
    case (Step next_step s1)
    show ?thesis
    proof (cases next_step)
      case (Again n)
      from Step(1) Again have t: "clk s < deadline" "clk s + \<delta> \<le> clk s1"
        by (blast dest: poll_round_again)+
      from fuel_spent [OF t Suc.prems(3)] show ?thesis using Suc.IH Step(2) Again by auto
    qed (use Step in \<open>auto simp: act_return_def\<close>)
  qed simp
qed simp

end

lemma poll_pid_until_done_ends:
  assumes "ticking h clk \<delta>" "nat \<lceil>of_int timeout / \<delta>\<rceil> + 1 \<le> fuel"
    "poll_pid_until_done fuel h sid pid timeout s = (r, s')"
  shows "r \<noteq> Inr None"
proof -
  from assms(3) obtain s1 where
    l: "poll_loop fuel h sid pid timeout (clk s + of_int timeout) 0 s1 = (r, s')" "clk s \<le> clk s1"
    unfolding poll_pid_until_done_def using ticking.now_at [OF assms(1)]
    by (auto elim!: act_bind_cases)
  note enough = ticking.fuel_covers [OF assms(1,2)]
  then have "0 < fuel" by (rule conjunct1)
  moreover from conjunct2 [OF enough] l(2) have "clk s + of_int timeout - clk s1 \<le> of_nat (fuel - 1) * \<delta>"
    by linarith
  ultimately show ?thesis using ticking.poll_loop_ends [OF assms(1) l(1)] by simp
qed

text \<open>
  C29: Running a command always comes to an end. On a client whose every call takes at least
  \<open>\<delta>\<close> seconds, whatever the calls answer, \<open>run\<close> with a time limit of \<open>timeout\<close> seconds polls at most
  \<open>\<lceil>timeout / \<delta>\<rceil> + 1\<close> times and then returns a result, a handle or an exception.
\<close>

theorem run_returns:
  assumes "ticking h clk \<delta>" "nat \<lceil>of_int timeout / \<delta>\<rceil> + 1 \<le> fuel"
    "commands_run fuel h sid dflt cmd background envs cwd timeout stdin s = (r, s')"
  shows "r \<noteq> Inr OutOfFuel"
proof -
  have "poll_pid_until_done fuel h sid pid timeout s \<noteq> (Inr None, s')" for sid pid s s'
    using poll_pid_until_done_ends [OF assms(1,2)] by blast
  with assms(3) show ?thesis
    by (auto simp: commands_run_def run_with_poll_def act_return_def act_raise_def act_lift_def Let_def map_sum_def
        split: if_splits option.splits sum.splits elim!: act_bind_cases)
qed

definition transient :: client_exc where
  "transient = HttpxError ReadTimeout"

theorem run_returns_witness:
  "fst (commands_run 61 recorded_host ''sb'' None ''make'' False None None 60 False
     \<lparr>hs_answers = [Inr [(''pid'', JInt 7)], Inl transient], hs_time = 0, hs_calls = []\<rparr>) \<noteq> Inr OutOfFuel"
  by (rule run_returns [OF recorded.ticking_axioms _ prod.collapse [symmetric]]) simp

section \<open>Polling through failures\<close>

text \<open>Polls that keep the loop going: still running, or a failure after fewer than two in a row.\<close>

fun recoverable :: "nat \<Rightarrow> (client_exc + jobj) list \<Rightarrow> bool" where
  "recoverable n [] = True"
| "recoverable n (Inr d # rest) \<longleftrightarrow> poll_verdict d = Inr None \<and> recoverable 0 rest"
| "recoverable n (Inl e # rest) \<longleftrightarrow>
     poll_caught e \<and> \<not> poll_fatal e \<and> Suc n < POLL_MAX_CONSECUTIVE_ERRORS \<and> recoverable (Suc n) rest"

definition calls_to :: "recorded \<Rightarrow> string list" where
  "calls_to s = map fst (hs_calls s)"

lemma recorded_simps:
  "h_now recorded_host s = (Inr (hs_time s), s)"
  "h_random recorded_host s = (Inr (1 / 2), s)"
  "h_sleep recorded_host d s = (Inr (), s\<lparr>hs_time := hs_time s + \<bar>d\<bar>\<rparr>)"
  "h_invoke recorded_host = recorded_invoke"
  by (simp_all add: recorded_host_def act_return_def)

lemma poll_loop_recovers:
  assumes "recoverable n pre" "poll_verdict d = Inr (Some result)"
    "hs_answers s = pre @ Inr d # rest" "of_nat (2 * length pre) < deadline - hs_time s"
  shows "\<exists>s'. poll_loop (Suc (length pre)) recorded_host sid pid timeout deadline n s = (Inr (Some result), s')
    \<and> calls_to s' = calls_to s @ replicate (Suc (length pre)) ''process.poll''"
  using assms
proof (induction n pre arbitrary: s rule: recoverable.induct)
  case (1 n)
  then show ?case
    by (auto simp: poll_round_def recorded_simps recorded_invoke_def act_bind_def act_try_def Let_def act_lift_def
        act_return_def calls_to_def)
next
  case (2 n d' pre)
  let ?w = "min (POLL_INTERVAL * (7 / 10 + 1 / 2 * (6 / 10))) (deadline - hs_time s)"
  let ?s = "snd (recorded_invoke sid ''process.poll'' [(''pid'', pid), (''wait_timeout'', JFloat ?w)] (Some \<lfloor>?w\<rfloor>) s)"
  have "\<exists>s'. poll_loop (Suc (length pre)) recorded_host sid pid timeout deadline 0 ?s = (Inr (Some result), s')
    \<and> calls_to s' = calls_to ?s @ replicate (Suc (length pre)) ''process.poll''"
    by (rule "2.IH") (use "2.prems" in \<open>auto simp: recorded_invoke_def\<close>)
  moreover have "poll_round recorded_host sid pid timeout deadline n s = (Inr (Again 0), ?s)"
    using "2.prems" by (auto simp: poll_round_def recorded_simps recorded_invoke_def act_bind_def act_try_def Let_def act_lift_def)
  moreover have "calls_to ?s = calls_to s @ [''process.poll'']" by (simp add: recorded_invoke_def calls_to_def)
  ultimately show ?case by auto
next
  case (3 n e pre)
  let ?w = "min (POLL_INTERVAL * (7 / 10 + 1 / 2 * (6 / 10))) (deadline - hs_time s)"
  let ?s = "snd (recorded_invoke sid ''process.poll'' [(''pid'', pid), (''wait_timeout'', JFloat ?w)] (Some \<lfloor>?w\<rfloor>) s)"
  let ?d = "min POLL_RETRY_DELAY (deadline - hs_time ?s)"
  let ?t = "?s\<lparr>hs_time := hs_time ?s + \<bar>?d\<bar>\<rparr>"
  have d: "0 < ?d" "?d \<le> 1" using "3.prems"(4) by (auto simp: recorded_invoke_def POLL_RETRY_DELAY_def)
  then have "\<exists>s'. poll_loop (Suc (length pre)) recorded_host sid pid timeout deadline (Suc n) ?t = (Inr (Some result), s')
    \<and> calls_to s' = calls_to ?t @ replicate (Suc (length pre)) ''process.poll''"
    by (intro "3.IH") (use "3.prems" in \<open>auto simp: recorded_invoke_def\<close>)
  moreover have "poll_round recorded_host sid pid timeout deadline n s = (Inr (Again (Suc n)), ?t)"
    using "3.prems" d
    by (auto simp: poll_round_def poll_failure_def recorded_simps recorded_invoke_def act_bind_def act_try_def Let_def act_return_def)
  moreover have "calls_to ?t = calls_to s @ [''process.poll'']" by (simp add: recorded_invoke_def calls_to_def)
  ultimately show ?case by auto
qed

text \<open>
  C30: A long-running command's result survives failing polls. When the process starts, and the
  polls up to the final one say \<open>running\<close> or fail for a transient reason fewer than three times
  in a row, and they fit into the time limit, \<open>run\<close> returns exactly the result of the final poll,
  after one start and one call per poll.
\<close>

theorem run_through_failures:
  assumes "POLL_THRESHOLD < timeout" "\<not> truthy (jget st ''error'')" "map_of st ''pid'' = Some pid"
    "recoverable 0 pre" "poll_verdict d = Inr (Some result)"
    "of_nat (2 * length pre) < (of_int timeout :: rat)"
    "hs_answers s = Inr st # pre @ Inr d # rest"
  shows "\<exists>s'. commands_run (Suc (length pre)) recorded_host sid dflt cmd False envs cwd timeout False s
      = (Inr (Finished result), s')
    \<and> calls_to s' = calls_to s @ ''process.start'' # replicate (Suc (length pre)) ''process.poll''"
proof -
  let ?args = "[(''cmd'', JStr cmd), (''envs'', envs_json envs), (''cwd'', default_cwd cwd dflt)]"
  let ?s = "snd (recorded_invoke sid ''process.start'' ?args None s)"
  have "start_process recorded_host sid ?args s = (Inr pid, ?s)"
    using assms(2,3,7)
    by (simp add: start_process_def recorded_simps recorded_invoke_def act_bind_def check_error_def jindex_def)
  moreover obtain s' where "poll_loop (Suc (length pre)) recorded_host sid pid timeout
      (hs_time ?s + of_int timeout) 0 ?s = (Inr (Some result), s')"
    and calls: "calls_to s' = calls_to ?s @ replicate (Suc (length pre)) ''process.poll''"
    using poll_loop_recovers [OF assms(4,5), of ?s rest "hs_time ?s + of_int timeout" sid pid timeout] assms(6,7)
    by (auto simp: recorded_invoke_def)
  moreover have "calls_to ?s = calls_to s @ [''process.start'']"
    by (simp add: recorded_invoke_def calls_to_def)
  ultimately show ?thesis using assms(1)
    by (auto simp: commands_run_def run_with_poll_def poll_pid_until_done_def recorded_simps act_bind_def act_return_def
        simp del: poll_loop.simps replicate_Suc)
qed

definition poll_done :: jobj where
  "poll_done = [(''status'', JStr ''done''), (''stdout'', JStr ''ok''), (''stderr'', JStr []), (''exit_code'', JInt 0)]"

theorem run_through_failures_witness:
  "\<exists>s'. commands_run 4 recorded_host ''sb'' None ''make'' False None None 60 False
      \<lparr>hs_answers = [Inr [(''pid'', JInt 7)], Inl transient, Inl transient,
         Inr [(''status'', JStr ''running'')], Inr poll_done], hs_time = 0, hs_calls = []\<rparr>
      = (Inr (Finished \<lparr>cr_stdout = JStr ''ok'', cr_stderr = JStr [], cr_exit_code = JInt 0\<rparr>), s')
    \<and> calls_to s' = [''process.start'', ''process.poll'', ''process.poll'', ''process.poll'', ''process.poll'']"
  using run_through_failures [of 60 "[(''pid'', JInt 7)]" "JInt 7"
      "[Inl transient, Inl transient, Inr [(''status'', JStr ''running'')]]" poll_done
      "\<lparr>cr_stdout = JStr ''ok'', cr_stderr = JStr [], cr_exit_code = JInt 0\<rparr>"
      "\<lparr>hs_answers = [Inr [(''pid'', JInt 7)], Inl transient, Inl transient,
         Inr [(''status'', JStr ''running'')], Inr poll_done], hs_time = 0, hs_calls = []\<rparr>" "[]" "''sb''" None "''make''" None None]
  by (simp add: POLL_THRESHOLD_def transient_def poll_caught_def poll_fatal_def poll_verdict_def poll_done_def
      POLL_MAX_CONSECUTIVE_ERRORS_def jindex_def result_of_def calls_to_def numeral_eq_Suc del: poll_loop.simps)

end
