(* ===== verification/ShellWords.thy ===== *)
theory ShellWords
  imports Prelude
begin

text \<open>
  The two functions of \<open>shlex\<close> the SDK uses: \<open>quote\<close>, and \<open>split\<close> in its default POSIX mode without
  comments, as the state machine of \<open>shlex.read_token\<close>; and that splitting undoes quoting.
\<close>

section \<open>Quoting\<close>

definition shell_safe :: "char \<Rightarrow> bool" where
  "shell_safe c \<longleftrightarrow>
     c \<in> set ''abcdefghijklmnopqrstuvwxyzABCDEFGHIJKLMNOPQRSTUVWXYZ0123456789_@%+=:,./-''"

definition escape_quotes :: "string \<Rightarrow> string" where
  "escape_quotes s =
     concat (map (\<lambda>c. if c = CHR 39 then [CHR 39, CHR 34, CHR 39, CHR 34, CHR 39] else [c]) s)"

definition shell_quote :: "string \<Rightarrow> string" where
  "shell_quote s =
     (if s = [] then [CHR 39, CHR 39]
      else if list_all shell_safe s then s
      else CHR 39 # escape_quotes s @ [CHR 39])"

section \<open>Splitting\<close>

text \<open>
  Between words, in a word, in quotes, or after a backslash (of quotes, when it stood in them).
\<close>

datatype lex_state = Blank | InWord | Quoted char | Escaped "char option"

definition lex_space :: "char \<Rightarrow> bool" where
  "lex_space c \<longleftrightarrow> c \<in> {CHR '' '', CHR 9, CHR 13, CHR 10}"

text \<open>\<open>word\<close> is the token so far, \<open>quoted\<close> whether part of it was quoted.\<close>

fun lex :: "lex_state \<Rightarrow> string \<Rightarrow> bool \<Rightarrow> string \<Rightarrow> string list result" where
  "lex Blank word quoted [] = Inr []"
| "lex Blank word quoted (c # cs) =
     (if lex_space c then lex Blank [] False cs
      else if c = CHR 92 then lex (Escaped None) [] False cs
      else if c = CHR 39 \<or> c = CHR 34 then lex (Quoted c) [] False cs
      else lex InWord [c] False cs)"
| "lex InWord word quoted [] = Inr (if word \<noteq> [] \<or> quoted then [word] else [])"
| "lex InWord word quoted (c # cs) =
     (if lex_space c
      then
        if word \<noteq> [] \<or> quoted then bind_result (lex Blank [] False cs) (\<lambda>ws. Inr (word # ws))
        else lex Blank [] False cs
      else if c = CHR 92 then lex (Escaped None) word quoted cs
      else if c = CHR 39 \<or> c = CHR 34 then lex (Quoted c) word quoted cs
      else lex InWord (word @ [c]) quoted cs)"
| "lex (Quoted d) word quoted [] = Inl (ValueError ''No closing quotation'')"
| "lex (Quoted d) word quoted (c # cs) =
     (if c = d then lex InWord word True cs
      else if c = CHR 92 \<and> d = CHR 34 then lex (Escaped (Some d)) word True cs
      else lex (Quoted d) (word @ [c]) True cs)"
| "lex (Escaped q) word quoted [] = Inl (ValueError ''No escaped character'')"
| "lex (Escaped None) word quoted (c # cs) = lex InWord (word @ [c]) quoted cs"
| "lex (Escaped (Some d)) word quoted (c # cs) =
     lex (Quoted d) (if c \<noteq> CHR 92 \<and> c \<noteq> d then word @ [CHR 92, c] else word @ [c]) quoted cs"

definition shlex_split :: "string \<Rightarrow> string list result" where
  "shlex_split s = lex Blank [] False s"

section \<open>Splitting undoes quoting\<close>

lemma safe_plain: "shell_safe c \<Longrightarrow> \<not> lex_space c \<and> c \<noteq> CHR 92 \<and> c \<noteq> CHR 39 \<and> c \<noteq> CHR 34"
  by (auto simp: shell_safe_def lex_space_def)

lemma lex_safe: "list_all shell_safe s \<Longrightarrow> lex InWord word quoted (s @ rest) = lex InWord (word @ s) quoted rest"
  by (induction s arbitrary: word) (auto dest: safe_plain)

lemma lex_escaped:
  "lex (Quoted (CHR 39)) word quoted (escape_quotes s @ CHR 39 # rest) = lex InWord (word @ s) True rest"
proof (induction s arbitrary: word quoted)
  case (Cons c s)
  then show ?case by (auto simp: escape_quotes_def lex_space_def)
qed (simp add: escape_quotes_def)

definition needs_quotes :: "string \<Rightarrow> bool" where
  "needs_quotes s \<longleftrightarrow> \<not> (s \<noteq> [] \<and> list_all shell_safe s)"

lemma lex_shell_quote:
  "lex InWord word quoted (shell_quote s @ rest) = lex InWord (word @ s) (quoted \<or> needs_quotes s) rest"
  using lex_safe [of s word quoted rest] lex_escaped [of word quoted s rest]
  by (auto simp: shell_quote_def needs_quotes_def lex_space_def)

lemma shell_quote_head: "\<exists>c cs. shell_quote s = c # cs \<and> \<not> lex_space c \<and> c \<noteq> CHR 92"
proof (cases s)
  case (Cons c cs)
  then show ?thesis by (auto simp: shell_quote_def lex_space_def dest: safe_plain)
qed (simp add: shell_quote_def lex_space_def)

lemma lex_Blank_quote: "lex Blank [] False (shell_quote s @ rest) = lex InWord [] False (shell_quote s @ rest)"
  using shell_quote_head [of s] by auto

lemma word_emitted: "s \<noteq> [] \<or> needs_quotes s"
  by (simp add: needs_quotes_def)

lemma split_quoted: "shlex_split (join_with '' '' (map shell_quote args)) = Inr args"
proof -
  have "lex Blank [] False (join_with '' '' (map shell_quote args)) = Inr args"
  proof (induction args rule: induct_list012)
    case 1
    then show ?case by simp
  next
    case (2 w)
    have "lex Blank [] False (shell_quote w @ []) = Inr [w]"
      unfolding lex_Blank_quote lex_shell_quote using word_emitted [of w] by simp
    then show ?case by simp
  next
    case (3 w v ws)
    have "lex InWord [] False (shell_quote w @ '' '' @ join_with '' '' (map shell_quote (v # ws))) = Inr (w # v # ws)"
      unfolding lex_shell_quote using word_emitted [of w] 3(2) by (simp add: lex_space_def)
    then show ?case by (simp add: lex_Blank_quote)
  qed
  then show ?thesis by (simp add: shlex_split_def)
qed

end
