(* ===== verification/Filesystem.thy ===== *)
theory Filesystem
  imports Rpc TransportFiles ShellWords
begin

text \<open>
  \<open>filesystem.py\<close>: file operations as calls of the sandbox's \<open>file.*\<close> actions, contents moved in
  hexadecimal chunks where the \<open>/direct\<close> route is not enabled, and copies between the local
  machine and the sandbox. Strings are Latin-1. \<open>copy_from_local\<close> and \<open>copy_to_local\<close> return None
  when a resumable upload runs out of fuel.
\<close>

section \<open>The client and the operating system\<close>

text \<open>
  What \<open>Filesystem\<close> uses beside \<open>invoke\<close>: the data path of the client, \<open>uuid4().hex\<close>,
  \<open>timeout_or_default\<close>, \<open>bytes.decode\<close> with replacement, and calls of \<open>os\<close>, \<open>tempfile\<close> and
  \<open>tarfile\<close>. \<open>fh_tar_dir\<close> is the archive of a directory as its producer writes it, with the
  exception that ends it early; a member of an archive is its name and what extracts it.
\<close>

record 's file_host = "'s host" +
  fh_direct_enabled :: "('s, bool) action"
  fh_download_bytes :: "string \<Rightarrow> string \<Rightarrow> rat \<Rightarrow> ('s, byte list) action"
  fh_upload_bytes :: "string \<Rightarrow> byte list \<Rightarrow> string \<Rightarrow> rat \<Rightarrow> ('s, jobj) action"
  fh_upload_stream :: "string \<Rightarrow> byte list list \<Rightarrow> string \<Rightarrow> rat \<Rightarrow> string \<Rightarrow> ('s, jobj) action"
  fh_upload_file :: "string \<Rightarrow> string \<Rightarrow> string \<Rightarrow> rat \<Rightarrow> ('s, jobj option) action"
  fh_download_file :: "string \<Rightarrow> string \<Rightarrow> string \<Rightarrow> rat \<Rightarrow> string \<Rightarrow> ('s, unit) action"
  fh_hex :: "('s, string) action"
  fh_timeout :: "client_exc + rat"
  fh_decode :: "byte list \<Rightarrow> string"
  fh_exists :: "string \<Rightarrow> ('s, bool) action"
  fh_isdir :: "string \<Rightarrow> ('s, bool) action"
  fh_read_file :: "string \<Rightarrow> ('s, byte list) action"
  fh_write_file :: "string \<Rightarrow> byte list \<Rightarrow> ('s, unit) action"
  fh_replace :: "string \<Rightarrow> string \<Rightarrow> ('s, unit) action"
  fh_unlink :: "string \<Rightarrow> ('s, unit) action"
  fh_makedirs :: "string \<Rightarrow> ('s, unit) action"
  fh_parent :: "string \<Rightarrow> string"
  fh_mkstemp :: "('s, string) action"
  fh_tar_dir :: "string \<Rightarrow> ('s, byte list \<times> client_exc option) action"
  fh_members :: "string \<Rightarrow> ('s, (string \<times> byte list) list) action"
  fh_realpath :: "string \<Rightarrow> ('s, string) action"
  fh_extract :: "string \<times> byte list \<Rightarrow> string \<Rightarrow> ('s, unit) action"

definition RPC_FILE_CHUNK_SIZE :: nat where
  "RPC_FILE_CHUNK_SIZE = 1024 * 1024"

text \<open>\<open>try: m finally: f\<close>: an exception of \<open>f\<close> replaces the outcome of \<open>m\<close>.\<close>

definition act_finally :: "('s, 'a) action \<Rightarrow> ('s, unit) action \<Rightarrow> ('s, 'a) action" where
  "act_finally m f = act_bind (act_try m) (\<lambda>r. act_bind f (\<lambda>_. act_lift r))"

section \<open>Text\<close>

text \<open>\<open>bytes.hex\<close> and \<open>bytes.fromhex\<close>, which skips ASCII whitespace between the bytes.\<close>

definition hex_of :: "byte list \<Rightarrow> string" where
  "hex_of bs = concat (map (\<lambda>b. [hex_char (unat b div 16), hex_char (unat b mod 16)]) bs)"

definition ascii_space :: "char \<Rightarrow> bool" where
  "ascii_space c \<longleftrightarrow> (let n = of_char c :: nat in n = 32 \<or> (9 \<le> n \<and> n \<le> 13))"

fun from_hex :: "string \<Rightarrow> byte list option" where
  "from_hex [] = Some []"
| "from_hex [c] = (if ascii_space c then Some [] else None)"
| "from_hex (c # d # rest) =
     (if ascii_space c then from_hex (d # rest)
      else case (hex_val c, hex_val d) of
        (Some x, Some y) \<Rightarrow> map_option ((#) (word_of_nat (16 * x + y))) (from_hex rest)
      | _ \<Rightarrow> None)"

section \<open>Chunks over RPC\<close>

definition fs_call :: "('s, 'z) host_scheme \<Rightarrow> string \<Rightarrow> string \<Rightarrow> jobj \<Rightarrow> ('s, jobj) action" where
  "fs_call h sid action args = h_invoke h sid action args None"

text \<open>A call whose result is passed through \<open>_check\<close>.\<close>

definition checked_call ::
  "('s, 'z) host_scheme \<Rightarrow> string \<Rightarrow> string \<Rightarrow> jobj \<Rightarrow> string \<Rightarrow> ('s, jobj) action" where
  "checked_call h sid action args msg =
     act_bind (fs_call h sid action args) (\<lambda>result. act_lift (check_error msg result))"

text \<open>The slices \<open>source_chunk[start : start + n]\<close> for \<open>start\<close> in steps of \<open>n\<close>.\<close>

function pieces :: "nat \<Rightarrow> 'a list \<Rightarrow> 'a list list" where
  "pieces n xs = (if n = 0 \<or> xs = [] then [] else take n xs # pieces n (drop n xs))"
  by auto
termination by (relation "measure (\<lambda>(n, xs). length xs)") auto

declare pieces.simps [simp del]

text \<open>A source of chunks may raise after the ones it yields.\<close>

type_synonym chunk_source = "byte list list \<times> client_exc option"

text \<open>The loop over all slices of all chunks; the new offset comes back.\<close>

fun write_pieces :: "('s, 'z) host_scheme \<Rightarrow> string \<Rightarrow> string \<Rightarrow> nat \<Rightarrow> byte list list \<Rightarrow> ('s, nat) action" where
  "write_pieces h sid path offset [] = act_return offset"
| "write_pieces h sid path offset (chunk # chunks) =
     act_bind (checked_call h sid ''file.write_chunk''
         [(''path'', JStr path), (''offset'', JInt (int offset)), (''data'', JStr (hex_of chunk))]
         (''Failed to write '' @ path)) (\<lambda>result.
     act_bind (act_lift (jint (jget_or result ''bytes_written'' (JInt (-1))))) (\<lambda>n.
       if n \<noteq> int (length chunk) then act_raise (PyError (RuntimeError (''Short RuntimeRPC write for '' @ path)))
       else write_pieces h sid path (offset + length chunk) chunks))"

record EntryInfo =
  ei_name :: json
  ei_path :: json
  ei_type :: json
  ei_size :: json
  ei_permissions :: json
  ei_modified_time :: json

text \<open>\<open>_entry\<close>.\<close>

definition entry_of :: "jobj \<Rightarrow> client_exc + EntryInfo" where
  "entry_of result =
     bind_result (jindex result ''name'') (\<lambda>name.
     bind_result (jindex result ''path'') (\<lambda>path.
     bind_result (jindex result ''type'') (\<lambda>ty.
     bind_result (jindex result ''size'') (\<lambda>sz.
     bind_result (jindex result ''permissions'') (\<lambda>permissions.
     bind_result (jindex result ''modified_time'') (\<lambda>modified.
       Inr \<lparr>ei_name = name, ei_path = path, ei_type = ty, ei_size = sz, ei_permissions = permissions,
            ei_modified_time = modified\<rparr>))))))"

definition get_info :: "('s, 'z) host_scheme \<Rightarrow> string \<Rightarrow> string \<Rightarrow> ('s, EntryInfo) action" where
  "get_info h sid path =
     act_bind (checked_call h sid ''file.stat'' [(''path'', JStr path)] (''Failed to get info for '' @ path))
       (\<lambda>result. act_lift (entry_of result))"

definition write_rpc_chunks :: "('s, 'z) host_scheme \<Rightarrow> string \<Rightarrow> string \<Rightarrow> chunk_source \<Rightarrow> ('s, EntryInfo) action" where
  "write_rpc_chunks h sid path source =
     (let (chunks, failure) = source; todo = concat (map (pieces RPC_FILE_CHUNK_SIZE) chunks) in
      act_bind (write_pieces h sid path 0 todo) (\<lambda>_.
        case failure of
          Some e \<Rightarrow> act_raise e
        | None \<Rightarrow>
            if todo = []
            then act_bind (checked_call h sid ''file.write_chunk''
                     [(''path'', JStr path), (''offset'', JInt 0), (''data'', JStr [])] (''Failed to write '' @ path))
                   (\<lambda>_. get_info h sid path)
            else get_info h sid path))"

text \<open>
  The generator of \<open>_read_rpc_chunks\<close> with what it has yielded in \<open>acc\<close>, one call per unit of
  fuel. Its callers drop what was yielded before an exception.
\<close>

fun read_rpc_chunks ::
  "nat \<Rightarrow> ('s, 'z) host_scheme \<Rightarrow> string \<Rightarrow> string \<Rightarrow> byte list \<Rightarrow> ('s, byte list option) action" where
  "read_rpc_chunks 0 h sid path acc = act_return None"
| "read_rpc_chunks (Suc fuel) h sid path acc =
     act_bind (checked_call h sid ''file.read_chunk''
         [(''path'', JStr path), (''offset'', JInt (int (length acc))), (''limit'', JInt (int RPC_FILE_CHUNK_SIZE))]
         (''Failed to read '' @ path)) (\<lambda>result.
       case from_hex (py_str (host.truncate h) (jget_or result ''data'' (JStr []))) of
         None \<Rightarrow> act_raise (PyError (RuntimeError (''Invalid RuntimeRPC file data for '' @ path)))
       | Some chunk \<Rightarrow>
           act_bind (act_lift (jint (jget_or result ''bytes_read'' (JInt (-1))))) (\<lambda>n.
             if n \<noteq> int (length chunk)
             then act_raise (PyError (RuntimeError (''Invalid RuntimeRPC byte count for '' @ path)))
             else if truthy (jget result ''eof'') then act_return (Some (acc @ chunk))
             else if chunk = []
             then act_raise (PyError (RuntimeError (''RuntimeRPC read made no progress for '' @ path)))
             else read_rpc_chunks fuel h sid path (acc @ chunk)))"

section \<open>Small operations\<close>

text \<open>\<open>os.path.basename\<close>.\<close>

definition py_basename :: "string \<Rightarrow> string" where
  "py_basename p = rev (takeWhile (\<lambda>c. c \<noteq> CHR ''/'') (rev p))"

text \<open>\<open>_entry_from_upload\<close>; \<open>basename\<close> of a path that is no string raises.\<close>

definition entry_from_upload :: "jobj \<Rightarrow> client_exc + EntryInfo" where
  "entry_from_upload result =
     bind_result (case jget_or result ''path'' (JStr []) of
         JStr p \<Rightarrow> Inr (jget_or result ''name'' (JStr (py_basename p)))
       | _ \<Rightarrow> Inl (PyError (TypeError ''expected str, bytes or os.PathLike object''))) (\<lambda>name.
     bind_result (jindex result ''path'') (\<lambda>path.
     bind_result (jindex result ''size'') (\<lambda>sz.
       Inr \<lparr>ei_name = name, ei_path = path, ei_type = jget_or result ''type'' (JStr ''file''), ei_size = sz,
            ei_permissions = jget_or result ''permissions'' (JStr []),
            ei_modified_time = jget_or result ''modified_time'' (JFloat 0)\<rparr>)))"

datatype payload = TextData string | BytesData "byte list"

definition payload_bytes :: "payload \<Rightarrow> byte list" where
  "payload_bytes p = (case p of TextData s \<Rightarrow> utf8_encode s | BytesData b \<Rightarrow> b)"

definition fs_read_bytes :: "nat \<Rightarrow> 's file_host \<Rightarrow> string \<Rightarrow> string \<Rightarrow> ('s, byte list option) action" where
  "fs_read_bytes fuel h sid path =
     act_bind (fh_direct_enabled h) (\<lambda>direct.
       if direct
       then act_bind (act_lift (fh_timeout h)) (\<lambda>t. act_bind (fh_download_bytes h sid path t) (\<lambda>b. act_return (Some b)))
       else read_rpc_chunks fuel h sid path [])"

definition fs_read :: "nat \<Rightarrow> 's file_host \<Rightarrow> string \<Rightarrow> string \<Rightarrow> string \<Rightarrow> ('s, payload option) action" where
  "fs_read fuel h sid path fmt =
     (if fmt \<notin> {''text'', ''bytes''}
      then act_raise (PyError (ValueError ''format must be text or bytes''))
      else act_bind (fs_read_bytes fuel h sid path) (\<lambda>r. act_return (map_option (\<lambda>b.
        if fmt = ''bytes'' then BytesData b else TextData (fh_decode h b)) r)))"

definition fs_write :: "'s file_host \<Rightarrow> string \<Rightarrow> string \<Rightarrow> payload \<Rightarrow> ('s, EntryInfo) action" where
  "fs_write h sid path dat =
     (let payload = payload_bytes dat in
      act_bind (fh_direct_enabled h) (\<lambda>direct.
        if \<not> direct then write_rpc_chunks h sid path ([payload], None)
        else
          act_bind (act_lift (fh_timeout h)) (\<lambda>t.
          act_bind (fh_upload_bytes h sid payload path t) (\<lambda>result.
          act_bind (act_lift (check_error (''Failed to write '' @ path) result)) (\<lambda>result.
            act_lift (entry_from_upload result))))))"

definition rename_failed :: "string \<Rightarrow> string \<Rightarrow> string" where
  "rename_failed old_path new_path = ''Failed to rename '' @ old_path @ '' -> '' @ new_path"

text \<open>Iterating \<open>result["entries"]\<close>: each item is indexed by strings, which only a dict takes.\<close>

definition entry_item :: "json \<Rightarrow> client_exc + EntryInfo" where
  "entry_item v =
     (case v of JObj ob \<Rightarrow> entry_of ob | _ \<Rightarrow> Inl (PyError (TypeError ''indices must be integers'')))"

definition fs_list :: "('s, 'z) host_scheme \<Rightarrow> string \<Rightarrow> string \<Rightarrow> int \<Rightarrow> ('s, EntryInfo list) action" where
  "fs_list h sid path depth =
     act_bind (checked_call h sid ''file.list'' [(''path'', JStr path), (''depth'', JInt depth)]
         (''Failed to list '' @ path)) (\<lambda>result.
       act_lift (bind_result (jindex result ''entries'') (\<lambda>entries.
         bind_result (map_sum PyError id (py_iter entries)) (map_result entry_item))))"

definition fs_exists :: "('s, 'z) host_scheme \<Rightarrow> string \<Rightarrow> string \<Rightarrow> ('s, json) action" where
  "fs_exists h sid path =
     act_bind (fs_call h sid ''file.exists'' [(''path'', JStr path)]) (\<lambda>result. act_lift (jindex result ''exists''))"

definition fs_remove :: "('s, 'z) host_scheme \<Rightarrow> string \<Rightarrow> string \<Rightarrow> ('s, unit) action" where
  "fs_remove h sid path =
     act_bind (checked_call h sid ''file.remove'' [(''path'', JStr path)] (''Failed to remove '' @ path))
       (\<lambda>_. act_return ())"

definition fs_rename :: "('s, 'z) host_scheme \<Rightarrow> string \<Rightarrow> string \<Rightarrow> string \<Rightarrow> ('s, EntryInfo) action" where
  "fs_rename h sid old_path new_path =
     act_bind (checked_call h sid ''file.rename''
         [(''old_path'', JStr old_path), (''new_path'', JStr new_path)] (rename_failed old_path new_path))
       (\<lambda>result. act_lift (entry_of result))"

definition fs_make_dir :: "('s, 'z) host_scheme \<Rightarrow> string \<Rightarrow> string \<Rightarrow> ('s, json) action" where
  "fs_make_dir h sid path =
     act_bind (checked_call h sid ''file.make_dir'' [(''path'', JStr path)] (''Failed to make dir '' @ path))
       (\<lambda>result. act_lift (jindex result ''created''))"

definition run_control_command :: "('s, 'z) host_scheme \<Rightarrow> string \<Rightarrow> string \<Rightarrow> string \<Rightarrow> ('s, unit) action" where
  "run_control_command h sid command operation =
     act_bind (fs_call h sid ''process.exec''
         [(''cmd'', JStr command), (''envs'', JNull), (''cwd'', JNull), (''timeout'', JInt 300)]) (\<lambda>result.
     act_bind (act_lift (jint (jget_or result ''exit_code'' (JInt (-1))))) (\<lambda>code.
       if code \<noteq> 0 then act_raise (PyError (RuntimeError operation)) else act_return ()))"

definition remove_control_temp :: "('s, 'z) host_scheme \<Rightarrow> string \<Rightarrow> string \<Rightarrow> ('s, unit) action" where
  "remove_control_temp h sid path =
     act_bind (act_try (fs_call h sid ''file.remove'' [(''path'', JStr path)])) (\<lambda>_. act_return ())"

section \<open>Copies\<close>

text \<open>\<open>_tar_directory_chunks\<close>: the pipe is read in chunks, then a failure of the producer is raised.\<close>

definition tar_directory_chunks :: "'s file_host \<Rightarrow> string \<Rightarrow> ('s, chunk_source) action" where
  "tar_directory_chunks h local_path =
     act_bind (fh_tar_dir h local_path) (\<lambda>(archive, failure).
       act_return (pieces RPC_FILE_CHUNK_SIZE archive, failure))"

definition upload_temp :: "string \<Rightarrow> string" where
  "upload_temp hex = ''/tmp/.yr-upload-'' @ hex @ ''.tar''"

definition download_temp :: "string \<Rightarrow> string" where
  "download_temp hex = ''/tmp/.yr-download-'' @ hex @ ''.tar''"

definition unpack_command :: "string \<Rightarrow> string \<Rightarrow> string" where
  "unpack_command temp_path remote_path =
     ''mkdir -p -- '' @ shell_quote remote_path @ '' && tar -xf '' @ shell_quote temp_path
     @ '' -C '' @ shell_quote remote_path"

definition pack_command :: "string \<Rightarrow> string \<Rightarrow> string" where
  "pack_command temp_path remote_path =
     ''tar -cf '' @ shell_quote temp_path @ '' -C '' @ shell_quote remote_path @ '' .''"

definition copy_failed :: "string \<Rightarrow> string \<Rightarrow> string" where
  "copy_failed local_path remote_path = ''Failed to copy '' @ local_path @ '' to '' @ remote_path"

definition copy_dir_rpc :: "'s file_host \<Rightarrow> string \<Rightarrow> string \<Rightarrow> string \<Rightarrow> ('s, unit) action" where
  "copy_dir_rpc h sid local_path remote_path =
     act_bind (fh_hex h) (\<lambda>hex.
     let temp_path = upload_temp hex in
     act_finally
       (act_bind (tar_directory_chunks h local_path) (\<lambda>source.
        act_bind (write_rpc_chunks h sid temp_path source) (\<lambda>_.
          run_control_command h sid (unpack_command temp_path remote_path) (copy_failed local_path remote_path))))
       (remove_control_temp h sid temp_path))"

definition copy_file_rpc :: "'s file_host \<Rightarrow> string \<Rightarrow> string \<Rightarrow> string \<Rightarrow> ('s, unit) action" where
  "copy_file_rpc h sid local_path remote_path =
     act_bind (fh_read_file h local_path) (\<lambda>dat.
     act_bind (write_rpc_chunks h sid remote_path (pieces RPC_FILE_CHUNK_SIZE dat, None))
       (\<lambda>_. act_return ()))"

definition check_copy :: "string \<Rightarrow> string \<Rightarrow> jobj \<Rightarrow> ('s, unit option) action" where
  "check_copy local_path remote_path result =
     act_lift (map_sum id (\<lambda>_. Some ()) (check_error (copy_failed local_path remote_path) result))"

definition copy_from_local :: "'s file_host \<Rightarrow> string \<Rightarrow> string \<Rightarrow> string \<Rightarrow> ('s, unit option) action" where
  "copy_from_local h sid local_path remote_path =
     act_bind (fh_exists h local_path) (\<lambda>found.
     if \<not> found then act_raise (FileNotFoundError local_path)
     else
     act_bind (fh_direct_enabled h) (\<lambda>direct.
     act_bind (fh_isdir h local_path) (\<lambda>is_dir.
       if \<not> direct \<and> is_dir
       then act_bind (copy_dir_rpc h sid local_path remote_path) (\<lambda>_. act_return (Some ()))
       else if \<not> direct
       then act_bind (copy_file_rpc h sid local_path remote_path) (\<lambda>_. act_return (Some ()))
       else if is_dir
       then
         act_bind (act_lift (fh_timeout h)) (\<lambda>t.
         act_bind (tar_directory_chunks h local_path) (\<lambda>(chunks, failure).
           case failure of
             Some e \<Rightarrow> act_raise e
           | None \<Rightarrow> act_bind (fh_upload_stream h sid chunks remote_path t ''tar'') (check_copy local_path remote_path)))
       else
         act_bind (act_lift (fh_timeout h)) (\<lambda>t.
         act_bind (fh_upload_file h sid local_path remote_path t) (\<lambda>r.
           case r of None \<Rightarrow> act_return None | Some result \<Rightarrow> check_copy local_path remote_path result)))))"

text \<open>\<open>os.path.join\<close> with one more component.\<close>

definition path_join :: "string \<Rightarrow> string \<Rightarrow> string" where
  "path_join base name =
     (if name \<noteq> [] \<and> hd name = CHR ''/'' then name
      else if base = [] \<or> rev base ! 0 = CHR ''/'' then base @ name
      else base @ ''/'' @ name)"

definition inside :: "string \<Rightarrow> string \<Rightarrow> bool" where
  "inside dest_real target \<longleftrightarrow>
     target = dest_real \<or> take (Suc (length dest_real)) target = dest_real @ ''/''"

text \<open>\<open>_safe_extract_tar\<close>, with what \<open>getmembers\<close> returns.\<close>

fun extract_members :: "'s file_host \<Rightarrow> string \<Rightarrow> string \<Rightarrow> (string \<times> byte list) list \<Rightarrow> ('s, unit) action" where
  "extract_members h dest_real dest [] = act_return ()"
| "extract_members h dest_real dest (m # ms) =
     act_bind (fh_realpath h (path_join dest (fst m))) (\<lambda>target.
       if \<not> inside dest_real target
       then act_raise (PyError (RuntimeError (''unsafe tar member escapes destination: '' @ fst m)))
       else act_bind (fh_extract h m dest) (\<lambda>_. extract_members h dest_real dest ms))"

definition safe_extract_tar :: "'s file_host \<Rightarrow> (string \<times> byte list) list \<Rightarrow> string \<Rightarrow> ('s, unit) action" where
  "safe_extract_tar h members dest =
     act_bind (fh_realpath h dest) (\<lambda>dest_real. extract_members h dest_real dest members)"

text \<open>Chunks read over RPC into a local file; None when the fuel ran out.\<close>

definition read_rpc_to_file ::
  "nat \<Rightarrow> 's file_host \<Rightarrow> string \<Rightarrow> string \<Rightarrow> string \<Rightarrow> ('s, unit option) action" where
  "read_rpc_to_file fuel h sid remote_path path =
     act_bind (fh_write_file h path []) (\<lambda>_.
     act_bind (read_rpc_chunks fuel h sid remote_path []) (\<lambda>r.
       case r of
         None \<Rightarrow> act_return None
       | Some dat \<Rightarrow> act_bind (fh_write_file h path dat) (\<lambda>_. act_return (Some ()))))"

definition fetch_archive ::
  "nat \<Rightarrow> 's file_host \<Rightarrow> string \<Rightarrow> string \<Rightarrow> string \<Rightarrow> ('s, unit option) action" where
  "fetch_archive fuel h sid remote_path tar_path =
     act_bind (fh_direct_enabled h) (\<lambda>direct.
     if direct
     then
       act_bind (act_lift (fh_timeout h)) (\<lambda>t.
       act_bind (fh_download_file h sid remote_path tar_path t ''tar'') (\<lambda>_. act_return (Some ())))
     else
       act_bind (fh_hex h) (\<lambda>hex.
       let remote_temp = download_temp hex in
       act_finally
         (act_bind (run_control_command h sid (pack_command remote_temp remote_path)
             (''Failed to archive '' @ remote_path)) (\<lambda>_.
           read_rpc_to_file fuel h sid remote_temp tar_path))
         (remove_control_temp h sid remote_temp)))"

definition copy_dir_to_local ::
  "nat \<Rightarrow> 's file_host \<Rightarrow> string \<Rightarrow> string \<Rightarrow> string \<Rightarrow> ('s, unit option) action" where
  "copy_dir_to_local fuel h sid remote_path local_path =
     act_bind (fh_makedirs h local_path) (\<lambda>_.
     act_bind (fh_mkstemp h) (\<lambda>tar_path.
     act_finally
       (act_bind (fetch_archive fuel h sid remote_path tar_path) (\<lambda>r.
          case r of
            None \<Rightarrow> act_return None
          | Some _ \<Rightarrow>
              act_bind (fh_members h tar_path) (\<lambda>members.
              act_bind (safe_extract_tar h members local_path) (\<lambda>_. act_return (Some ())))))
       (fh_unlink h tar_path)))"

definition copy_file_to_local ::
  "nat \<Rightarrow> 's file_host \<Rightarrow> string \<Rightarrow> string \<Rightarrow> string \<Rightarrow> ('s, unit option) action" where
  "copy_file_to_local fuel h sid remote_path local_path =
     (let parent = fh_parent h local_path; part = part_path local_path in
      act_bind (if parent \<noteq> [] then fh_makedirs h parent else act_return ()) (\<lambda>_.
      act_finally
        (act_bind (read_rpc_to_file fuel h sid remote_path part) (\<lambda>r.
           case r of
             None \<Rightarrow> act_return None
           | Some _ \<Rightarrow> act_bind (fh_replace h part local_path) (\<lambda>_. act_return (Some ()))))
        (act_bind (fh_exists h part) (\<lambda>found. if found then fh_unlink h part else act_return ()))))"

definition copy_to_local ::
  "nat \<Rightarrow> 's file_host \<Rightarrow> string \<Rightarrow> string \<Rightarrow> string \<Rightarrow> ('s, unit option) action" where
  "copy_to_local fuel h sid remote_path local_path =
     act_bind (get_info h sid remote_path) (\<lambda>info.
     if ei_type info = JStr ''dir'' then copy_dir_to_local fuel h sid remote_path local_path
     else
     act_bind (fh_direct_enabled h) (\<lambda>direct.
       if \<not> direct then copy_file_to_local fuel h sid remote_path local_path
       else
         act_bind (act_lift (fh_timeout h)) (\<lambda>t.
         act_bind (fh_download_file h sid remote_path local_path t ''file'') (\<lambda>_. act_return (Some ())))))"

section \<open>The client of \<open>_transport.py\<close>\<close>

text \<open>
  \<open>Filesystem\<close> on a \<open>SandboxClient\<close>: the operating system is given, resumable uploads have
  \<open>fuel\<close>.
\<close>

definition with_client :: "'w ops \<Rightarrow> nat \<Rightarrow> 'w session file_host \<Rightarrow> 'w session file_host" where
  "with_client ops fuel os =
     os\<lparr>h_invoke := invoke ops, h_now := now ops, h_sleep := sleep ops,
        fh_direct_enabled := act_bind get_client (\<lambda>c. act_return (cl_direct_enabled c)),
        fh_download_bytes := (\<lambda>i p t. download_bytes_direct ops i p (Some t)),
        fh_upload_bytes := (\<lambda>i b p t. upload_bytes_direct ops i b p (Some t)),
        fh_upload_stream := (\<lambda>i cs p t. upload_stream_direct ops i cs p (Some t)),
        fh_upload_file := (\<lambda>i l r t. upload_file_direct fuel ops i l r (Some t) ''file''),
        fh_download_file := (\<lambda>i r l t. download_file_direct ops i r l (Some t))\<rparr>"

end
