(* ===== verification/RpcServer.thy ===== *)
theory RpcServer
  imports Rpc TransportFiles
begin

text \<open>
  The runtime behind \<open>invoke\<close> as the client sees it: an HTTP server that answers a posted action
  with the result of a function on its own state, in the frontend's envelope. The client's whole
  request path runs against it, so a resource class can be composed with the transport.
\<close>

record 'r runtime =
  rt_state :: 'r
  rt_ids :: nat

type_synonym 'r rpc = "string \<Rightarrow> jobj \<Rightarrow> 'r \<Rightarrow> jobj \<times> 'r"

definition runtime_server ::
  "'r rpc \<Rightarrow> http_req \<Rightarrow> 'r runtime \<Rightarrow> (transport_error + response) \<times> 'r runtime" where
  "runtime_server rpc rq w =
     (case rq_json rq of
        JObj body \<Rightarrow>
          (case (jget body ''action'', jget body ''args'') of
             (JStr action, JObj args) \<Rightarrow>
               (case rpc action args (rt_state w) of
                  (result, r) \<Rightarrow> (Inr (json_response 200 [(''data'', JObj result)]), w\<lparr>rt_state := r\<rparr>))
           | _ \<Rightarrow> (Inr (json_response 400 []), w))
      | _ \<Rightarrow> (Inr (json_response 400 []), w))"

definition runtime_ops :: "'r rpc \<Rightarrow> 'r runtime ops" where
  "runtime_ops rpc =
     \<lparr>op_send = runtime_server rpc, op_now = (\<lambda>w. (0, w)), op_sleep = (\<lambda>d w. w),
      op_uuid = (\<lambda>w. (str_nat (rt_ids w), w\<lparr>rt_ids := Suc (rt_ids w)\<rparr>)),
      op_loads = (\<lambda>_. None), op_data = (\<lambda>_. None)\<rparr>"

text \<open>A client that does not use the direct route.\<close>

definition frontend_only :: "'w session \<Rightarrow> bool" where
  "frontend_only s \<longleftrightarrow> \<not> cl_direct_enabled (se_client s)"

definition state_of :: "'r runtime session \<Rightarrow> 'r" where
  "state_of s = rt_state (se_world s)"

text \<open>One call is one action of the server.\<close>

lemma invoke_runtime:
  assumes "frontend_only s" "rpc action args (state_of s) = (result, r)"
  shows "\<exists>s'. invoke (runtime_ops rpc) sid action args None s = (Inr result, s')
    \<and> frontend_only s' \<and> state_of s' = r \<and> se_files s' = se_files s"
  using assms
  by (auto simp: invoke_def new_request_id_def runtime_ops_def act_bind_def rpc_timeout_def now_def
      frontend_only_def invoke_frontend_def remaining_timeout_def send_def frontend_request_def plain_request_def
      runtime_server_def invoke_body_def json_envelope_def json_response_def jget_or_def GET_DEFAULT_TIMEOUT_def
      as_dict_def state_of_def)

end
