(* ===== verification/FileContents.thy ===== *)
theory FileContents
  imports Filesystem RpcServer
begin

text \<open>
  What writing and reading files over RPC comes to: an abstract map from paths to contents, of which
  the chunked transfers are whole-file updates and lookups. The laws of the server's chunk actions
  are a locale; they are discharged for the client of \<open>_transport.py\<close> talking to a server that
  keeps such a map.
\<close>

section \<open>Hexadecimal and slices\<close>

lemma hex_of_simps [simp]:
  "hex_of [] = []"
  "hex_of (b # bs) = hex_char (unat b div 16) # hex_char (unat b mod 16) # hex_of bs"
  by (simp_all add: hex_of_def)

lemma hex_char_not_space: "d < 16 \<Longrightarrow> \<not> ascii_space (hex_char d)"
  by (drule less_16_cases) (auto simp: ascii_space_def hex_char_def hex_digits_def Let_def)

lemma from_hex_of [simp]: "from_hex (hex_of bs) = Some bs"
proof (induction bs)
  case (Cons b bs)
  have "unat b div 16 < 16" using unat_byte_less [of b] by simp
  then show ?case using Cons by (simp add: hex_char_not_space)
qed simp

lemma concat_pieces: "0 < n \<Longrightarrow> concat (pieces n xs) = xs"
  by (induction n xs rule: pieces.induct) (subst pieces.simps, simp)

lemma pieces_bounded: "c \<in> set (pieces n xs) \<Longrightarrow> 0 < length c \<and> length c \<le> n"
proof (induction n xs rule: pieces.induct)
  case (1 n xs)
  then show ?case by (subst (asm) pieces.simps) (auto split: if_splits)
qed

lemma pieces_Nil [simp]: "pieces n [] = []"
  by (subst pieces.simps) simp

definition rpc_pieces :: "byte list list \<Rightarrow> byte list list" where
  "rpc_pieces chunks = concat (map (pieces RPC_FILE_CHUNK_SIZE) chunks)"

lemma concat_rpc_pieces: "concat (rpc_pieces chunks) = concat chunks"
  by (induction chunks) (simp_all add: rpc_pieces_def concat_pieces RPC_FILE_CHUNK_SIZE_def)

lemma rpc_pieces_nonempty: "c \<in> set (rpc_pieces chunks) \<Longrightarrow> c \<noteq> []"
  by (auto simp: rpc_pieces_def dest: pieces_bounded)

section \<open>The laws of the chunk actions\<close>

text \<open>
  \<open>content\<close> is the server's files, \<open>ok\<close> the states the laws hold in. A chunk written at 0 replaces
  the file, one written at its end is appended; a chunk read is a prefix, not longer than the limit
  and not empty, of what follows the offset, and says whether it reaches the end.
\<close>

locale file_rpc =
  fixes h :: "('s, 'z) host_scheme" and sid :: string
    and ok :: "'s \<Rightarrow> bool" and content :: "'s \<Rightarrow> string \<rightharpoonup> byte list"
  assumes write_law:
    "\<lbrakk>ok s; offset = 0 \<or> (\<exists>old. content s path = Some old \<and> length old = offset)\<rbrakk> \<Longrightarrow>
     \<exists>res s'. fs_call h sid ''file.write_chunk''
         [(''path'', JStr path), (''offset'', JInt (int offset)), (''data'', JStr (hex_of chunk))] s = (Inr res, s')
       \<and> \<not> truthy (jget res ''error'') \<and> jint (jget_or res ''bytes_written'' (JInt (-1))) = Inr (int (length chunk))
       \<and> ok s' \<and> content s' = (content s)(path \<mapsto> (if offset = 0 then [] else the (content s path)) @ chunk)"
    and read_law:
    "\<lbrakk>ok s; content s path = Some dat; offset \<le> length dat; 0 < limit\<rbrakk> \<Longrightarrow>
     \<exists>res s' n. fs_call h sid ''file.read_chunk''
         [(''path'', JStr path), (''offset'', JInt (int offset)), (''limit'', JInt (int limit))] s = (Inr res, s')
       \<and> \<not> truthy (jget res ''error'') \<and> 0 < n \<and> n \<le> limit
       \<and> jget_or res ''data'' (JStr []) = JStr (hex_of (take n (drop offset dat)))
       \<and> jint (jget_or res ''bytes_read'' (JInt (-1))) = Inr (int (length (take n (drop offset dat))))
       \<and> (truthy (jget res ''eof'') \<longleftrightarrow> length dat \<le> offset + n) \<and> ok s' \<and> content s' = content s"
    and stat_law:
    "\<lbrakk>ok s; content s path = Some dat\<rbrakk> \<Longrightarrow>
     \<exists>res s' e. fs_call h sid ''file.stat'' [(''path'', JStr path)] s = (Inr res, s')
       \<and> \<not> truthy (jget res ''error'') \<and> entry_of res = Inr e \<and> ei_size e = JInt (int (length dat))
       \<and> ok s' \<and> content s' = content s"
begin

lemma write_pieces_appends:
  assumes "ok s" "content s path = Some old" "length old = offset" "offset \<noteq> 0"
  shows "\<exists>s'. write_pieces h sid path offset chunks s = (Inr (offset + length (concat chunks)), s')
    \<and> ok s' \<and> content s' = (content s)(path \<mapsto> old @ concat chunks)"
  using assms
proof (induction chunks arbitrary: s old offset)
  case Nil
  then show ?case by (auto simp: act_return_def)
next
  case (Cons chunk chunks)
  obtain res s1 where w: "fs_call h sid ''file.write_chunk''
         [(''path'', JStr path), (''offset'', JInt (int offset)), (''data'', JStr (hex_of chunk))] s = (Inr res, s1)"
      "\<not> truthy (jget res ''error'')" "jint (jget_or res ''bytes_written'' (JInt (-1))) = Inr (int (length chunk))"
      "ok s1" "content s1 = (content s)(path \<mapsto> old @ chunk)"
    using write_law [OF Cons.prems(1), of offset path chunk] Cons.prems by auto
  have "\<exists>s'. write_pieces h sid path (offset + length chunk) chunks s1
      = (Inr (offset + length chunk + length (concat chunks)), s') \<and> ok s'
      \<and> content s' = (content s1)(path \<mapsto> (old @ chunk) @ concat chunks)"
    by (rule Cons.IH) (use w Cons.prems in auto)
  with w show ?case
    by (auto simp: act_bind_def checked_call_def check_error_def add.assoc)
qed

lemma write_pieces_writes:
  assumes "ok s" "\<And>c. c \<in> set chunks \<Longrightarrow> c \<noteq> []" "chunks \<noteq> []"
  shows "\<exists>s'. write_pieces h sid path 0 chunks s = (Inr (length (concat chunks)), s')
    \<and> ok s' \<and> content s' = (content s)(path \<mapsto> concat chunks)"
proof (cases chunks)
  case (Cons chunk rest)
  obtain res s1 where w: "fs_call h sid ''file.write_chunk''
         [(''path'', JStr path), (''offset'', JInt (int 0)), (''data'', JStr (hex_of chunk))] s = (Inr res, s1)"
      "\<not> truthy (jget res ''error'')" "jint (jget_or res ''bytes_written'' (JInt (-1))) = Inr (int (length chunk))"
      "ok s1" "content s1 = (content s)(path \<mapsto> chunk)"
    using write_law [OF assms(1), of 0 path chunk] by auto
  obtain s2 where "write_pieces h sid path (length chunk) rest s1
      = (Inr (length chunk + length (concat rest)), s2)" "ok s2"
      "content s2 = (content s1)(path \<mapsto> chunk @ concat rest)"
    using write_pieces_appends [of s1 path chunk "length chunk" rest] w assms(2) Cons by auto
  with w Cons show ?thesis by (auto simp: act_bind_def checked_call_def check_error_def)
qed (use assms in simp)

lemma get_info_size:
  assumes "ok s" "content s path = Some dat"
  shows "\<exists>e s'. get_info h sid path s = (Inr e, s') \<and> ei_size e = JInt (int (length dat))
    \<and> ok s' \<and> content s' = content s"
  using stat_law [OF assms] by (auto simp: get_info_def checked_call_def check_error_def act_bind_def act_lift_def)

text \<open>Writing chunks is updating the map.\<close>

lemma write_rpc_chunks_updates:
  assumes "ok s"
  shows "\<exists>e s'. write_rpc_chunks h sid path (chunks, None) s = (Inr e, s')
    \<and> ei_size e = JInt (int (length (concat chunks))) \<and> ok s' \<and> content s' = (content s)(path \<mapsto> concat chunks)"
proof (cases "rpc_pieces chunks = []")
  case True
  then have "concat chunks = []" using concat_rpc_pieces [of chunks] by simp
  obtain res s1 where w: "fs_call h sid ''file.write_chunk''
         [(''path'', JStr path), (''offset'', JInt 0), (''data'', JStr [])] s = (Inr res, s1)"
      "\<not> truthy (jget res ''error'')" "ok s1" "content s1 = (content s)(path \<mapsto> [])"
    using write_law [OF assms, of 0 path "[]"] by auto
  moreover obtain e s2 where "get_info h sid path s1 = (Inr e, s2)" "ei_size e = JInt 0" "ok s2" "content s2 = content s1"
    using get_info_size [OF w(3), of path "[]"] w(4) by auto
  ultimately show ?thesis
    unfolding write_rpc_chunks_def prod.case Let_def rpc_pieces_def [symmetric] True \<open>concat chunks = []\<close>
    by (auto simp: act_bind_def act_return_def checked_call_def check_error_def act_lift_def)
next
  case False
  obtain s1 where w: "write_pieces h sid path 0 (rpc_pieces chunks) s = (Inr (length (concat chunks)), s1)"
      "ok s1" "content s1 = (content s)(path \<mapsto> concat chunks)"
    using write_pieces_writes [OF assms _ False, of path] rpc_pieces_nonempty concat_rpc_pieces [of chunks] by metis
  moreover obtain e s2 where "get_info h sid path s1 = (Inr e, s2)" "ei_size e = JInt (int (length (concat chunks)))"
      "ok s2" "content s2 = content s1"
    using get_info_size [OF w(2), of path "concat chunks"] w(3) by auto
  ultimately show ?thesis using False
    by (auto simp: write_rpc_chunks_def rpc_pieces_def [symmetric] Let_def act_bind_def)
qed

text \<open>Reading chunks is a lookup, with one unit of fuel for each byte that is left and one more.\<close>

lemma read_rpc_chunks_looks_up:
  assumes "ok s" "content s path = Some (acc @ rest)" "length rest < fuel"
  shows "\<exists>s'. read_rpc_chunks fuel h sid path acc s = (Inr (Some (acc @ rest)), s') \<and> ok s' \<and> content s' = content s"
  using assms
proof (induction fuel arbitrary: s acc rest)
  case (Suc fuel)
  obtain res s1 n where r: "fs_call h sid ''file.read_chunk''
         [(''path'', JStr path), (''offset'', JInt (int (length acc))), (''limit'', JInt (int RPC_FILE_CHUNK_SIZE))] s
        = (Inr res, s1)"
      "\<not> truthy (jget res ''error'')" "0 < n"
      "jget_or res ''data'' (JStr []) = JStr (hex_of (take n rest))"
      "jint (jget_or res ''bytes_read'' (JInt (-1))) = Inr (int (length (take n rest)))"
      "truthy (jget res ''eof'') \<longleftrightarrow> length rest \<le> n" "ok s1" "content s1 = content s"
    using read_law [OF Suc.prems(1,2), of "length acc" RPC_FILE_CHUNK_SIZE]
    by (auto simp: RPC_FILE_CHUNK_SIZE_def)
  show ?case
  proof (cases "length rest \<le> n")
    case True
    with r show ?thesis
      by (auto simp: act_bind_def checked_call_def check_error_def py_str_def act_return_def act_lift_def)
  next
    case False
    then have "take n rest \<noteq> []" using r(3) by auto
    moreover have "\<exists>s'. read_rpc_chunks fuel h sid path (acc @ take n rest) s1
        = (Inr (Some ((acc @ take n rest) @ drop n rest)), s') \<and> ok s' \<and> content s' = content s1"
      by (rule Suc.IH) (use r Suc.prems False in auto)
    ultimately show ?thesis using r False
      by (auto simp: act_bind_def checked_call_def check_error_def py_str_def act_lift_def)
  qed
qed simp

end

section \<open>A runtime with files\<close>

definition file_error :: "jobj" where
  "file_error = [(''error'', JStr ''invalid file action'')]"

definition stat_result :: "string \<Rightarrow> byte list \<Rightarrow> jobj" where
  "stat_result path dat =
     [(''name'', JStr (py_basename path)), (''path'', JStr path), (''type'', JStr ''file''),
      (''size'', JInt (int (length dat))), (''permissions'', JStr ''rw-r--r--''), (''modified_time'', JFloat 0)]"

definition write_result :: "string \<Rightarrow> int \<Rightarrow> byte list \<Rightarrow> (string \<rightharpoonup> byte list) \<Rightarrow> jobj \<times> (string \<rightharpoonup> byte list)" where
  "write_result path offset chunk files =
     (let old = (if offset = 0 then [] else case files path of None \<Rightarrow> [] | Some b \<Rightarrow> b) in
      if offset < 0 \<or> int (length old) < offset then (file_error, files)
      else ([(''bytes_written'', JInt (int (length chunk)))],
            files(path \<mapsto> take (nat offset) old @ chunk @ drop (nat offset + length chunk) old)))"

definition read_result :: "byte list \<Rightarrow> int \<Rightarrow> int \<Rightarrow> jobj" where
  "read_result dat offset limit =
     (let chunk = take (nat limit) (drop (nat offset) dat) in
      [(''data'', JStr (hex_of chunk)), (''bytes_read'', JInt (int (length chunk))),
       (''eof'', JBool (int (length dat) \<le> offset + limit))])"

definition file_actions :: "(string \<rightharpoonup> byte list) rpc" where
  "file_actions action args files =
     (case jget args ''path'' of
        JStr path \<Rightarrow>
          if action = ''file.write_chunk'' then
            (case (jget args ''offset'', jget args ''data'') of
               (JInt offset, JStr dat) \<Rightarrow>
                 (case from_hex dat of None \<Rightarrow> (file_error, files) | Some chunk \<Rightarrow> write_result path offset chunk files)
             | _ \<Rightarrow> (file_error, files))
          else
            case files path of
              None \<Rightarrow> (file_error, files)
            | Some dat \<Rightarrow>
                if action = ''file.stat'' then (stat_result path dat, files)
                else if action = ''file.remove'' then ([], files(path := None))
                else if action = ''file.read_chunk'' then
                  (case (jget args ''offset'', jget args ''limit'') of
                     (JInt offset, JInt limit) \<Rightarrow> (read_result dat offset limit, files)
                   | _ \<Rightarrow> (file_error, files))
                else (file_error, files)
      | _ \<Rightarrow> (file_error, files))"

lemma with_client_invoke [simp]: "h_invoke (with_client ops fuel os) = invoke ops"
  by (simp add: with_client_def)

lemma fs_call_runtime:
  assumes "frontend_only s" "file_actions action args (state_of s) = (res, files)"
  shows "\<exists>s'. fs_call (with_client (runtime_ops file_actions) fuel os) sid action args s = (Inr res, s')
    \<and> frontend_only s' \<and> state_of s' = files"
  using invoke_runtime [of s file_actions, OF assms] by (auto simp: fs_call_def)

interpretation rpc_files: file_rpc "with_client (runtime_ops file_actions) fuel os" sid frontend_only state_of
  for fuel os sid
proof (unfold_locales, goal_cases)
  case (1 s offset path chunk)
  let ?old = "if offset = 0 then [] else the (state_of s path)"
  have "file_actions ''file.write_chunk''
      [(''path'', JStr path), (''offset'', JInt (int offset)), (''data'', JStr (hex_of chunk))] (state_of s)
    = ([(''bytes_written'', JInt (int (length chunk)))], (state_of s)(path \<mapsto> ?old @ chunk))"
    using 1(2) by (auto simp: file_actions_def write_result_def Let_def)
  from fs_call_runtime [OF 1(1) this] show ?case
    by (fastforce simp: jget_or_def jint_def int_of_json_def)
next
  case (2 s path dat offset limit)
  have "file_actions ''file.read_chunk''
      [(''path'', JStr path), (''offset'', JInt (int offset)), (''limit'', JInt (int limit))] (state_of s)
    = (read_result dat (int offset) (int limit), state_of s)"
    using 2 by (simp add: file_actions_def)
  from fs_call_runtime [OF 2(1) this] obtain s' where
    "fs_call (with_client (runtime_ops file_actions) fuel os) sid ''file.read_chunk''
       [(''path'', JStr path), (''offset'', JInt (int offset)), (''limit'', JInt (int limit))] s
     = (Inr (read_result dat (int offset) (int limit)), s')" "frontend_only s'" "state_of s' = state_of s"
    by blast
  with 2(4) show ?case
    by (intro exI [of _ "read_result dat (int offset) (int limit)"] exI [of _ s'] exI [of _ limit])
      (auto simp: read_result_def Let_def jget_or_def jint_def int_of_json_def)
next
  case (3 s path dat)
  have "file_actions ''file.stat'' [(''path'', JStr path)] (state_of s) = (stat_result path dat, state_of s)"
    using 3 by (simp add: file_actions_def)
  from fs_call_runtime [OF 3(1) this] show ?case
    by (fastforce simp: stat_result_def entry_of_def jindex_def)
qed

section \<open>Reading what was written\<close>

definition rpc_host :: "nat \<Rightarrow> (string \<rightharpoonup> byte list) runtime session file_host \<Rightarrow> (string \<rightharpoonup> byte list) runtime session file_host" where
  "rpc_host fuel os = with_client (runtime_ops file_actions) fuel os"

lemma direct_query [simp]:
  "frontend_only s \<Longrightarrow> fh_direct_enabled (with_client ops fuel os) s = (Inr False, s)"
  by (simp add: with_client_def frontend_only_def act_bind_def)

text \<open>
  C31: Files over RPC refine a map from paths to contents. For a client without the direct route, on a
  runtime that keeps files, \<open>write\<close> of any payload, of any size, succeeds with an entry of the right
  size and updates the map at that path only, and a later \<open>read\<close> of the bytes returns exactly the
  payload and changes no file.
\<close>

theorem write_then_read:
  assumes "frontend_only s" "length (payload_bytes dat) < fuel"
  shows "\<exists>e s1 s2. fs_write (rpc_host n os) sid path dat s = (Inr e, s1)
    \<and> ei_size e = JInt (int (length (payload_bytes dat)))
    \<and> state_of s1 = (state_of s)(path \<mapsto> payload_bytes dat)
    \<and> fs_read fuel (rpc_host n os) sid path ''bytes'' s1 = (Inr (Some (BytesData (payload_bytes dat))), s2)
    \<and> state_of s2 = state_of s1"
proof -
  obtain e s1 where w: "write_rpc_chunks (rpc_host n os) sid path ([payload_bytes dat], None) s = (Inr e, s1)"
    "ei_size e = JInt (int (length (payload_bytes dat)))" "frontend_only s1"
    "state_of s1 = (state_of s)(path \<mapsto> payload_bytes dat)"
    using rpc_files.write_rpc_chunks_updates [OF assms(1), of n os sid path "[payload_bytes dat]"]
    by (auto simp: rpc_host_def)
  moreover obtain s2 where "read_rpc_chunks fuel (rpc_host n os) sid path [] s1
      = (Inr (Some (payload_bytes dat)), s2)" "state_of s2 = state_of s1"
    using rpc_files.read_rpc_chunks_looks_up [OF w(3), of path "[]" "payload_bytes dat" fuel n os sid] w(4) assms(2)
    by (auto simp: rpc_host_def)
  ultimately show ?thesis using assms(1)
    by (auto simp: fs_write_def fs_read_def fs_read_bytes_def rpc_host_def act_bind_def act_return_def Let_def)
qed

definition files_session :: "(string \<rightharpoonup> byte list) runtime session" where
  "files_session =
     \<lparr>se_client = sample_client, se_world = \<lparr>rt_state = Map.empty, rt_ids = 0\<rparr>, se_log = [], se_answers = [],
      se_files = Map.empty\<rparr>"

definition rpc_session :: "(string \<rightharpoonup> byte list) runtime session" where
  "rpc_session = files_session\<lparr>se_client := sample_client\<lparr>cl_direct_enabled := False\<rparr>\<rparr>"

theorem write_then_read_witness:
  "\<forall>n os. \<exists>e s1 s2. fs_write (rpc_host n os) ''sb'' ''/tmp/a'' (TextData ''hi'') rpc_session = (Inr e, s1)
    \<and> ei_size e = JInt 2 \<and> state_of s1 = [''/tmp/a'' \<mapsto> [104, 105]]
    \<and> fs_read 3 (rpc_host n os) ''sb'' ''/tmp/a'' ''bytes'' s1 = (Inr (Some (BytesData [104, 105])), s2)
    \<and> state_of s2 = state_of s1"
proof (intro allI)
  fix n os
  have p: "payload_bytes (TextData ''hi'') = [104, 105]"
    by (simp add: payload_bytes_def utf8_encode_def Let_def)
  show "\<exists>e s1 s2. fs_write (rpc_host n os) ''sb'' ''/tmp/a'' (TextData ''hi'') rpc_session = (Inr e, s1)
    \<and> ei_size e = JInt 2 \<and> state_of s1 = [''/tmp/a'' \<mapsto> [104, 105]]
    \<and> fs_read 3 (rpc_host n os) ''sb'' ''/tmp/a'' ''bytes'' s1 = (Inr (Some (BytesData [104, 105])), s2)
    \<and> state_of s2 = state_of s1"
    using write_then_read [of rpc_session "TextData ''hi''" 3 n os "''sb''" "''/tmp/a''"] unfolding p
    by (simp add: frontend_only_def rpc_session_def files_session_def state_of_def)
qed

section \<open>Unpacking an archive\<close>

text \<open>
  What \<open>tarfile\<close> and \<open>os.path.realpath\<close> do to the local files: resolving a path changes nothing,
  extracting a member changes at most the file its joined path resolves to. \<open>files\<close> are the local
  files, \<open>resolve\<close> the resolution of paths, which may depend on the links extracted before.
\<close>

locale extractor =
  fixes h :: "'s file_host" and files :: "'s \<Rightarrow> string \<rightharpoonup> byte list" and resolve :: "'s \<Rightarrow> string \<Rightarrow> string"
  assumes realpath_law: "\<exists>s'. fh_realpath h p s = (Inr (resolve s p), s') \<and> files s' = files s
      \<and> resolve s' = resolve s"
    and extract_law: "\<lbrakk>fh_extract h m dest s = (r, s'); q \<noteq> resolve s (path_join dest (fst m))\<rbrakk>
      \<Longrightarrow> files s' q = files s q"
begin

lemma extract_members_inside:
  assumes "extract_members h dest_real dest ms s = (r, s')" "\<not> inside dest_real q"
  shows "files s' q = files s q"
  using assms
proof (induction ms arbitrary: s)
  case Nil
  then show ?case by (simp add: act_return_def)
next
  case (Cons m ms)
  obtain s1 where rp: "fh_realpath h (path_join dest (fst m)) s = (Inr (resolve s (path_join dest (fst m))), s1)"
      "files s1 = files s" "resolve s1 = resolve s"
    using realpath_law by blast
  show ?case
  proof (cases "inside dest_real (resolve s (path_join dest (fst m)))")
    case True
    then have "q \<noteq> resolve s1 (path_join dest (fst m))" using Cons.prems(2) rp(3) by auto
    moreover obtain e s2 where ex: "fh_extract h m dest s1 = (e, s2)" by fastforce
    ultimately have "files s2 q = files s q" using extract_law rp(2) by metis
    with Cons True rp ex show ?thesis by (auto simp: act_bind_def split: sum.splits)
  qed (use Cons.prems rp in \<open>auto simp: act_bind_def act_raise_def\<close>)
qed

lemma safe_extract_inside:
  assumes "safe_extract_tar h members dest s = (r, s')" "\<not> inside (resolve s dest) q"
  shows "files s' q = files s q"
proof -
  obtain s1 where "fh_realpath h dest s = (Inr (resolve s dest), s1)" "files s1 = files s"
    using realpath_law by blast
  with assms extract_members_inside show ?thesis by (fastforce simp: safe_extract_tar_def act_bind_def)
qed

end

text \<open>
  The local files of a session without links: paths are resolved by dropping empty and \<open>.\<close>
  components and popping at \<open>..\<close>, relative ones from the root.
\<close>

definition push_part :: "string list \<Rightarrow> string \<Rightarrow> string list" where
  "push_part acc p = (if p = [] \<or> p = ''.'' then acc else if p = ''..'' then butlast acc else acc @ [p])"

definition lexical_realpath :: "string \<Rightarrow> string" where
  "lexical_realpath p =
     (let parts = foldl push_part [] (split_on (CHR ''/'') p) in
      if parts = [] then ''/'' else concat (map (\<lambda>part. CHR ''/'' # part) parts))"

definition extract_file :: "string \<times> byte list \<Rightarrow> string \<Rightarrow> ('w, unit) act" where
  "extract_file m dest s =
     (Inr (), s\<lparr>se_files := (se_files s)(lexical_realpath (path_join dest (fst m)) \<mapsto> snd m)\<rparr>)"

definition with_local :: "'w session file_host \<Rightarrow> 'w session file_host" where
  "with_local os =
     os\<lparr>fh_read_file := (\<lambda>p s. (case se_files s p of None \<Rightarrow> (Inl (FileNotFoundError p), s) | Some b \<Rightarrow> (Inr b, s))),
        fh_write_file := (\<lambda>p b s. (Inr (), s\<lparr>se_files := (se_files s)(p \<mapsto> b)\<rparr>)),
        fh_replace := replace_file,
        fh_unlink := (\<lambda>p s. (Inr (), s\<lparr>se_files := (se_files s)(p := None)\<rparr>)),
        fh_exists := (\<lambda>p s. (Inr (se_files s p \<noteq> None), s)),
        fh_realpath := (\<lambda>p. act_return (lexical_realpath p)),
        fh_extract := extract_file\<rparr>"

interpretation local_files: extractor "with_client ops fuel (with_local os)" se_files "\<lambda>_. lexical_realpath"
  for ops fuel os
  by unfold_locales (auto simp: with_client_def with_local_def act_return_def extract_file_def)

text \<open>The destination itself, and what further path components name below it.\<close>

definition below :: "string \<Rightarrow> string \<Rightarrow> bool" where
  "below dest path \<longleftrightarrow> (\<exists>names. path = dest @ concat (map (\<lambda>name. CHR ''/'' # name) names))"

lemma concat_components: "concat (map (\<lambda>name. CHR ''/'' # name) (split_on (CHR ''/'') s)) = CHR ''/'' # s"
proof (induction s)
  case (Cons c s)
  obtain w ws where "split_on (CHR ''/'') s = w # ws" by (cases "split_on (CHR ''/'') s") auto
  with Cons show ?case by auto
qed simp

lemma inside_below:
  assumes "inside dest path"
  shows "below dest path"
proof (cases "path = dest")
  case True
  then have "path = dest @ concat (map (\<lambda>name. CHR ''/'' # name) [])" by simp
  then show ?thesis unfolding below_def by blast
next
  case False
  let ?rest = "drop (Suc (length dest)) path"
  from False assms have "take (Suc (length dest)) path = dest @ ''/''" by (simp add: inside_def)
  then have "path = (dest @ ''/'') @ ?rest" by (metis append_take_drop_id)
  then have "path = dest @ concat (map (\<lambda>name. CHR ''/'' # name) (split_on (CHR ''/'') ?rest))"
    by (simp add: concat_components)
  then show ?thesis unfolding below_def by blast
qed



end
