(* ===== verification/Pty.thy ===== *)
theory Pty
  imports NetTypes ShellWords Urls
begin

text \<open>
  \<open>pty.py\<close> and \<open>_pty_transport.py\<close>: interactive terminals over a WebSocket. The transport runs a
  thread; its state machine has one step per event of the connection, interleaved with the calls of
  the client. Between two events the thread waits, so a step is atomic.
\<close>

section \<open>Arguments\<close>

text \<open>A command is a string, a sequence, or anything else; Python values are given as JSON.\<close>

datatype pty_command = CommandText string | CommandSeq "json list" | CommandOther

definition validate_size :: "string \<Rightarrow> json \<Rightarrow> int result" where
  "validate_size name v =
     (case as_strict_int v of
        None \<Rightarrow> Inl (TypeError (name @ '' must be an integer''))
      | Some n \<Rightarrow> if n \<le> 0 then Inl (ValueError (name @ '' must be greater than zero'')) else Inr n)"

definition non_empty_args :: "json list \<Rightarrow> string list result" where
  "non_empty_args arguments =
     (case all_some (map as_str arguments) of
        Some ws \<Rightarrow>
          if ws = [] \<or> [] \<in> set ws
          then Inl (ValueError ''command must contain at least one non-empty argument'') else Inr ws
      | None \<Rightarrow> Inl (ValueError ''command must contain at least one non-empty argument''))"

definition normalize_command :: "pty_command \<Rightarrow> string list result" where
  "normalize_command command =
     (case command of
        CommandText s \<Rightarrow>
          (case shlex_split s of
             Inl _ \<Rightarrow> Inl (ValueError ''invalid PTY command'')
           | Inr ws \<Rightarrow> non_empty_args (map JStr ws))
      | CommandSeq xs \<Rightarrow> non_empty_args xs
      | CommandOther \<Rightarrow> Inl (TypeError ''command must be a string or a sequence of strings''))"

definition env_stripped :: "env \<Rightarrow> string \<Rightarrow> string" where
  "env_stripped environ name = py_strip (case environ name of None \<Rightarrow> [] | Some v \<Rightarrow> v)"

definition use_tls :: "env \<Rightarrow> ConnectionConfig option \<Rightarrow> bool" where
  "use_tls environ connection =
     (case connection of
        Some c \<Rightarrow> if cc_gateway_address c \<noteq> None then cc_gateway_use_tls c else cc_use_tls c
      | None \<Rightarrow>
          (let raw = (if env_stripped environ ''YR_GATEWAY_ADDRESS'' \<noteq> []
                      then case environ ''YR_GATEWAY_TLS'' of None \<Rightarrow> ''0'' | Some v \<Rightarrow> v
                      else case environ ''YR_TLS'' of None \<Rightarrow> ''1'' | Some v \<Rightarrow> v)
           in py_lower (py_strip raw) \<notin> {''0'', ''false'', ''no''}))"

text \<open>The server and the token of \<open>create\<close>.\<close>

definition pty_target :: "env \<Rightarrow> ConnectionConfig option \<Rightarrow> (string \<times> string) result" where
  "pty_target environ connection =
     (case connection of
        Some c \<Rightarrow>
          Inr (case cc_gateway_address c of
                 Some (d # g) \<Rightarrow> d # g | _ \<Rightarrow> cc_server_address c,
               cc_token c)
      | None \<Rightarrow>
          (let token = env_stripped environ ''YR_TOKEN'';
               gateway = env_stripped environ ''YR_GATEWAY_ADDRESS'';
               server = (if gateway \<noteq> [] then gateway else env_stripped environ ''YR_SERVER_ADDRESS'') in
           if token = [] then Inl (RuntimeError ''YR_TOKEN is not set'')
           else if server = [] then Inl (RuntimeError ''YR_GATEWAY_ADDRESS or YR_SERVER_ADDRESS is not set'')
           else Inr (server, token)))"

section \<open>The address\<close>

definition remove_prefix :: "string \<Rightarrow> string \<Rightarrow> string" where
  "remove_prefix p s = (if starts_with p s then drop (length p) s else s)"

definition pty_parameters :: "string \<Rightarrow> string \<Rightarrow> string list \<Rightarrow> int \<Rightarrow> int \<Rightarrow> (string \<times> string) list" where
  "pty_parameters instance_id token command rows cols =
     [(''instance'', instance_id), (''tenant_id'', ''default''), (''token'', token), (''tty'', ''true''),
      (''rows'', str_int rows), (''cols'', str_int cols), (''protocol'', ''sandbox.pty.v1'')]
     @ map (\<lambda>argument. (''command'', argument)) command"

definition build_pty_uri ::
  "string \<Rightarrow> bool \<Rightarrow> string \<Rightarrow> string \<Rightarrow> string list \<Rightarrow> int \<Rightarrow> int \<Rightarrow> string" where
  "build_pty_uri server tls instance_id token command rows cols =
     (let authority = rstrip_by (\<lambda>c. c = CHR ''/'')
            (remove_prefix ''http://'' (remove_prefix ''https://'' server)) in
      (if tls then ''wss'' else ''ws'') @ ''://'' @ authority @ ''/terminal/ws?''
      @ urlencode (pty_parameters instance_id token command rows cols))"

text \<open>
  What \<open>Pty.create\<close> connects to: its checks in their order, then the address. \<open>callback\<close> and
  \<open>timeout\<close> are the outcomes of the checks of those two arguments.
\<close>

definition pty_create_uri ::
  "env \<Rightarrow> ConnectionConfig option \<Rightarrow> string \<Rightarrow> pty_command \<Rightarrow> json \<Rightarrow> json \<Rightarrow> unit result \<Rightarrow> unit result
     \<Rightarrow> string result" where
  "pty_create_uri environ connection instance_id command rows cols callback timeout =
     bind_result (normalize_command command) (\<lambda>arguments.
     bind_result (validate_size ''rows'' rows) (\<lambda>rows.
     bind_result (validate_size ''cols'' cols) (\<lambda>cols.
     bind_result callback (\<lambda>_.
     bind_result timeout (\<lambda>_.
     bind_result (pty_target environ connection) (\<lambda>(server, token).
       Inr (build_pty_uri server (use_tls environ connection) instance_id token arguments rows cols)))))))"

definition check_timeout :: "json \<Rightarrow> unit result" where
  "check_timeout v =
     (case v of
        JInt n \<Rightarrow> if n \<le> 0 then Inl (ValueError ''timeout must be greater than zero'') else Inr ()
      | JFloat q \<Rightarrow> if q \<le> 0 then Inl (ValueError ''timeout must be greater than zero'') else Inr ()
      | _ \<Rightarrow> Inl (TypeError ''timeout must be a number''))"

text \<open>
  C33: A command line of quoted arguments is the list of the arguments. For every list of strings,
  whatever characters they hold, \<open>create\<close> given the arguments quoted by \<open>shlex.quote\<close> and joined by
  spaces accepts or refuses, and runs, the same as \<open>create\<close> given the list.
\<close>

theorem quoted_command_is_list:
  "normalize_command (CommandText (join_with '' '' (map shell_quote args)))
   = normalize_command (CommandSeq (map JStr args))"
  by (simp add: normalize_command_def split_quoted)

end
