(* ===== verification/SandboxConfig.thy ===== *)
theory SandboxConfig
  imports TransportLifecycle Scheduling Pty "HOL-Library.Sublist"
begin

text \<open>
  The first half of \<open>sandbox_api.py\<close>: time budgets, gateway addresses, the checks of
  \<open>Sandbox.__init__\<close> in their order, and the body of the create request. Arguments that Python checks
  by \<open>isinstance\<close> are given as JSON values or as \<open>obj_arg\<close> and \<open>seq_arg\<close>.
\<close>

section \<open>Time budgets\<close>

definition DEFAULT_SCHEDULE_TIMEOUT :: int where "DEFAULT_SCHEDULE_TIMEOUT = 30"
definition INIT_CALL_TIMEOUT :: int where "INIT_CALL_TIMEOUT = 30"
definition CREATE_TIMEOUT_BUFFER :: int where "CREATE_TIMEOUT_BUFFER = 30"
definition CREATE_TIMEOUT_RESERVE :: int where
  "CREATE_TIMEOUT_RESERVE = INIT_CALL_TIMEOUT + CREATE_TIMEOUT_BUFFER"

definition positive_int :: "string \<Rightarrow> json \<Rightarrow> int result" where
  "positive_int msg v =
     (case as_strict_int v of
        None \<Rightarrow> Inl (ValueError msg) | Some n \<Rightarrow> if n \<le> 0 then Inl (ValueError msg) else Inr n)"

definition get_create_timeout :: "env \<Rightarrow> json \<Rightarrow> int result" where
  "get_create_timeout environ timeout =
     bind_result
       (if timeout \<noteq> JNull then Inr timeout
        else
          case environ ''YR_SANDBOX_CREATE_TIMEOUT'' of
            None \<Rightarrow> Inl (KeyError ''YR_SANDBOX_CREATE_TIMEOUT'')
          | Some raw \<Rightarrow>
              (case py_int (py_strip raw) of
                 None \<Rightarrow> Inl (ValueError ''YR_SANDBOX_CREATE_TIMEOUT must be an integer number of seconds'')
               | Some n \<Rightarrow> Inr (JInt n)))
       (positive_int ''create_timeout must be a positive integer'')"

definition resolve_create_timeouts :: "env \<Rightarrow> json \<Rightarrow> json \<Rightarrow> (int \<times> int) result" where
  "resolve_create_timeouts environ create_timeout schedule_timeout =
     bind_result
       (if schedule_timeout = JNull then Inr DEFAULT_SCHEDULE_TIMEOUT
        else positive_int ''schedule_timeout must be a positive integer'' schedule_timeout) (\<lambda>schedule.
     bind_result
       (if create_timeout = JNull \<and> environ ''YR_SANDBOX_CREATE_TIMEOUT'' = None
        then Inr (schedule + CREATE_TIMEOUT_RESERVE)
        else get_create_timeout environ create_timeout) (\<lambda>create.
       if schedule > create
       then Inl (ValueError ''schedule_timeout must be less than or equal to create_timeout'')
       else
         let remaining = create - schedule in
         if remaining < CREATE_TIMEOUT_BUFFER
         then Inl (ValueError ''create_timeout - schedule_timeout must be at least 30'')
         else if remaining < CREATE_TIMEOUT_RESERVE then Inr (schedule + CREATE_TIMEOUT_RESERVE, schedule)
         else Inr (create, schedule)))"

text \<open>\<open>py_float\<close> is \<open>float\<close> of a string, None where it raises; the default \<open>60\<close> is read as 60.\<close>

definition get_tunnel_connect_timeout :: "env \<Rightarrow> (string \<Rightarrow> rat option) \<Rightarrow> rat option \<Rightarrow> rat result" where
  "get_tunnel_connect_timeout environ py_float timeout =
     bind_result
       (case timeout of
          Some t \<Rightarrow> Inr t
        | None \<Rightarrow>
            (case environ ''YR_TUNNEL_CONNECT_TIMEOUT'' of
               None \<Rightarrow> Inr 60
             | Some raw \<Rightarrow>
                 (case py_float raw of
                    None \<Rightarrow> Inl (ValueError ''YR_TUNNEL_CONNECT_TIMEOUT must be a number of seconds'')
                  | Some t \<Rightarrow> Inr t)))
       (\<lambda>t. if t \<le> 0 then Inl (ValueError ''tunnel_connect_timeout must be greater than 0'') else Inr t)"

section \<open>Gateway addresses\<close>

text \<open>\<open>urllib.parse.urlparse\<close>: the scheme, the path and the query.\<close>

definition scheme_char :: "char \<Rightarrow> bool" where
  "scheme_char c \<longleftrightarrow>
     (let n = of_char c :: nat in
      (48 \<le> n \<and> n \<le> 57) \<or> (65 \<le> n \<and> n \<le> 90) \<or> (97 \<le> n \<and> n \<le> 122) \<or> c \<in> {CHR ''+'', CHR ''-'', CHR ''.''})"

definition split_scheme :: "string \<Rightarrow> string \<times> string" where
  "split_scheme url =
     (let s = takeWhile (\<lambda>c. c \<noteq> CHR '':'') url; n = of_char (hd s) :: nat in
      if length s < length url \<and> s \<noteq> [] \<and> ((65 \<le> n \<and> n \<le> 90) \<or> (97 \<le> n \<and> n \<le> 122)) \<and> list_all scheme_char s
      then (py_lower s, drop (Suc (length s)) url) else ([], url))"

definition drop_netloc :: "string \<Rightarrow> string" where
  "drop_netloc rest =
     (if starts_with ''//'' rest then dropWhile (\<lambda>c. c \<notin> {CHR ''/'', CHR ''?'', CHR ''#''}) (drop 2 rest) else rest)"

definition before_char :: "char \<Rightarrow> string \<Rightarrow> string" where
  "before_char d s = takeWhile (\<lambda>c. c \<noteq> d) s"

definition USES_PARAMS :: "string list" where
  "USES_PARAMS = [[], ''ftp'', ''hdl'', ''prospero'', ''http'', ''https'', ''shttp'', ''rtsp'', ''rtsps'', ''rtspu'',
     ''sip'', ''sips'', ''mms'', ''sftp'', ''tel'']"

text \<open>Parameters are cut off the last segment of the path.\<close>

definition drop_params :: "string \<Rightarrow> string" where
  "drop_params path =
     (let leaf = rev (takeWhile (\<lambda>c. c \<noteq> CHR ''/'') (rev path)) in
      take (length path - length leaf) path @ before_char (CHR '';'') leaf)"

definition urlparse :: "string \<Rightarrow> string \<times> string" where
  "urlparse url =
     (let url = filter (\<lambda>c. c \<notin> {CHR 9, CHR 10, CHR 13}) (dropWhile (\<lambda>c. (of_char c :: nat) \<le> 32) url);
          (scheme, rest) = split_scheme url;
          rest = before_char (CHR ''#'') (drop_netloc rest);
          path = before_char (CHR ''?'') rest;
          query = drop (Suc (length path)) rest in
      (if scheme \<in> set USES_PARAMS then drop_params path else path, query))"

definition compose_gateway_url :: "string \<Rightarrow> string \<Rightarrow> string \<Rightarrow> string result" where
  "compose_gateway_url gateway scheme path =
     (if gateway = [] then Inl (ValueError ''YR_GATEWAY_ADDRESS or YR_SERVER_ADDRESS must be set'')
      else
        let (parsed_path, query) = urlparse path;
            route = (if parsed_path \<noteq> [] then parsed_path else path);
            route = (if query \<noteq> [] then route @ ''?'' @ query else route);
            route = (if starts_with ''/'' route then route else ''/'' @ route)
        in Inr (scheme @ ''://'' @ gateway @ route))"

definition gateway_address :: "env \<Rightarrow> ConnectionConfig option \<Rightarrow> string result" where
  "gateway_address environ connection =
     (case connection of
        Some c \<Rightarrow> Inr (case cc_gateway_address c of Some (d # g) \<Rightarrow> d # g | _ \<Rightarrow> cc_server_address c)
      | None \<Rightarrow>
          (let gateway = env_stripped environ ''YR_GATEWAY_ADDRESS'';
               server = (if gateway \<noteq> [] then gateway else env_stripped environ ''YR_SERVER_ADDRESS'') in
           if server = [] then Inl (ValueError ''YR_GATEWAY_ADDRESS or YR_SERVER_ADDRESS must be set'')
           else Inr server))"

definition gateway_uses_tls :: "env \<Rightarrow> ConnectionConfig option \<Rightarrow> bool" where
  "gateway_uses_tls environ connection =
     (case connection of
        Some c \<Rightarrow> cc_gateway_use_tls c
      | None \<Rightarrow>
          py_lower (py_strip (case environ ''YR_GATEWAY_TLS'' of None \<Rightarrow> ''0'' | Some v \<Rightarrow> v))
            \<in> {''1'', ''true'', ''yes''})"

text \<open>\<open>get_port_url\<close>.\<close>

definition port_url ::
  "env \<Rightarrow> ConnectionConfig option \<Rightarrow> int list \<Rightarrow> string \<Rightarrow> int \<Rightarrow> string result" where
  "port_url environ connection forwarded sid port =
     (if port \<notin> set forwarded then Inl (ValueError ''Port is not in forwarded ports'')
      else
        bind_result (gateway_address environ connection) (\<lambda>gateway.
          let setting = (\<lambda>name dflt. py_lower (py_strip (case environ name of None \<Rightarrow> dflt | Some v \<Rightarrow> v))
                           \<notin> {''0'', ''false'', ''no''});
              tls = (if connection \<noteq> None then gateway_uses_tls environ connection
                     else if env_stripped environ ''YR_GATEWAY_ADDRESS'' \<noteq> [] then setting ''YR_GATEWAY_TLS'' ''0''
                     else setting ''YR_TLS'' ''1'')
          in Inr ((if tls then ''https'' else ''http'') @ ''://'' @ gateway @ ''/'' @ safe_id sid @ ''/'' @ str_int port)))"

section \<open>Accelerators\<close>

definition SUPPORTED_XPU_TYPES :: "string list" where "SUPPORTED_XPU_TYPES = [''gpu'', ''npu'']"

definition validate_xpu :: "json \<Rightarrow> unit result" where
  "validate_xpu xpu =
     (case xpu of
        JNull \<Rightarrow> Inr ()
      | JStr s \<Rightarrow>
          (let fields = split_on (CHR '':'') s in
           if length fields \<noteq> 3 \<or> fields ! 0 = [] \<or> fields ! 2 = []
           then Inl (ValueError ''xpu must have exactly three fields: type:model:count'')
           else if \<not> list_all (\<lambda>f. f = py_strip f) fields
           then Inl (ValueError ''xpu fields must not contain surrounding whitespace'')
           else if py_lower (fields ! 0) \<notin> set SUPPORTED_XPU_TYPES then Inl (ValueError ''unsupported xpu type'')
           else if \<not> list_all is_dec_digit (fields ! 2) \<or> dec_value (fields ! 2) = 0
           then Inl (ValueError ''xpu count must be a positive integer'')
           else Inr ())
      | _ \<Rightarrow> Inl (TypeError ''xpu must be a string or None''))"

section \<open>The arguments of \<open>Sandbox\<close>\<close>

datatype port_arg = PortNumber json | PortForwarding json

record sandbox_args =
  sb_image :: json
  sb_rootfs :: "S3Config obj_arg"
  sb_runtime :: json
  sb_cpu :: json
  sb_memory :: json
  sb_cpu_limit :: json
  sb_mem_limit :: json
  sb_idle_timeout :: json
  sb_schedule_timeout :: json
  sb_env :: json
  sb_name :: json
  sb_cwd :: json
  sb_ports :: "port_arg seq_arg option"
  sb_mounts :: "Mount obj_arg seq_arg option"
  sb_upstream :: json
  sb_proxy_port :: json
  sb_tunnel_connect_timeout :: "rat option"
  sb_detached :: json
  sb_node_id :: json
  sb_affinities :: "ScheduleAffinity obj_arg seq_arg option"
  sb_snapshot_id :: json
  sb_failover :: json
  sb_inherit_entrypoint :: json
  sb_xpu :: json
  sb_storage_mb :: json
  sb_storage_limit_mb :: json
  sb_network :: "NetworkPolicy obj_arg"
  sb_create_timeout :: json
  sb_connection :: "ConnectionConfig obj_arg"
  sb_extra_config :: jobj
  sb_resource_fields :: "string list option"

text \<open>A chain of checks: the first whose condition holds raises.\<close>

fun guards :: "(bool \<times> py_exc) list \<Rightarrow> unit result" where
  "guards [] = Inr ()"
| "guards ((bad, e) # rest) = (if bad then Inl e else guards rest)"

lemma guards_ok: "guards cs = Inr () \<longleftrightarrow> (\<forall>(bad, e)\<in>set cs. \<not> bad)"
  by (induction cs rule: guards.induct) auto

text \<open>\<open>not isinstance(v, str) or not v.strip()\<close>.\<close>

definition blank_or_other :: "json \<Rightarrow> bool" where
  "blank_or_other v = (case v of JStr s \<Rightarrow> py_strip s = [] | _ \<Rightarrow> True)"

definition is_bool :: "json \<Rightarrow> bool" where "is_bool v = (case v of JBool _ \<Rightarrow> True | _ \<Rightarrow> False)"
definition is_str :: "json \<Rightarrow> bool" where "is_str v = (as_str v \<noteq> None)"
definition is_int :: "json \<Rightarrow> bool" where "is_int v = (as_strict_int v \<noteq> None)"
definition int_of :: "json \<Rightarrow> int" where "int_of v = (case as_strict_int v of Some n \<Rightarrow> n | None \<Rightarrow> 0)"
definition str_of :: "json \<Rightarrow> string" where "str_of v = (case as_str v of Some s \<Rightarrow> s | None \<Rightarrow> [])"

definition str_mapping :: "json \<Rightarrow> bool" where
  "str_mapping v = (case v of JObj ob \<Rightarrow> list_all (\<lambda>(k, x). is_str x) ob | _ \<Rightarrow> False)"

definition wrong_obj :: "'a obj_arg \<Rightarrow> bool" where
  "wrong_obj arg = (case arg of OtherObj _ \<Rightarrow> True | _ \<Rightarrow> False)"

definition obj_value :: "'a obj_arg \<Rightarrow> 'a option" where
  "obj_value arg = (case arg of TheObj x \<Rightarrow> Some x | _ \<Rightarrow> None)"

definition checks_before_affinities :: "sandbox_args \<Rightarrow> unit result" where
  "checks_before_affinities a =
     guards
       [(sb_image a \<noteq> JNull \<and> blank_or_other (sb_image a), ValueError ''image must be a non-empty string''),
        (wrong_obj (sb_rootfs a), TypeError ''rootfs must be an S3Config''),
        (sb_image a \<noteq> JNull \<and> sb_rootfs a \<noteq> NoObj, ValueError ''image and rootfs are mutually exclusive''),
        (blank_or_other (sb_runtime a), ValueError ''runtime must be a non-empty string''),
        (sb_snapshot_id a \<noteq> JNull \<and> blank_or_other (sb_snapshot_id a),
           ValueError ''snapshot_id must be a non-empty string''),
        (\<not> is_bool (sb_failover a), TypeError ''failover must be a boolean''),
        (\<not> is_bool (sb_inherit_entrypoint a), TypeError ''inherit_entrypoint must be a boolean''),
        (sb_inherit_entrypoint a = JBool True \<and> sb_image a = JNull,
           ValueError ''inherit_entrypoint requires an image rootfs''),
        (sb_inherit_entrypoint a = JBool True \<and> sb_snapshot_id a \<noteq> JNull,
           ValueError ''inherit_entrypoint cannot be combined with snapshot_id''),
        (sb_env a \<noteq> JNull \<and> \<not> str_mapping (sb_env a), TypeError ''env must map strings to strings''),
        (sb_name a \<noteq> JNull \<and> blank_or_other (sb_name a), ValueError ''name must be a non-empty string''),
        (sb_cwd a \<noteq> JNull \<and> \<not> is_str (sb_cwd a), TypeError ''cwd must be a string''),
        (sb_cwd a \<noteq> JNull \<and> \<not> starts_with ''/'' (str_of (sb_cwd a)),
           ValueError ''cwd must be an absolute POSIX path''),
        (\<not> is_bool (sb_detached a), TypeError ''detached must be a boolean''),
        (sb_node_id a \<noteq> JNull \<and> \<not> is_str (sb_node_id a), TypeError ''node_id must be a string''),
        (sb_node_id a \<noteq> JNull \<and> py_strip (str_of (sb_node_id a)) = [],
           ValueError ''node_id cannot be empty string'')]"

definition checks_of_storage :: "sandbox_args \<Rightarrow> unit result" where
  "checks_of_storage a =
     (let mb = sb_storage_mb a; limit = sb_storage_limit_mb a in
      guards
        [(mb \<noteq> JNull \<and> \<not> is_int mb, TypeError ''storage_mb must be an integer or None''),
         (mb \<noteq> JNull \<and> int_of mb \<le> 0, ValueError ''storage_mb must be greater than 0''),
         (\<not> is_int limit, TypeError ''storage_limit_mb must be an integer''),
         (int_of limit < 0, ValueError ''storage_limit_mb must be 0 or greater''),
         (mb \<noteq> JNull \<and> 0 < int_of limit \<and> int_of limit < int_of mb,
            ValueError ''storage_limit_mb must be greater than or equal to storage_mb''),
         (wrong_obj (sb_network a), TypeError ''network must be a NetworkPolicy or None''),
         (wrong_obj (sb_connection a), TypeError ''connection must be a ConnectionConfig or None'')])"

definition mount_list :: "sandbox_args \<Rightarrow> Mount list result" where
  "mount_list a =
     (case sb_mounts a of
        None \<Rightarrow> Inr []
      | Some s \<Rightarrow>
          bind_result (seq_items ''mounts must be a sequence of Mount objects'' s)
            (all_instances ''mounts must contain only Mount objects''))"

definition checks_of_tunnel :: "sandbox_args \<Rightarrow> unit result" where
  "checks_of_tunnel a =
     guards
       [(sb_upstream a \<noteq> JNull \<and> blank_or_other (sb_upstream a), ValueError ''upstream must be a non-empty address''),
        (\<not> is_int (sb_proxy_port a), TypeError ''proxy_port must be an integer''),
        (\<not> (2 \<le> int_of (sb_proxy_port a) \<and> int_of (sb_proxy_port a) \<le> 65535),
           ValueError ''proxy_port must be between 2 and 65535'')]"

definition forwarded_port :: "port_arg \<Rightarrow> int result" where
  "forwarded_port p =
     (case as_strict_int (case p of PortNumber v \<Rightarrow> v | PortForwarding v \<Rightarrow> v) of
        None \<Rightarrow> Inl (TypeError ''forwarded port must be an integer or PortForwarding object'')
      | Some n \<Rightarrow>
          if \<not> (1 \<le> n \<and> n \<le> 65535) then Inl (ValueError ''forwarded port must be between 1 and 65535'') else Inr n)"

text \<open>An empty value, a number 0 among them, is no forwarding at all.\<close>

definition forwarded_ports :: "sandbox_args \<Rightarrow> int list result" where
  "forwarded_ports a =
     bind_result
       (case sb_ports a of
          None \<Rightarrow> Inr []
        | Some s \<Rightarrow> seq_items ''port_forwardings must contain integers or PortForwarding objects'' s) (\<lambda>items.
     bind_result (map_result forwarded_port items) (\<lambda>ports.
       if \<not> distinct ports then Inl (ValueError ''port_forwardings must not contain duplicate ports'')
       else if sb_upstream a \<noteq> JNull
         \<and> set ports \<inter> {int_of (sb_proxy_port a) - 1, int_of (sb_proxy_port a)} \<noteq> {}
       then Inl (ValueError ''reverse tunnel ports conflict with port_forwardings'')
       else Inr ports))"

section \<open>The create request\<close>

definition opt_json :: "string \<Rightarrow> json \<Rightarrow> jobj" where
  "opt_json key v = (if v = JNull then [] else [(key, v)])"

definition rootfs_entry :: "sandbox_args \<Rightarrow> json" where
  "rootfs_entry a =
     JObj ((''runtime'', JStr (py_strip (str_of (sb_runtime a)))) #
       (if sb_image a \<noteq> JNull
        then [(''type'', JStr ''image''), (''readonly'', JBool False), (''imageurl'', sb_image a)]
        else
          case obj_value (sb_rootfs a) of
            Some s3 \<Rightarrow> [(''type'', JStr ''s3''), (''storageInfo'', S3Config_to_dict s3)]
          | None \<Rightarrow> []))"

definition RESOURCE_FIELDS :: "string list" where
  "RESOURCE_FIELDS = [''cpu'', ''memory'', ''cpu_limit'', ''mem_limit'']"

definition resource_entries :: "sandbox_args \<Rightarrow> jobj" where
  "resource_entries a =
     (let fields = (if sb_snapshot_id a = JNull then RESOURCE_FIELDS
                    else case sb_resource_fields a of None \<Rightarrow> RESOURCE_FIELDS | Some fs \<Rightarrow> fs);
          values = [(''cpu'', sb_cpu a), (''memory'', sb_memory a), (''cpu_limit'', sb_cpu_limit a),
                    (''mem_limit'', sb_mem_limit a)]
      in filter (\<lambda>(f, _). f \<in> set fields) values)"

definition create_body ::
  "sandbox_args \<Rightarrow> int \<Rightarrow> int \<Rightarrow> jobj list \<Rightarrow> Mount list \<Rightarrow> int list \<Rightarrow> jobj" where
  "create_body a create schedule affinities mounts ports =
     [(''namespace'', JStr ''default'')]
     @ (if sb_snapshot_id a = JNull then [] else [(''snapshotId'', JStr (py_strip (str_of (sb_snapshot_id a))))])
     @ [(''failover'', sb_failover a), (''idleTimeoutSeconds'', sb_idle_timeout a),
        (''createTimeoutSeconds'', JInt create), (''scheduleTimeoutSeconds'', JInt schedule),
        (''initCallTimeoutSeconds'', JInt INIT_CALL_TIMEOUT), (''rootfs'', rootfs_entry a)]
     @ (if sb_inherit_entrypoint a = JBool True then [(''inheritEntrypoint'', JBool True)] else [])
     @ opt_json ''name'' (sb_name a)
     @ resource_entries a
     @ opt_json ''xpu'' (sb_xpu a)
     @ opt_json ''storageMb'' (sb_storage_mb a)
     @ [(''storage_limit_mb'', sb_storage_limit_mb a)]
     @ (if truthy (sb_env a) then [(''env'', sb_env a)] else [])
     @ (if affinities \<noteq> [] then [(''scheduleAffinities'', JList (map JObj affinities))] else [])
     @ (if mounts \<noteq> [] then [(''mounts'', JList (map Mount_to_dict mounts))] else [])
     @ (case obj_value (sb_network a) of
          Some p \<Rightarrow> if NetworkPolicy_is_empty p then [] else [(''network'', JObj (NetworkPolicy_to_dict p))]
        | None \<Rightarrow> [])
     @ (if sb_extra_config a \<noteq> [] then [(''extra_config'', JObj (sb_extra_config a))] else [])
     @ (if sb_detached a = JBool True then [(''lifecycle'', JStr ''detached'')] else [])
     @ (if sb_upstream a \<noteq> JNull
        then [(''tunnel'', JObj [(''enabled'', JBool True), (''proxyPort'', sb_proxy_port a)])] else [])
     @ (if ports \<noteq> [] then [(''ports'', JList (map (\<lambda>p. JStr (str_int p)) ports))] else [])"

text \<open>The checks in their order, then the body and the forwarded ports.\<close>

definition sandbox_request :: "env \<Rightarrow> sandbox_args \<Rightarrow> (jobj \<times> int list) result" where
  "sandbox_request environ a =
     bind_result (checks_before_affinities a) (\<lambda>_.
     bind_result (build_schedule_affinities (sb_affinities a)
         (if sb_snapshot_id a = JNull then Some (py_strip (str_of (sb_runtime a))) else None)
         (as_str (sb_node_id a))) (\<lambda>affinities.
     bind_result (validate_xpu (sb_xpu a)) (\<lambda>_.
     bind_result (checks_of_storage a) (\<lambda>_.
     bind_result (mount_list a) (\<lambda>mounts.
     bind_result (checks_of_tunnel a) (\<lambda>_.
     bind_result (forwarded_ports a) (\<lambda>ports.
     bind_result (resolve_create_timeouts environ (sb_create_timeout a) (sb_schedule_timeout a))
       (\<lambda>(create, schedule).
         Inr (create_body a create schedule affinities mounts ports, ports)))))))))"

section \<open>What the checks guarantee\<close>

text \<open>The schedule budget asked for, and the create budget asked for, given the former.\<close>

definition asked_schedule :: "json \<Rightarrow> int \<Rightarrow> bool" where
  "asked_schedule v s \<longleftrightarrow> v = JNull \<and> s = DEFAULT_SCHEDULE_TIMEOUT \<or> v = JInt s \<and> 0 < s"

definition asked_create :: "env \<Rightarrow> json \<Rightarrow> int \<Rightarrow> int \<Rightarrow> bool" where
  "asked_create environ v s c \<longleftrightarrow>
     (v = JInt c \<and> 0 < c)
     \<or> (v = JNull \<and>
        (case environ ''YR_SANDBOX_CREATE_TIMEOUT'' of
           None \<Rightarrow> c = s + CREATE_TIMEOUT_RESERVE
         | Some raw \<Rightarrow> py_int (py_strip raw) = Some c \<and> 0 < c))"

lemma positive_int_eq: "positive_int msg v = Inr n \<longleftrightarrow> v = JInt n \<and> 0 < n"
  by (auto simp: positive_int_def split: option.splits)

lemma asked_create_eq:
  "(if v = JNull \<and> environ ''YR_SANDBOX_CREATE_TIMEOUT'' = None
    then Inr (s + CREATE_TIMEOUT_RESERVE) else get_create_timeout environ v) = Inr c
   \<longleftrightarrow> asked_create environ v s c"
  by (auto simp: asked_create_def get_create_timeout_def positive_int_eq bind_result_eq_Inr split: option.splits)

lemma asked_schedule_eq:
  "(if v = JNull then Inr DEFAULT_SCHEDULE_TIMEOUT else positive_int msg v) = Inr s \<longleftrightarrow> asked_schedule v s"
  by (auto simp: asked_schedule_def positive_int_eq)

lemma budget_eq:
  "(if schedule > create then Inl e1
    else if create - schedule < CREATE_TIMEOUT_BUFFER then Inl e2
    else if create - schedule < CREATE_TIMEOUT_RESERVE then Inr (schedule + CREATE_TIMEOUT_RESERVE, schedule)
    else Inr (create, schedule)) = Inr (c, s)
   \<longleftrightarrow> schedule = s \<and> s + 30 \<le> create \<and> c = max create (s + 60)"
  by (auto simp: CREATE_TIMEOUT_BUFFER_def CREATE_TIMEOUT_RESERVE_def INIT_CALL_TIMEOUT_def)

lemma create_budget_facts:
  "resolve_create_timeouts environ create_timeout schedule_timeout = Inr (c, s) \<longleftrightarrow>
     asked_schedule schedule_timeout s
     \<and> (\<exists>r. asked_create environ create_timeout s r \<and> s + 30 \<le> r \<and> c = max r (s + 60))"
  unfolding resolve_create_timeouts_def bind_result_eq_Inr asked_schedule_eq asked_create_eq Let_def budget_eq
  by blast

text \<open>
  C38: The time budgets of a create. They are accepted exactly when both budgets asked for, by
  argument, by environment or by default, are positive integers and creating is given at least 30
  seconds more than scheduling; the schedule budget is then the one asked for, and the create budget is
  the one asked for or 60 seconds more than scheduling, whichever is longer.
\<close>

theorem create_budget_exact:
  "resolve_create_timeouts environ create_timeout schedule_timeout = Inr (c, s) \<longleftrightarrow>
     asked_schedule schedule_timeout s
     \<and> (\<exists>r. asked_create environ create_timeout s r \<and> s + 30 \<le> r \<and> c = max r (s + 60))"
  by (rule create_budget_facts)

lemma map_result_forwarded:
  "map_result forwarded_port items = Inr ports \<Longrightarrow> \<forall>p\<in>set ports. 1 \<le> p \<and> p \<le> 65535"
proof (induction items arbitrary: ports)
  case (Cons p items)
  then show ?case by (auto simp: bind_result_eq_Inr forwarded_port_def split: option.splits if_splits)
qed simp

lemma forwarded_ports_ok:
  assumes "forwarded_ports a = Inr ports"
  shows "distinct ports" "p \<in> set ports \<Longrightarrow> 1 \<le> p \<and> p \<le> 65535"
    "sb_upstream a \<noteq> JNull \<Longrightarrow> int_of (sb_proxy_port a) \<notin> set ports \<and> int_of (sb_proxy_port a) - 1 \<notin> set ports"
proof -
  obtain items where items: "map_result forwarded_port items = Inr ports"
    and ok: "distinct ports"
      "sb_upstream a \<noteq> JNull \<Longrightarrow> set ports \<inter> {int_of (sb_proxy_port a) - 1, int_of (sb_proxy_port a)} = {}"
    using assms by (auto simp: forwarded_ports_def bind_result_eq_Inr split: if_splits)
  show "distinct ports" by (rule ok(1))
  show "p \<in> set ports \<Longrightarrow> 1 \<le> p \<and> p \<le> 65535" using map_result_forwarded [OF items] by blast
  show "sb_upstream a \<noteq> JNull \<Longrightarrow> int_of (sb_proxy_port a) \<notin> set ports \<and> int_of (sb_proxy_port a) - 1 \<notin> set ports"
    using ok(2) by blast
qed


text \<open>The keys a body can have, in the order they are set.\<close>

definition body_keys :: "string list" where
  "body_keys = [''namespace''] @ [''snapshotId'']
     @ [''failover'', ''idleTimeoutSeconds'', ''createTimeoutSeconds'', ''scheduleTimeoutSeconds'',
        ''initCallTimeoutSeconds'', ''rootfs''] @ [''inheritEntrypoint''] @ [''name''] @ RESOURCE_FIELDS @ [''xpu'']
     @ [''storageMb''] @ [''storage_limit_mb''] @ [''env''] @ [''scheduleAffinities''] @ [''mounts''] @ [''network'']
     @ [''extra_config''] @ [''lifecycle''] @ [''tunnel''] @ [''ports'']"

lemma subseq_resources: "subseq (map fst (resource_entries a)) RESOURCE_FIELDS"
proof -
  let ?limits = "[(''cpu'', sb_cpu a), (''memory'', sb_memory a), (''cpu_limit'', sb_cpu_limit a),
      (''mem_limit'', sb_mem_limit a)]"
  have "map fst ?limits = RESOURCE_FIELDS" by (simp add: RESOURCE_FIELDS_def)
  then show ?thesis unfolding resource_entries_def Let_def by (metis subseq_filter_left subseq_map)
qed

lemma body_keys_subseq:
  "subseq (map fst (create_body a create schedule affinities mounts ports)) body_keys"
  unfolding create_body_def body_keys_def map_append opt_json_def
  by (intro list_emb_append_mono subseq_resources) (simp_all split: option.splits)

lemma subseq_distinct: "subseq xs ys \<Longrightarrow> distinct ys \<Longrightarrow> distinct xs"
proof (induction rule: list_emb.induct)
  case (list_emb_Cons2 x y xs ys)
  then show ?case by (auto dest: list_emb_set)
qed auto

lemma distinct_body: "distinct (map fst (create_body a create schedule affinities mounts ports))"
proof -
  have "distinct body_keys" by (simp add: body_keys_def RESOURCE_FIELDS_def)
  with body_keys_subseq show ?thesis by (metis subseq_distinct)
qed

lemma body_entry:
  assumes "(k, v) \<in> set (create_body a create schedule affinities mounts ports)"
  shows "jget (create_body a create schedule affinities mounts ports) k = v"
  using assms distinct_body map_of_is_SomeI [OF distinct_body assms] by (simp add: jget_def)

lemma body_ports:
  "ports \<noteq> [] \<Longrightarrow>
   jget (create_body a create schedule affinities mounts ports) ''ports'' = JList (map (\<lambda>p. JStr (str_int p)) ports)"
  by (rule body_entry) (simp add: create_body_def)

lemma accepted_request:
  assumes "sandbox_request environ a = Inr (body, ports)"
  shows "distinct (map fst body)"
    "\<exists>c s. jget body ''createTimeoutSeconds'' = JInt c \<and> jget body ''scheduleTimeoutSeconds'' = JInt s
       \<and> 0 < s \<and> s + 60 \<le> c"
    "jget body ''rootfs'' = rootfs_entry a" "sb_image a = JNull \<or> sb_rootfs a = NoObj"
    "distinct ports" "\<forall>p\<in>set ports. 1 \<le> p \<and> p \<le> 65535"
    "ports = [] \<or> jget body ''ports'' = JList (map (\<lambda>p. JStr (str_int p)) ports)"
    "sb_upstream a = JNull \<or>
       (\<exists>port. sb_proxy_port a = JInt port \<and> 1 \<le> port - 1 \<and> port \<le> 65535 \<and> port \<notin> set ports
          \<and> port - 1 \<notin> set ports)"
    "sb_inherit_entrypoint a = JBool True \<longrightarrow> sb_image a \<noteq> JNull \<and> sb_snapshot_id a = JNull"
proof -
  obtain affinities mounts create schedule where
    before: "checks_before_affinities a = Inr ()" and tun: "checks_of_tunnel a = Inr ()"
    and ports: "forwarded_ports a = Inr ports"
    and times: "resolve_create_timeouts environ (sb_create_timeout a) (sb_schedule_timeout a) = Inr (create, schedule)"
    and body: "body = create_body a create schedule affinities mounts ports"
    using assms by (auto simp: sandbox_request_def bind_result_eq_Inr)
  show "distinct (map fst body)" unfolding body by (rule distinct_body)
  have "0 < schedule \<and> schedule + 60 \<le> create"
    using times unfolding create_budget_facts by (auto simp: asked_schedule_def DEFAULT_SCHEDULE_TIMEOUT_def)
  moreover have "jget body ''createTimeoutSeconds'' = JInt create" "jget body ''scheduleTimeoutSeconds'' = JInt schedule"
    unfolding body by (rule body_entry, simp add: create_body_def)+
  ultimately show "\<exists>c s. jget body ''createTimeoutSeconds'' = JInt c \<and> jget body ''scheduleTimeoutSeconds'' = JInt s
       \<and> 0 < s \<and> s + 60 \<le> c" by blast
  show "jget body ''rootfs'' = rootfs_entry a" unfolding body by (rule body_entry) (simp add: create_body_def)
  show "sb_image a = JNull \<or> sb_rootfs a = NoObj"
    "sb_inherit_entrypoint a = JBool True \<longrightarrow> sb_image a \<noteq> JNull \<and> sb_snapshot_id a = JNull"
    using before unfolding checks_before_affinities_def guards_ok by auto
  show "distinct ports" "\<forall>p\<in>set ports. 1 \<le> p \<and> p \<le> 65535" using forwarded_ports_ok [OF ports] by blast+
  show "ports = [] \<or> jget body ''ports'' = JList (map (\<lambda>p. JStr (str_int p)) ports)"
    unfolding body using body_ports by blast
  obtain port where "sb_proxy_port a = JInt port" "2 \<le> port" "port \<le> 65535"
    using tun unfolding checks_of_tunnel_def guards_ok
    by (auto simp: is_int_def int_of_def split: option.splits)
  then show "sb_upstream a = JNull \<or>
       (\<exists>port. sb_proxy_port a = JInt port \<and> 1 \<le> port - 1 \<and> port \<le> 65535 \<and> port \<notin> set ports
          \<and> port - 1 \<notin> set ports)"
    using forwarded_ports_ok(3) [OF ports] by (auto simp: int_of_def)
qed

lemma rootfs_one_source:
  assumes "sb_image a = JNull \<or> sb_rootfs a = NoObj"
  shows "\<exists>r. rootfs_entry a = JObj r \<and> distinct (map fst r) \<and> jget r ''imageurl'' = sb_image a
    \<and> jget r ''storageInfo'' = (case sb_rootfs a of TheObj s3 \<Rightarrow> S3Config_to_dict s3 | _ \<Rightarrow> JNull)"
  using assms by (auto simp: rootfs_entry_def obj_value_def jget_def split: obj_arg.splits)


definition sample_args :: sandbox_args where
  "sample_args =
     \<lparr>sb_image = JStr ''python'', sb_rootfs = NoObj, sb_runtime = JStr ''runsc'', sb_cpu = JInt 1000,
      sb_memory = JInt 4096, sb_cpu_limit = JInt 0, sb_mem_limit = JInt 0, sb_idle_timeout = JInt 300,
      sb_schedule_timeout = JInt 30, sb_env = JNull, sb_name = JNull, sb_cwd = JNull,
      sb_ports = Some (SeqItems [PortNumber (JInt 80)]), sb_mounts = None, sb_upstream = JStr ''localhost:9'',
      sb_proxy_port = JInt 8766, sb_tunnel_connect_timeout = None, sb_detached = JBool False, sb_node_id = JNull,
      sb_affinities = None, sb_snapshot_id = JNull, sb_failover = JBool False,
      sb_inherit_entrypoint = JBool False, sb_xpu = JNull, sb_storage_mb = JNull, sb_storage_limit_mb = JInt 0,
      sb_network = NoObj, sb_create_timeout = JInt 70, sb_connection = NoObj, sb_extra_config = [],
      sb_resource_fields = None\<rparr>"

lemma sample_accepted: "case sandbox_request Map.empty sample_args of Inr (b, p) \<Rightarrow> p = [80] | Inl _ \<Rightarrow> False"
  by code_simp


text \<open>
  \<open>ConnectionConfig.from_env\<close> does not preserve the scheme of forwarded ports. With a server and a
  token in the environment and nothing else, the URL of a forwarded port is \<open>https\<close> for a sandbox
  that reads the environment and \<open>http\<close>, on the same host, for one given the connection that
  \<open>from_env\<close> builds from the same environment.
\<close>

theorem from_env_changes_port_url:
  "\<exists>c. ConnectionConfig_from_env [''YR_SERVER_ADDRESS'' \<mapsto> ''h'', ''YR_TOKEN'' \<mapsto> ''t''] None None False = Inr c
     \<and> port_url [''YR_SERVER_ADDRESS'' \<mapsto> ''h'', ''YR_TOKEN'' \<mapsto> ''t''] None [80] ''sb'' 80 = Inr ''https://h/sb/80''
     \<and> port_url [''YR_SERVER_ADDRESS'' \<mapsto> ''h'', ''YR_TOKEN'' \<mapsto> ''t''] (Some c) [80] ''sb'' 80 = Inr ''http://h/sb/80''"
  (is "\<exists>c. ?init = Inr c \<and> _ \<and> ?url c")
proof -
  have "case ?init of Inr c \<Rightarrow> ?url c | Inl _ \<Rightarrow> False" by code_simp
  then obtain c where "?init = Inr c" "?url c" by (auto split: sum.splits)
  moreover have "port_url [''YR_SERVER_ADDRESS'' \<mapsto> ''h'', ''YR_TOKEN'' \<mapsto> ''t''] None [80] ''sb'' 80
      = Inr ''https://h/sb/80''"
    by code_simp
  ultimately show ?thesis by blast
qed

end
