(* ===== verification/Shell.thy ===== *)
theory Shell
  imports Rpc
begin

text \<open>
  \<open>shell/shell.py\<close> and \<open>shell/shells.py\<close>: persistent shell sessions driven by \<open>shell.run\<close> and
  \<open>shell.poll\<close>. One \<open>run\<close> holds the session's lock from its submission to its result, so a run is
  one action. The cleaning of the terminal output is on Latin-1 text.
\<close>

section \<open>The command line\<close>

definition cd_part :: "string \<Rightarrow> string" where
  "cd_part cwd = ''cd '' @ cwd"

definition export_part :: "string \<times> string \<Rightarrow> string" where
  "export_part kv = ''export '' @ fst kv @ [CHR ''='', CHR 39] @ snd kv @ [CHR 39]"

text \<open>The \<open>cd\<close> and \<open>export\<close> prefixes; an empty directory and an empty dictionary count as absent.\<close>

definition prefix_parts :: "string option \<Rightarrow> (string \<times> string) list \<Rightarrow> string list" where
  "prefix_parts cwd envs =
     (case cwd of None \<Rightarrow> [] | Some d \<Rightarrow> if d = [] then [] else [cd_part d]) @ map export_part envs"

definition build_cmd :: "string \<Rightarrow> (string \<times> string) list \<Rightarrow> string option \<Rightarrow> string" where
  "build_cmd cmd envs cwd =
     (if prefix_parts cwd envs = [] then cmd
      else ''( '' @ join_with '' && '' (prefix_parts cwd envs @ [cmd]) @ '' )'')"

section \<open>The output\<close>

definition in_range :: "nat \<Rightarrow> nat \<Rightarrow> char \<Rightarrow> bool" where
  "in_range lo hi c \<longleftrightarrow> (let n = of_char c :: nat in lo \<le> n \<and> n \<le> hi)"

text \<open>
  What follows an escape character: a two-character sequence, or a control sequence of parameter,
  intermediate and final characters; None when there is neither. The three classes are disjoint, so
  a greedy match is the only one.
\<close>

definition csi_rest :: "string \<Rightarrow> string option" where
  "csi_rest s =
     (case dropWhile (in_range 32 47) (dropWhile (in_range 48 63) s) of
        [] \<Rightarrow> None
      | c # rest \<Rightarrow> if in_range 64 126 c then Some rest else None)"

definition ansi_rest :: "string \<Rightarrow> string option" where
  "ansi_rest s =
     (case s of
        [] \<Rightarrow> None
      | c # rest \<Rightarrow>
          if in_range 64 90 c \<or> in_range 92 95 c then Some rest
          else if c = CHR ''['' then csi_rest rest
          else None)"

lemma csi_rest_length: "csi_rest s = Some r \<Longrightarrow> length r < length s"
proof -
  have "length (dropWhile (in_range 32 47) (dropWhile (in_range 48 63) s)) \<le> length s"
    by (meson length_dropWhile_le order_trans)
  then show "csi_rest s = Some r \<Longrightarrow> length r < length s"
    by (auto simp: csi_rest_def split: list.splits if_splits)
qed

lemma ansi_rest_length: "ansi_rest s = Some r \<Longrightarrow> length r < length s"
  by (auto simp: ansi_rest_def split: list.splits if_splits dest: csi_rest_length)

function strip_ansi :: "string \<Rightarrow> string" where
  "strip_ansi [] = []"
| "strip_ansi (c # s) =
     (if c = CHR 27
      then case ansi_rest s of None \<Rightarrow> c # strip_ansi s | Some rest \<Rightarrow> strip_ansi rest
      else c # strip_ansi s)"
  by pat_completeness auto
termination
  by (relation "measure length") (auto dest: ansi_rest_length)

definition SENTINEL :: string where "SENTINEL = ''__RRT_DONE_''"

definition clean_output :: "string \<Rightarrow> string" where
  "clean_output raw =
     (let text = py_replace [CHR 13] [CHR 10] (py_replace [CHR 13, CHR 10] [CHR 10] (strip_ansi raw));
          body = filter (\<lambda>ln. \<not> occurs_in SENTINEL ln) (tl (split_on (CHR 10) text)) in
      strip_by (\<lambda>c. c = CHR 10) (join_with [CHR 10] body))"

section \<open>Running\<close>

text \<open>
  \<open>CommandResult\<close> as a shell returns it; \<open>_clean_output\<close> of a value that is no string raises.
\<close>

record ShellResult =
  sr_stdout :: json
  sr_stderr :: json
  sr_exit_code :: json

definition shell_failed :: "json \<Rightarrow> ShellResult" where
  "shell_failed err = \<lparr>sr_stdout = JStr [], sr_stderr = err, sr_exit_code = JInt (-1)\<rparr>"

definition shell_done :: "jobj \<Rightarrow> client_exc + ShellResult" where
  "shell_done poll =
     (case jget_or poll ''stdout'' (JStr []) of
        JStr out \<Rightarrow>
          Inr \<lparr>sr_stdout = JStr (clean_output out), sr_stderr = jget_or poll ''stderr'' (JStr []),
               sr_exit_code = jget_or poll ''exit_code'' (JInt 0)\<rparr>
      | _ \<Rightarrow> Inl (PyError (TypeError ''expected string or bytes-like object'')))"

definition shell_verdict :: "jobj \<Rightarrow> client_exc + ShellResult option" where
  "shell_verdict poll =
     bind_result (jindex poll ''status'') (\<lambda>status.
       if status = JStr ''done'' then map_sum id Some (shell_done poll)
       else if status = JStr ''error'' then Inr (Some (shell_failed (jget_or poll ''error'' (JStr ''unknown error''))))
       else Inr None)"

text \<open>Polling with the interval \<open>wait\<close> of \<open>YR_POLL_WAIT\<close>, one call per unit of fuel.\<close>

fun shell_poll ::
  "nat \<Rightarrow> 's host \<Rightarrow> string \<Rightarrow> string \<Rightarrow> int \<Rightarrow> int \<Rightarrow> rat \<Rightarrow> ('s, ShellResult option) action" where
  "shell_poll 0 h sid session wait timeout deadline = act_return None"
| "shell_poll (Suc fuel) h sid session wait timeout deadline =
     act_bind (h_now h) (\<lambda>t.
     if \<not> t < deadline
     then act_return (Some (shell_failed (JStr (''Command timed out after '' @ str_int timeout @ ''s''))))
     else
       act_bind (h_invoke h sid ''shell.poll'' [(''session_id'', JStr session), (''wait_timeout'', JInt wait)] None)
         (\<lambda>poll.
       act_bind (act_lift (shell_verdict poll)) (\<lambda>verdict.
         case verdict of
           Some result \<Rightarrow> act_return (Some result)
         | None \<Rightarrow> shell_poll fuel h sid session wait timeout deadline)))"

definition shell_submit :: "'s host \<Rightarrow> string \<Rightarrow> string \<Rightarrow> string \<Rightarrow> int \<Rightarrow> ('s, jobj) action" where
  "shell_submit h sid session command timeout =
     h_invoke h sid ''shell.run''
       [(''session_id'', JStr session), (''command'', JStr command), (''timeout'', JInt timeout)] None"

definition shell_run ::
  "nat \<Rightarrow> 's host \<Rightarrow> string \<Rightarrow> string \<Rightarrow> int \<Rightarrow> string \<Rightarrow> (string \<times> string) list \<Rightarrow> string option \<Rightarrow> int
     \<Rightarrow> ('s, ShellResult option) action" where
  "shell_run fuel h sid session wait cmd envs cwd timeout =
     act_bind (shell_submit h sid session (build_cmd cmd envs cwd) timeout) (\<lambda>submit.
       if truthy (jget submit ''error'') then act_return (Some (shell_failed (jget submit ''error'')))
       else act_bind (h_now h) (\<lambda>t.
         shell_poll fuel h sid session wait timeout (t + of_int timeout + of_int wait + 5)))"

text \<open>\<open>kill\<close> and \<open>close\<close>: whatever the call raises is logged only.\<close>

definition shell_close :: "'s host \<Rightarrow> string \<Rightarrow> string \<Rightarrow> ('s, unit) action" where
  "shell_close h sid session =
     act_bind (act_try (h_invoke h sid ''shell.close'' [(''session_id'', JStr session)] None)) (\<lambda>_. act_return ())"

section \<open>The factory\<close>

record shells =
  sh_open :: "string list"
  sh_counter :: nat

text \<open>
  \<open>Shells.create\<close>: the new session and the factory after it. None in the result says that the
  fuel ran out while the \<open>cd\<close> and \<open>export\<close> commands ran; what they come to is not looked at.
\<close>

definition shells_create ::
  "nat \<Rightarrow> 's host \<Rightarrow> string \<Rightarrow> int \<Rightarrow> string option \<Rightarrow> shells \<Rightarrow> string option \<Rightarrow> (string \<times> string) list
     \<Rightarrow> string \<Rightarrow> int \<Rightarrow> 's \<Rightarrow> ((client_exc + string option) \<times> shells) \<times> 's" where
  "shells_create fuel h sid wait dflt fs cwd envs shell timeout s =
     (let fs = fs\<lparr>sh_counter := Suc (sh_counter fs)\<rparr>;
          session = ''sh_'' @ str_nat (sh_counter fs);
          init = prefix_parts (case cwd of None \<Rightarrow> dflt | Some d \<Rightarrow> Some d) envs in
      case act_bind (h_invoke h sid ''shell.create'' [(''session_id'', JStr session), (''shell'', JStr shell)] None)
             (\<lambda>result. act_lift (check_error ''Failed to create shell session'' result)) s of
        (Inl e, s') \<Rightarrow> ((Inl e, fs), s')
      | (Inr _, s') \<Rightarrow>
          (let fs = fs\<lparr>sh_open := sh_open fs @ [session]\<rparr> in
           if init = [] then ((Inr (Some session), fs), s')
           else
             case shell_run fuel h sid session wait (join_with '' && '' init) [] None timeout s' of
               (Inl e, s'') \<Rightarrow> ((Inl e, fs), s'')
             | (Inr r, s'') \<Rightarrow> ((Inr (map_option (\<lambda>_. session) r), fs), s'')))"

fun close_all :: "'s host \<Rightarrow> string \<Rightarrow> string list \<Rightarrow> ('s, unit) action" where
  "close_all h sid [] = act_return ()"
| "close_all h sid (session # rest) = act_bind (shell_close h sid session) (\<lambda>_. close_all h sid rest)"

definition shells_close :: "'s host \<Rightarrow> string \<Rightarrow> shells \<Rightarrow> ('s, shells) action" where
  "shells_close h sid fs = act_bind (close_all h sid (sh_open fs)) (\<lambda>_. act_return (fs\<lparr>sh_open := []\<rparr>))"

section \<open>A run ends\<close>

context ticking
begin

lemma shell_poll_ends:
  assumes "0 < fuel" "deadline - clk s \<le> of_nat (fuel - 1) * \<delta>"
  shows "shell_poll fuel h sid session wait timeout deadline s \<noteq> (Inr None, s')"
  using assms
proof (induction fuel arbitrary: s)
  case (Suc fuel)
  obtain s1 where now: "h_now h s = (Inr (clk s), s1)" "clk s \<le> clk s1" using now_reads by blast
  show ?case
  proof (cases "clk s < deadline")
    case True
    obtain p s2 where poll: "h_invoke h sid ''shell.poll''
        [(''session_id'', JStr session), (''wait_timeout'', JInt wait)] None s1 = (p, s2)" by fastforce
    have "clk s + \<delta> \<le> clk s2" using invoke_ticks [OF poll] now(2) by simp
    from fuel_spent [OF True this Suc.prems(2)] have "shell_poll fuel h sid session wait timeout deadline s2 \<noteq> (Inr None, s')"
      using Suc.IH [of s2] by blast
    with now True poll show ?thesis
      by (auto simp: act_bind_def act_lift_def act_return_def split: sum.splits option.splits)
  qed (use now in \<open>auto simp: act_bind_def act_return_def\<close>)
qed simp

text \<open>
  On a host whose calls take at least \<open>\<delta>\<close> a run polls at most once per \<open>\<delta>\<close> of its time limit with
  the allowances the code adds to it, and once more; then it returns a result or an exception.
\<close>

lemma shell_run_ends:
  assumes "shell_run fuel h sid session wait cmd envs cwd timeout s = (r, s')"
    "nat \<lceil>(of_int timeout + of_int wait + 5) / \<delta>\<rceil> + 1 \<le> fuel"
  shows "r \<noteq> Inr None"
proof -
  have "shell_poll fuel h sid session wait timeout (clk s1 + of_int timeout + of_int wait + 5) s2 \<noteq> (Inr None, s3)"
    if "clk s1 \<le> clk s2" for s1 s2 s3
  proof (rule shell_poll_ends)
    show "0 < fuel" using fuel_covers [OF assms(2)] by (rule conjunct1)
    show "clk s1 + of_int timeout + of_int wait + 5 - clk s2 \<le> of_nat (fuel - 1) * \<delta>"
      using conjunct2 [OF fuel_covers [OF assms(2)]] that by linarith
  qed
  with assms(1) show ?thesis
    by (auto simp: shell_run_def act_return_def split: if_splits elim!: act_bind_cases dest!: now_at)
qed

end

section \<open>What the output becomes\<close>

definition plain :: "string \<Rightarrow> bool" where
  "plain s \<longleftrightarrow> CHR 27 \<notin> set s \<and> CHR 13 \<notin> set s \<and> CHR 10 \<notin> set s"

text \<open>Lines as a terminal ends them.\<close>

definition crlf_lines :: "string list \<Rightarrow> string" where
  "crlf_lines ls = concat (map (\<lambda>l. l @ [CHR 13, CHR 10]) ls)"

lemma strip_ansi_none: "CHR 27 \<notin> set s \<Longrightarrow> strip_ansi s = s"
  by (induction s) auto

lemma crlf_replace_plain:
  "plain l \<Longrightarrow> py_replace [CHR 13, CHR 10] [CHR 10] (l @ CHR 13 # CHR 10 # rest)
     = l @ CHR 10 # py_replace [CHR 13, CHR 10] [CHR 10] rest"
  by (induction l) (auto simp: plain_def)

lemma crlf_replace_lines:
  "list_all plain ls \<Longrightarrow> py_replace [CHR 13, CHR 10] [CHR 10] (crlf_lines ls @ rest)
     = concat (map (\<lambda>l. l @ [CHR 10]) ls) @ py_replace [CHR 13, CHR 10] [CHR 10] rest"
  by (induction ls) (simp_all add: crlf_lines_def crlf_replace_plain)

lemma split_lines:
  "list_all plain ls \<Longrightarrow> split_on (CHR 10) (concat (map (\<lambda>l. l @ [CHR 10]) ls) @ rest) = ls @ split_on (CHR 10) rest"
  by (induction ls) (simp_all add: plain_def split_on_append)



lemma join_middle: "join_with sep (us @ [u @ sep @ w] @ vs) = join_with sep (us @ [u, w] @ vs)"
proof (induction us rule: induct_list012)
  case 1
  then show ?case by (cases vs) auto
next
  case (2 x)
  then show ?case by (cases vs) auto
qed auto

lemma build_cmd_middle:
  assumes "export_part p = export_part q @ '' && '' @ export_part r"
  shows "build_cmd cmd (before @ p # after) cwd = build_cmd cmd (before @ q # r # after) cwd"
proof -
  obtain pre where pre: "prefix_parts cwd es = pre @ map export_part es" for es
    by (simp add: prefix_parts_def)
  show ?thesis
    using join_middle [of "'' && ''" "pre @ map export_part before" "export_part q" "export_part r"
        "map export_part after @ [cmd]"]
    unfolding build_cmd_def pre assms [symmetric] by simp
qed

text \<open>
  Values of environment variables are not quoted. A value that contains a single quote ends the
  quotes that are put around it: for every directory and command, one variable whose value is
  crafted from \<open>v\<close>, \<open>k'\<close> and \<open>v'\<close> gives the same command line as two variables, the second one
  \<open>k'\<close> with value \<open>v'\<close>.
\<close>

theorem env_value_defines_variable:
  "build_cmd cmd (before @ (k, v @ [CHR 39] @ '' && export '' @ k' @ [CHR ''='', CHR 39] @ v') # after) cwd
   = build_cmd cmd (before @ (k, v) # (k', v') # after) cwd"
  by (rule build_cmd_middle) (simp add: export_part_def)

end
