(* ===== verification/SandboxApi.thy ===== *)
theory SandboxApi
  imports SandboxConfig Shell
begin

text \<open>
  The second half of \<open>sandbox_api.py\<close>: what \<open>Sandbox.__init__\<close> does once its arguments are checked,
  with its rollback, and the operations of a sandbox. The client, the tunnel client and the terminals
  are actions of a host; the process environment is an argument.
\<close>

section \<open>The host\<close>

text \<open>
  The calls on \<open>SandboxClient\<close>, on \<open>TunnelClient\<close> (\<open>sx_tunnel_new\<close> is its constructor, the two
  checkpoint actions are the entry and exit of \<open>checkpoint_inflight\<close>) and on \<open>Pty\<close>.
\<close>

record 's sandbox_host = "'s host" +
  sx_create_info :: "jobj \<Rightarrow> ('s, jobj) action"
  sx_delete :: "string \<Rightarrow> ('s, unit) action"
  sx_close_client :: "('s, unit) action"
  sx_token :: "('s, string) action"
  sx_instance_info :: "string \<Rightarrow> ('s, jobj) action"
  sx_create_snapshot :: "string \<Rightarrow> string option \<Rightarrow> int \<Rightarrow> ('s, jobj) action"
  sx_get_snapshot :: "string \<Rightarrow> ('s, jobj) action"
  sx_list_snapshots :: "string option \<Rightarrow> string option \<Rightarrow> int option \<Rightarrow> ('s, jobj) action"
  sx_delete_snapshot :: "string \<Rightarrow> ('s, unit) action"
  sx_pause :: "string \<Rightarrow> int \<Rightarrow> int \<Rightarrow> ('s, jobj) action"
  sx_resume :: "string \<Rightarrow> ('s, jobj) action"
  sx_reload :: "string \<Rightarrow> ('s, jobj) action"
  sx_network :: "string \<Rightarrow> jobj \<Rightarrow> ('s, jobj) action"
  sx_tunnel_new :: "string \<Rightarrow> string option \<Rightarrow> ('s, unit) action"
  sx_tunnel_start :: "string \<Rightarrow> rat \<Rightarrow> ('s, bool) action"
  sx_tunnel_stop :: "('s, unit) action"
  sx_checkpoint_enter :: "('s, unit) action"
  sx_checkpoint_exit :: "('s, unit) action"
  sx_pty_close :: "('s, unit) action"

definition base_host :: "('s, 'z) host_scheme \<Rightarrow> 's host" where
  "base_host h = host.truncate h"

record sandbox =
  sd_id :: string
  sd_closed :: bool
  sd_detached :: bool
  sd_tunnel :: bool
  sd_tunnel_url :: json
  sd_shells :: shells
  sd_forwarded :: "int list"
  sd_upstream :: json
  sd_inherit_entrypoint :: bool
  sd_exit_info :: "jobj option"
  sd_image :: json
  sd_cpu :: json
  sd_memory :: json
  sd_cwd :: "string option"
  sd_connection :: "ConnectionConfig option"

section \<open>The reverse tunnel of a new sandbox\<close>

text \<open>
  Where the tunnel connects to: the frontend's \<open>url\<close> or \<open>path\<close> behind the gateway, or
  \<open>/tunnel/{id}\<close>; and the proxy URL. A value that is neither falsy nor a string makes \<open>urlparse\<close> raise.
\<close>

definition tunnel_info_of :: "jobj \<Rightarrow> jobj" where
  "tunnel_info_of info = (case jget info ''tunnel'' of JObj ob \<Rightarrow> ob | _ \<Rightarrow> [])"

definition default_proxy_url :: "json \<Rightarrow> string" where
  "default_proxy_url port = ''http://127.0.0.1:'' @ str_int (int_of port)"

definition tunnel_path :: "jobj \<Rightarrow> string \<Rightarrow> client_exc + string" where
  "tunnel_path info sid =
     (let v = jor (jget info ''url'') (jget info ''path'') in
      if \<not> truthy v then Inr (''/tunnel/'' @ safe_id sid)
      else case v of JStr s \<Rightarrow> Inr s | _ \<Rightarrow> Inl (PyError (TypeError ''cannot parse URL'')))"

definition tunnel_target ::
  "env \<Rightarrow> (string \<Rightarrow> rat option) \<Rightarrow> sandbox_args \<Rightarrow> jobj \<Rightarrow> string \<Rightarrow> client_exc + (string \<times> rat)" where
  "tunnel_target environ py_float a info sid =
     (let connection = obj_value (sb_connection a); tunnel_info = tunnel_info_of info in
      bind_result (map_sum PyError id (gateway_address environ connection)) (\<lambda>gateway.
      bind_result (tunnel_path tunnel_info sid) (\<lambda>path.
      bind_result (map_sum PyError id (compose_gateway_url gateway
          (if gateway_uses_tls environ connection then ''wss'' else ''ws'') path)) (\<lambda>url.
      bind_result (map_sum PyError id
          (get_tunnel_connect_timeout environ py_float (sb_tunnel_connect_timeout a))) (\<lambda>timeout.
        Inr (url, timeout))))))"

text \<open>The outcome, and whether \<open>self._tunnel_client\<close> is set afterwards.\<close>

definition open_tunnel ::
  "env \<Rightarrow> (string \<Rightarrow> rat option) \<Rightarrow> 's sandbox_host \<Rightarrow> sandbox_args \<Rightarrow> jobj \<Rightarrow> string
     \<Rightarrow> 's \<Rightarrow> ((client_exc + unit) \<times> bool) \<times> 's" where
  "open_tunnel environ py_float h a info sid s =
     (case act_bind (act_lift (tunnel_target environ py_float a info sid)) (\<lambda>(url, timeout).
           act_bind (sx_token h) (\<lambda>token.
           act_bind (sx_tunnel_new h (str_of (sb_upstream a))
               (if gateway_uses_tls environ (obj_value (sb_connection a)) then Some token else None)) (\<lambda>_.
             act_return (url, timeout)))) s of
        (Inl e, s') \<Rightarrow> ((Inl e, False), s')
      | (Inr (url, timeout), s') \<Rightarrow>
          (case sx_tunnel_start h url timeout s' of
             (Inl e, s'') \<Rightarrow> ((Inl e, True), s'')
           | (Inr True, s'') \<Rightarrow> ((Inr (), True), s'')
           | (Inr False, s'') \<Rightarrow>
               (case sx_tunnel_stop h s'' of
                  (Inl e, t) \<Rightarrow> ((Inl e, True), t)
                | (Inr _, t) \<Rightarrow>
                    ((Inl (PyError (RuntimeError ''TunnelClient connection timeout'')), False), t))))"

section \<open>Creation and rollback\<close>

definition new_sandbox :: "sandbox_args \<Rightarrow> int list \<Rightarrow> string \<Rightarrow> jobj \<Rightarrow> sandbox" where
  "new_sandbox a ports sid info =
     \<lparr>sd_id = sid, sd_closed = False, sd_detached = (sb_detached a = JBool True),
      sd_tunnel = (sb_upstream a \<noteq> JNull),
      sd_tunnel_url =
        (if sb_upstream a = JNull then JStr (default_proxy_url (sb_proxy_port a))
         else jor (jget (tunnel_info_of info) ''proxyUrl'') (JStr (default_proxy_url (sb_proxy_port a)))),
      sd_shells = \<lparr>sh_open = [], sh_counter = 0\<rparr>, sd_forwarded = ports, sd_upstream = sb_upstream a,
      sd_inherit_entrypoint = (sb_inherit_entrypoint a = JBool True), sd_exit_info = None,
      sd_image = sb_image a, sd_cpu = sb_cpu a, sd_memory = sb_memory a, sd_cwd = as_str (sb_cwd a),
      sd_connection = obj_value (sb_connection a)\<rparr>"

text \<open>\<open>except Exception\<close>: what each step of the rollback raises is logged only.\<close>

definition rollback :: "'s sandbox_host \<Rightarrow> bool \<Rightarrow> string \<Rightarrow> ('s, unit) action" where
  "rollback h tunnel sid =
     act_bind (if tunnel then act_bind (act_try (sx_tunnel_stop h)) (\<lambda>_. act_return ()) else act_return ()) (\<lambda>_.
     act_bind (if sid \<noteq> [] then act_bind (act_try (sx_delete h sid)) (\<lambda>_. act_return ()) else act_return ()) (\<lambda>_.
     act_bind (act_try (sx_close_client h)) (\<lambda>_. act_return ())))"

definition failed_open :: "'s sandbox_host \<Rightarrow> bool \<Rightarrow> string \<Rightarrow> client_exc \<Rightarrow> ('s, sandbox) action" where
  "failed_open h tunnel sid e = act_bind (rollback h tunnel sid) (\<lambda>_. act_raise e)"

definition created_id :: "jobj \<Rightarrow> string option" where
  "created_id info =
     (case jor (jget info ''sandboxId'') (jget info ''instanceId'') of JStr (c # s) \<Rightarrow> Some (c # s) | _ \<Rightarrow> None)"

text \<open>\<open>__init__\<close> from the creation of the client on.\<close>

definition sandbox_open ::
  "env \<Rightarrow> (string \<Rightarrow> rat option) \<Rightarrow> 's sandbox_host \<Rightarrow> sandbox_args \<Rightarrow> jobj \<Rightarrow> int list \<Rightarrow> ('s, sandbox) action" where
  "sandbox_open environ py_float h a body ports s =
     (case sx_create_info h body s of
        (Inl e, s') \<Rightarrow> failed_open h False [] e s'
      | (Inr info, s') \<Rightarrow>
          (case created_id info of
             None \<Rightarrow> failed_open h False [] (PyError (RuntimeError ''create response missing sandbox id'')) s'
           | Some sid \<Rightarrow>
               if sb_upstream a = JNull then (Inr (new_sandbox a ports sid info), s')
               else
                 (case open_tunnel environ py_float h a info sid s' of
                    ((Inl e, tunnel), s'') \<Rightarrow> failed_open h tunnel sid e s''
                  | ((Inr _, _), s'') \<Rightarrow> (Inr (new_sandbox a ports sid info), s''))))"

text \<open>The whole constructor: a rejected argument raises before anything is sent.\<close>

definition Sandbox_init ::
  "env \<Rightarrow> (string \<Rightarrow> rat option) \<Rightarrow> 's sandbox_host \<Rightarrow> sandbox_args \<Rightarrow> ('s, sandbox) action" where
  "Sandbox_init environ py_float h a =
     (case sandbox_request environ a of
        Inl e \<Rightarrow> act_raise (PyError e)
      | Inr (body, ports) \<Rightarrow> sandbox_open environ py_float h a body ports)"

text \<open>\<open>Sandbox.create\<close>, given the arguments that were passed by name.\<close>

definition create_from_snapshot :: "json \<Rightarrow> string list \<Rightarrow> sandbox_args \<Rightarrow> sandbox_args" where
  "create_from_snapshot snapshot_id given a =
     a\<lparr>sb_snapshot_id := snapshot_id, sb_resource_fields := Some (filter (\<lambda>k. k \<in> set RESOURCE_FIELDS) given)\<rparr>"

section \<open>Closing\<close>

definition quietly :: "('s, 'a) action \<Rightarrow> ('s, unit) action" where
  "quietly m = act_bind (act_try m) (\<lambda>_. act_return ())"

definition sandbox_close ::
  "'s sandbox_host \<Rightarrow> bool \<Rightarrow> sandbox \<Rightarrow> 's \<Rightarrow> ((client_exc + unit) \<times> sandbox) \<times> 's" where
  "sandbox_close h delete_remote sb s =
     (if sd_closed sb then ((Inr (), sb), s)
      else
        let sid = sd_id sb;
            sb' = sb\<lparr>sd_closed := True, sd_tunnel := False, sd_shells := (sd_shells sb)\<lparr>sh_open := []\<rparr>\<rparr> in
        case act_bind (if sd_tunnel sb then quietly (sx_tunnel_stop h) else act_return ()) (\<lambda>_.
             act_bind (quietly (close_all (base_host h) sid (sh_open (sd_shells sb)))) (\<lambda>_.
             act_bind (quietly (sx_pty_close h)) (\<lambda>_.
             act_bind (act_try (if delete_remote \<and> \<not> sd_detached sb then sx_delete h sid else act_return ()))
               (\<lambda>deleted. act_bind (sx_close_client h) (\<lambda>_. act_lift deleted))))) s of
          (r, s') \<Rightarrow> ((r, sb'), s'))"

definition sandbox_kill :: "'s sandbox_host \<Rightarrow> sandbox \<Rightarrow> 's \<Rightarrow> ((client_exc + unit) \<times> sandbox) \<times> 's" where
  "sandbox_kill h = sandbox_close h True"

definition sandbox_release :: "'s sandbox_host \<Rightarrow> sandbox \<Rightarrow> 's \<Rightarrow> ((client_exc + unit) \<times> sandbox) \<times> 's" where
  "sandbox_release h = sandbox_close h False"

text \<open>\<open>Sandbox.delete\<close>, with a client of its own.\<close>

definition sandbox_delete :: "'s sandbox_host \<Rightarrow> string \<Rightarrow> ('s, unit) action" where
  "sandbox_delete h sid =
     act_bind (act_try (sx_delete h sid)) (\<lambda>r. act_bind (sx_close_client h) (\<lambda>_. act_lift r))"

section \<open>Waiting for the entrypoint\<close>

definition ENTRYPOINT_POLL_INTERVAL :: rat where "ENTRYPOINT_POLL_INTERVAL = 10"

definition closed_error :: client_exc where
  "closed_error = PyError (RuntimeError ''sandbox is closed'')"

text \<open>One poll: an exit code with the state it leaves, or None to poll again.\<close>

definition entrypoint_verdict :: "('s, 'z) host_scheme \<Rightarrow> jobj \<Rightarrow> sandbox \<Rightarrow> (client_exc + int option) \<times> sandbox" where
  "entrypoint_verdict h result sb =
     (let status = jget result ''status'' in
      if status = JStr ''running'' then (Inr None, sb)
      else if status = JStr ''exited''
      then (case as_strict_int (jget_or result ''shell_exit_code'' (jget result ''exit_code'')) of
              None \<Rightarrow> Inl (SandboxError ''entrypoint exit response missing exit code'')
            | Some n \<Rightarrow> Inr (Some n),
            sb\<lparr>sd_exit_info := Some result\<rparr>)
      else if status = JStr ''error''
      then (Inl (SandboxError (py_str (base_host h) (jor (jget result ''message'') (JStr ''entrypoint polling failed'')))), sb)
      else (Inl (SandboxError ''invalid entrypoint poll response''), sb))"

fun entrypoint_loop ::
  "nat \<Rightarrow> ('s, 'z) host_scheme \<Rightarrow> sandbox \<Rightarrow> 's \<Rightarrow> ((client_exc + int option) \<times> sandbox) \<times> 's" where
  "entrypoint_loop 0 h sb s = ((Inr None, sb), s)"
| "entrypoint_loop (Suc fuel) h sb s =
     (case act_bind (h_random h) (\<lambda>rnd.
           let poll_wait = ENTRYPOINT_POLL_INTERVAL * (7 / 10 + rnd * (6 / 10)) in
           h_invoke h (sd_id sb) ''entrypoint.poll'' [(''wait_timeout'', JFloat poll_wait)]
             (Some (max 1 \<lfloor>poll_wait + 1\<rfloor>))) s of
        (Inl e, s') \<Rightarrow> ((Inl e, sb), s')
      | (Inr result, s') \<Rightarrow>
          (case entrypoint_verdict h result sb of
             (Inr None, sb') \<Rightarrow> entrypoint_loop fuel h sb' s'
           | (r, sb') \<Rightarrow> ((r, sb'), s')))"

definition wait_entrypoint ::
  "nat \<Rightarrow> ('s, 'z) host_scheme \<Rightarrow> sandbox \<Rightarrow> 's \<Rightarrow> ((client_exc + int option) \<times> sandbox) \<times> 's" where
  "wait_entrypoint fuel h sb s =
     (if \<not> sd_inherit_entrypoint sb
      then ((Inl (PyError (RuntimeError ''inherit_entrypoint was not enabled for this sandbox'')), sb), s)
      else if sd_closed sb then ((Inl closed_error, sb), s)
      else entrypoint_loop fuel h sb s)"

section \<open>State of the sandbox\<close>

definition is_running :: "'s sandbox_host \<Rightarrow> sandbox \<Rightarrow> ('s, bool) action" where
  "is_running h sb =
     (if sd_closed sb then act_return False
      else act_bind (act_try (sx_instance_info h (sd_id sb))) (\<lambda>r.
        act_return (case r of Inl _ \<Rightarrow> False | Inr info \<Rightarrow> jget info ''status'' = JStr ''running'')))"

record SandboxInfo =
  si_id :: string
  si_state :: string
  si_cpu :: json
  si_memory :: json
  si_image :: json

definition sandbox_info :: "'s sandbox_host \<Rightarrow> sandbox \<Rightarrow> ('s, SandboxInfo) action" where
  "sandbox_info h sb =
     act_bind (sx_instance_info h (sd_id sb)) (\<lambda>info.
       act_return
         \<lparr>si_id = py_str (base_host h) (jor (jget info ''id'') (JStr (sd_id sb))),
          si_state = py_str (base_host h) (jor (jget info ''status'') (JStr ''stopped'')),
          si_cpu = jget_or info ''required_cpu'' (sd_cpu sb), si_memory = jget_or info ''required_mem'' (sd_memory sb),
          si_image = jget_or info ''image'' (sd_image sb)\<rparr>)"

section \<open>Snapshots\<close>

record SnapshotInfo =
  sn_snapshot_id :: string
  sn_names :: "string list"

definition snapshot_info :: "'s host \<Rightarrow> jobj \<Rightarrow> client_exc + SnapshotInfo" where
  "snapshot_info h payload =
     (let snapshot_id = py_str h (jor (jget payload ''snapshotId'') (JStr []));
          invalid = Inl (SandboxError ''invalid reusable Snapshot response'') in
      case jor (jget payload ''names'') (JList []) of
        JList names \<Rightarrow>
          (case all_some (map as_str names) of
             None \<Rightarrow> invalid
           | Some ns \<Rightarrow> if snapshot_id = [] then invalid else Inr \<lparr>sn_snapshot_id = snapshot_id, sn_names = ns\<rparr>)
      | _ \<Rightarrow> invalid)"

definition stripped_name :: "json \<Rightarrow> string option" where
  "stripped_name v = map_option py_strip (as_str v)"

definition check_timeout_seconds :: "json \<Rightarrow> (bool \<times> py_exc) list" where
  "check_timeout_seconds v =
     [(\<not> is_int v, ValueError ''timeout_seconds must be a positive integer''),
      (int_of v \<le> 0 \<or> int_of v > 3600, ValueError ''timeout_seconds must be between 1 and 3600'')]"

text \<open>\<open>with tunnel.checkpoint_inflight()\<close>, where there is a tunnel.\<close>

definition during_checkpoint :: "'s sandbox_host \<Rightarrow> sandbox \<Rightarrow> ('s, 'a) action \<Rightarrow> ('s, 'a) action" where
  "during_checkpoint h sb m =
     (if sd_tunnel sb
      then act_bind (sx_checkpoint_enter h) (\<lambda>_.
           act_bind (act_try m) (\<lambda>r. act_bind (sx_checkpoint_exit h) (\<lambda>_. act_lift r)))
      else m)"

definition create_snapshot :: "'s sandbox_host \<Rightarrow> sandbox \<Rightarrow> json \<Rightarrow> json \<Rightarrow> ('s, SnapshotInfo) action" where
  "create_snapshot h sb name timeout_seconds =
     act_bind (act_lift (map_sum PyError id (guards
       ((sd_closed sb, RuntimeError ''sandbox is closed'')
        # (name \<noteq> JNull \<and> blank_or_other name, ValueError ''name must be a non-empty string or None'')
        # check_timeout_seconds timeout_seconds)))) (\<lambda>_.
       during_checkpoint h sb
         (act_bind (sx_create_snapshot h (sd_id sb) (stripped_name name) (int_of timeout_seconds))
           (\<lambda>payload. act_lift (snapshot_info (base_host h) payload))))"

text \<open>\<open>try: m finally: client.close()\<close>.\<close>

definition with_own_client :: "'s sandbox_host \<Rightarrow> ('s, 'a) action \<Rightarrow> ('s, 'a) action" where
  "with_own_client h m = act_bind (act_try m) (\<lambda>r. act_bind (sx_close_client h) (\<lambda>_. act_lift r))"

definition snapshot_id_check :: "json \<Rightarrow> ('s, unit) action" where
  "snapshot_id_check v =
     act_lift (if blank_or_other v then Inl (PyError (ValueError ''snapshot_id must be a non-empty string'')) else Inr ())"

definition get_snapshot :: "'s sandbox_host \<Rightarrow> json \<Rightarrow> ('s, SnapshotInfo) action" where
  "get_snapshot h snapshot_id =
     act_bind (snapshot_id_check snapshot_id) (\<lambda>_.
       with_own_client h (act_bind (sx_get_snapshot h (py_strip (str_of snapshot_id)))
         (\<lambda>payload. act_lift (snapshot_info (base_host h) payload))))"

definition delete_snapshot :: "'s sandbox_host \<Rightarrow> json \<Rightarrow> ('s, unit) action" where
  "delete_snapshot h snapshot_id =
     act_bind (snapshot_id_check snapshot_id)
       (\<lambda>_. with_own_client h (sx_delete_snapshot h (py_strip (str_of snapshot_id))))"

text \<open>An item that is no dictionary has no \<open>get\<close>.\<close>

definition snapshot_item :: "'s host \<Rightarrow> json \<Rightarrow> client_exc + SnapshotInfo" where
  "snapshot_item h v =
     (case v of JObj ob \<Rightarrow> snapshot_info h ob | _ \<Rightarrow> Inl (PyError (AttributeError ''object has no attribute get'')))"

definition list_snapshots ::
  "'s sandbox_host \<Rightarrow> json \<Rightarrow> json \<Rightarrow> json \<Rightarrow> ('s, SnapshotInfo list \<times> string) action" where
  "list_snapshots h name page_token page_size =
     act_bind (act_lift (map_sum PyError id (guards
       [(name \<noteq> JNull \<and> blank_or_other name, ValueError ''name must be a non-empty string or None''),
        (page_token \<noteq> JNull \<and> \<not> is_str page_token, TypeError ''page_token must be a string or None''),
        (page_size \<noteq> JNull \<and> \<not> is_int page_size, TypeError ''page_size must be an integer or None''),
        (page_size \<noteq> JNull \<and> int_of page_size \<le> 0, ValueError ''page_size must be greater than 0'')]))) (\<lambda>_.
     with_own_client h
       (act_bind (sx_list_snapshots h (stripped_name name) (as_str page_token) (as_strict_int page_size)) (\<lambda>payload.
          case jor (jget payload ''items'') (JList []) of
            JList items \<Rightarrow>
              act_lift (bind_result (map_result (snapshot_item (base_host h)) items) (\<lambda>infos.
                Inr (infos, py_str (base_host h) (jor (jget payload ''nextPageToken'') (JStr [])))))
          | _ \<Rightarrow> act_raise (SandboxError ''invalid reusable Snapshot list response''))))"

section \<open>Pause, resume, reload, network\<close>

record PauseResult =
  pr_sandbox_id :: string
  pr_snapshot_id :: string
  pr_size :: int
  pr_state :: string
  pr_expires_at :: int

text \<open>\<open>str(result.get(k) or "")\<close> and \<open>int(result.get(k) or 0)\<close>.\<close>

definition str_field :: "'s host \<Rightarrow> jobj \<Rightarrow> string \<Rightarrow> string" where
  "str_field h result k = py_str h (jor (jget result k) (JStr []))"

definition int_field :: "jobj \<Rightarrow> string \<Rightarrow> client_exc + int" where
  "int_field result k = jint (jor (jget result k) (JInt 0))"

definition pause_result :: "'s host \<Rightarrow> string \<Rightarrow> jobj \<Rightarrow> client_exc + PauseResult" where
  "pause_result h sid result =
     bind_result (int_field result ''size'') (\<lambda>sz.
     bind_result (int_field result ''expiresAt'') (\<lambda>expires.
     let p = \<lparr>pr_sandbox_id = str_field h result ''sandboxId'', pr_snapshot_id = str_field h result ''snapshotId'',
              pr_size = sz, pr_state = str_field h result ''state'', pr_expires_at = expires\<rparr> in
     if pr_sandbox_id p \<noteq> sid \<or> pr_state p \<noteq> ''paused'' \<or> pr_snapshot_id p = [] \<or> sz \<le> 0 \<or> expires \<le> 0
     then Inl (SandboxError ''pause response is not an authoritative PAUSED result'') else Inr p))"

definition sandbox_pause :: "'s sandbox_host \<Rightarrow> sandbox \<Rightarrow> json \<Rightarrow> json \<Rightarrow> ('s, PauseResult) action" where
  "sandbox_pause h sb ttl_seconds timeout_seconds =
     act_bind (act_lift (map_sum PyError id (guards
       ([(\<not> is_int ttl_seconds, ValueError ''ttl_seconds must be a positive integer''),
         (int_of ttl_seconds \<le> 0, ValueError ''ttl_seconds must be a positive integer'')]
        @ check_timeout_seconds timeout_seconds
        @ [(sd_closed sb, RuntimeError ''sandbox is closed'')])))) (\<lambda>_.
     act_bind (sx_pause h (sd_id sb) (int_of ttl_seconds) (int_of timeout_seconds))
       (\<lambda>result. act_lift (pause_result (base_host h) (sd_id sb) result)))"

record ResumeResult =
  rr_sandbox_id :: string
  rr_state :: string
  rr_route_address :: string
  rr_function_proxy_id :: string
  rr_node_id :: string
  rr_port_mappings :: "(string \<times> int) list"

definition port_mapping :: "string \<times> json \<Rightarrow> client_exc + (string \<times> int)" where
  "port_mapping kv = map_sum id (\<lambda>n. (fst kv, n)) (jint (snd kv))"

definition resume_result :: "'s host \<Rightarrow> string \<Rightarrow> jobj \<Rightarrow> client_exc + ResumeResult" where
  "resume_result h sid result =
     (case jor (jget result ''portMappings'') (JObj []) of
        JObj mappings \<Rightarrow>
          bind_result (map_result port_mapping mappings) (\<lambda>ports.
          let r = \<lparr>rr_sandbox_id = str_field h result ''sandboxId'', rr_state = str_field h result ''state'',
                   rr_route_address = str_field h result ''routeAddress'',
                   rr_function_proxy_id = str_field h result ''functionProxyId'',
                   rr_node_id = str_field h result ''nodeId'', rr_port_mappings = ports\<rparr> in
          if rr_sandbox_id r \<noteq> sid \<or> rr_state r \<noteq> ''running'' \<or> rr_route_address r = []
             \<or> rr_function_proxy_id r = []
          then Inl (SandboxError ''resume response is not an authoritative RUNNING result'') else Inr r)
      | _ \<Rightarrow> Inl (PyError (RuntimeError ''resume response portMappings must be an object'')))"

definition sandbox_resume :: "'s sandbox_host \<Rightarrow> sandbox \<Rightarrow> ('s, ResumeResult) action" where
  "sandbox_resume h sb =
     (if sd_closed sb then act_raise closed_error
      else act_bind (sx_resume h (sd_id sb)) (\<lambda>result. act_lift (resume_result (base_host h) (sd_id sb) result)))"

definition sandbox_reload :: "'s sandbox_host \<Rightarrow> sandbox \<Rightarrow> ('s, bool) action" where
  "sandbox_reload h sb =
     (if sd_closed sb then act_return False
      else act_bind (act_try (sx_reload h (sd_id sb))) (\<lambda>r.
        case r of
          Inr result \<Rightarrow> act_return (truthy (jget_or result ''success'' (JBool False)))
        | Inl e \<Rightarrow> if is_sandbox_error e then act_return False else act_raise e))"

definition update_network_policy :: "'s sandbox_host \<Rightarrow> sandbox \<Rightarrow> NetworkPolicy obj_arg \<Rightarrow> ('s, unit) action" where
  "update_network_policy h sb policy =
     (if wrong_obj policy then act_raise (PyError (TypeError ''policy must be a NetworkPolicy or None''))
      else if sd_closed sb then act_raise closed_error
      else
        act_bind (sx_network h (sd_id sb)
            (case obj_value policy of
               None \<Rightarrow> [] | Some p \<Rightarrow> if NetworkPolicy_is_empty p then [] else NetworkPolicy_to_dict p)) (\<lambda>result.
          if \<not> truthy (jget_or result ''success'' (JBool False))
          then act_raise (SandboxError ''network policy update was not acknowledged'') else act_return ()))"

definition get_tunnel_url :: "sandbox \<Rightarrow> client_exc + json" where
  "get_tunnel_url sb =
     (if sd_upstream sb = JNull then Inl (PyError (RuntimeError ''No upstream configured'')) else Inr (sd_tunnel_url sb))"

section \<open>On a \<open>SandboxClient\<close>\<close>

definition client_sandbox :: "'w ops \<Rightarrow> 'w session sandbox_host \<Rightarrow> 'w session sandbox_host" where
  "client_sandbox ops os =
     os\<lparr>h_invoke := invoke ops, h_now := now ops, h_sleep := sleep ops,
        sx_create_info := create_info ops, sx_delete := client_delete ops,
        sx_token := act_bind get_client (\<lambda>c. act_return (cl_token c)),
        sx_instance_info := instance_info ops, sx_create_snapshot := client_create_snapshot ops,
        sx_get_snapshot := client_get_snapshot ops, sx_list_snapshots := client_list_snapshots ops,
        sx_delete_snapshot := client_delete_snapshot ops, sx_pause := client_pause ops,
        sx_resume := client_resume ops, sx_reload := client_reload ops,
        sx_network := client_update_network_policy ops\<rparr>"

section \<open>Recording what is done\<close>

text \<open>
  A host together with the events of its life cycle calls, in the order they are made, whatever they
  come to.
\<close>

datatype sandbox_event =
    CreateSent jobj | DeleteSent string | ClientClosed
  | TunnelBuilt | TunnelStarted | TunnelStopped
  | TerminalsClosed | Invoked string

definition lifted :: "('s, 'a) action \<Rightarrow> ('s \<times> sandbox_event list, 'a) action" where
  "lifted m sl = (case m (fst sl) of (r, s) \<Rightarrow> (r, (s, snd sl)))"

definition noted :: "sandbox_event \<Rightarrow> ('s, 'a) action \<Rightarrow> ('s \<times> sandbox_event list, 'a) action" where
  "noted ev m sl = (case m (fst sl) of (r, s) \<Rightarrow> (r, (s, snd sl @ [ev])))"

definition logged :: "'s sandbox_host \<Rightarrow> ('s \<times> sandbox_event list) sandbox_host" where
  "logged h =
     \<lparr>h_invoke = (\<lambda>i action args t. noted (Invoked action) (h_invoke h i action args t)),
      h_now = lifted (h_now h), h_sleep = (\<lambda>d. lifted (h_sleep h d)), h_random = lifted (h_random h),
      h_repr = h_repr h,
      sx_create_info = (\<lambda>body. noted (CreateSent body) (sx_create_info h body)),
      sx_delete = (\<lambda>i. noted (DeleteSent i) (sx_delete h i)),
      sx_close_client = noted ClientClosed (sx_close_client h),
      sx_token = lifted (sx_token h), sx_instance_info = (\<lambda>i. lifted (sx_instance_info h i)),
      sx_create_snapshot = (\<lambda>i n t. lifted (sx_create_snapshot h i n t)),
      sx_get_snapshot = (\<lambda>i. lifted (sx_get_snapshot h i)),
      sx_list_snapshots = (\<lambda>n t p. lifted (sx_list_snapshots h n t p)),
      sx_delete_snapshot = (\<lambda>i. lifted (sx_delete_snapshot h i)),
      sx_pause = (\<lambda>i t u. lifted (sx_pause h i t u)), sx_resume = (\<lambda>i. lifted (sx_resume h i)),
      sx_reload = (\<lambda>i. lifted (sx_reload h i)), sx_network = (\<lambda>i b. lifted (sx_network h i b)),
      sx_tunnel_new = (\<lambda>u t. noted TunnelBuilt (sx_tunnel_new h u t)),
      sx_tunnel_start = (\<lambda>u t. noted TunnelStarted (sx_tunnel_start h u t)),
      sx_tunnel_stop = noted TunnelStopped (sx_tunnel_stop h),
      sx_checkpoint_enter = lifted (sx_checkpoint_enter h), sx_checkpoint_exit = lifted (sx_checkpoint_exit h),
      sx_pty_close = noted TerminalsClosed (sx_pty_close h)\<rparr>"

lemma logged_calls [simp]:
  "sx_create_info (logged h) body = noted (CreateSent body) (sx_create_info h body)"
  "sx_delete (logged h) i = noted (DeleteSent i) (sx_delete h i)"
  "sx_close_client (logged h) = noted ClientClosed (sx_close_client h)"
  "sx_token (logged h) = lifted (sx_token h)"
  "sx_tunnel_new (logged h) u t = noted TunnelBuilt (sx_tunnel_new h u t)"
  "sx_tunnel_start (logged h) url tm = noted TunnelStarted (sx_tunnel_start h url tm)"
  "sx_tunnel_stop (logged h) = noted TunnelStopped (sx_tunnel_stop h)"
  "sx_pty_close (logged h) = noted TerminalsClosed (sx_pty_close h)"
  "h_invoke (logged h) i action args wt = noted (Invoked action) (h_invoke h i action args wt)"
  "h_invoke (base_host (logged h)) i action args wt = noted (Invoked action) (h_invoke h i action args wt)"
  by (simp_all add: logged_def base_host_def host.truncate_def)

lemma noted_cases: "\<exists>r s'. noted ev m (s, l) = (r, (s', l @ [ev]))"
  by (auto simp: noted_def split: prod.splits)

lemma lifted_cases: "\<exists>r s'. lifted m (s, l) = (r, (s', l))"
  by (auto simp: lifted_def split: prod.splits)

lemma quietly_noted: "\<exists>s'. quietly (noted ev m) (s, l) = (Inr (), (s', l @ [ev]))"
  using noted_cases [of ev m s l] by (auto simp: quietly_def act_bind_def act_try_def act_return_def)

lemma rollback_eq:
  "rollback h tunnel sid =
     act_bind (if tunnel then quietly (sx_tunnel_stop h) else act_return ()) (\<lambda>_.
     act_bind (if sid \<noteq> [] then quietly (sx_delete h sid) else act_return ()) (\<lambda>_.
     quietly (sx_close_client h)))"
  by (simp add: rollback_def quietly_def)

lemma optional_log:
  "\<exists>s'. (if b then quietly (noted ev m) else act_return ()) (s, l) = (Inr (), (s', l @ (if b then [ev] else [])))"
  using quietly_noted [of ev m s l] by (auto simp: act_return_def)

lemma rollback_log:
  "\<exists>s'. failed_open (logged h) tunnel sid e (s, l) =
     (Inl e, (s', l @ (if tunnel then [TunnelStopped] else []) @ (if sid \<noteq> [] then [DeleteSent sid] else [])
        @ [ClientClosed]))"
proof -
  let ?l1 = "l @ (if tunnel then [TunnelStopped] else [])"
  let ?l2 = "?l1 @ (if sid \<noteq> [] then [DeleteSent sid] else [])"
  obtain s1 where 1: "(if tunnel then quietly (noted TunnelStopped (sx_tunnel_stop h)) else act_return ()) (s, l)
      = (Inr (), (s1, ?l1))" using optional_log [of tunnel TunnelStopped "sx_tunnel_stop h" s l] by blast
  obtain s2 where 2: "(if sid \<noteq> [] then quietly (noted (DeleteSent sid) (sx_delete h sid)) else act_return ()) (s1, ?l1)
      = (Inr (), (s2, ?l2))" using optional_log [of "sid \<noteq> []" "DeleteSent sid" "sx_delete h sid" s1 ?l1] by blast
  obtain s3 where 3: "quietly (noted ClientClosed (sx_close_client h)) (s2, ?l2) = (Inr (), (s3, ?l2 @ [ClientClosed]))"
    using quietly_noted [of ClientClosed "sx_close_client h" s2 ?l2] by blast
  have "rollback (logged h) tunnel sid (s, l) = (Inr (), (s3, ?l2 @ [ClientClosed]))"
    unfolding rollback_eq logged_calls
    by (rule trans [OF act_bind_Inr], rule 1, rule trans [OF act_bind_Inr], rule 2, rule 3)
  then show ?thesis by (simp add: failed_open_def act_raise_def act_bind_def)
qed

text \<open>
  The tunnel events of a failed and of a completed construction: a tunnel that was started is stopped
  last.
\<close>

definition tunnel_undone :: "sandbox_event list \<Rightarrow> bool" where
  "tunnel_undone ts \<longleftrightarrow>
     ts \<in> {[], [TunnelBuilt], [TunnelBuilt, TunnelStarted, TunnelStopped],
           [TunnelBuilt, TunnelStarted, TunnelStopped, TunnelStopped]}"

lemma open_tunnel_log:
  "\<exists>r present s' ts. open_tunnel environ py_float (logged h) a info sid (s, l) = ((r, present), (s', l @ ts))
     \<and> (case r of
          Inr _ \<Rightarrow> ts = [TunnelBuilt, TunnelStarted]
        | Inl _ \<Rightarrow> tunnel_undone (ts @ (if present then [TunnelStopped] else [])))"
proof (cases "tunnel_target environ py_float a info sid")
  case (Inl e)
  then show ?thesis by (auto simp: open_tunnel_def act_bind_def act_lift_def tunnel_undone_def)
next
  case (Inr target)
  obtain url timeout where target: "target = (url, timeout)" by fastforce
  obtain tok s1 where 1: "lifted (sx_token h) (s, l) = (tok, (s1, l))" using lifted_cases [of "sx_token h" s l] by blast
  show ?thesis
  proof (cases tok)
    case (Inl e)
    with Inr 1 target show ?thesis by (auto simp: open_tunnel_def act_bind_def act_lift_def tunnel_undone_def)
  next
    case tok: (Inr token)
    let ?new = "noted TunnelBuilt (sx_tunnel_new h (str_of (sb_upstream a))
        (if gateway_uses_tls environ (obj_value (sb_connection a)) then Some token else None))"
    obtain n s2 where 2: "?new (s1, l) = (n, (s2, l @ [TunnelBuilt]))"
      using noted_cases [of TunnelBuilt _ s1 l] by blast
    obtain r s3 where 3: "noted TunnelStarted (sx_tunnel_start h url timeout) (s2, l @ [TunnelBuilt])
        = (r, (s3, (l @ [TunnelBuilt]) @ [TunnelStarted]))"
      using noted_cases [of TunnelStarted "sx_tunnel_start h url timeout" s2 "l @ [TunnelBuilt]"] by blast
    obtain q s4 where 4: "noted TunnelStopped (sx_tunnel_stop h) (s3, (l @ [TunnelBuilt]) @ [TunnelStarted])
        = (q, (s4, ((l @ [TunnelBuilt]) @ [TunnelStarted]) @ [TunnelStopped]))"
      using noted_cases [of TunnelStopped "sx_tunnel_stop h" s3 "(l @ [TunnelBuilt]) @ [TunnelStarted]"] by blast
    note run = open_tunnel_def act_bind_def act_lift_def act_return_def Inr tok target 1 2
    show ?thesis
    proof (cases n)
      case (Inl e)
      then show ?thesis by (auto simp: run tunnel_undone_def)
    next
      case n: (Inr u)
      consider (raised) e where "r = Inl e" | (up) "r = Inr True" | (down) "r = Inr False"
        by (cases r) auto
      then show ?thesis
      proof cases
        case down
        then show ?thesis using 4 by (cases q) (auto simp: run n 3 tunnel_undone_def)
      qed (auto simp: run n 3 tunnel_undone_def)
    qed
  qed
qed

text \<open>What a construction leaves behind, given what the create request came to.\<close>

definition open_outcome ::
  "client_exc + jobj \<Rightarrow> json \<Rightarrow> client_exc + sandbox \<Rightarrow> sandbox_event list \<Rightarrow> bool" where
  "open_outcome created upstream r events \<longleftrightarrow>
     (case r of
        Inr sb \<Rightarrow>
          (\<exists>info. created = Inr info \<and> created_id info = Some (sd_id sb)) \<and> \<not> sd_closed sb
          \<and> (if upstream = JNull then events = [] \<and> \<not> sd_tunnel sb
             else events = [TunnelBuilt, TunnelStarted] \<and> sd_tunnel sb)
      | Inl e \<Rightarrow>
          (case created of
             Inl e' \<Rightarrow> e = e' \<and> events = [ClientClosed]
           | Inr info \<Rightarrow>
               (case created_id info of
                  None \<Rightarrow> events = [ClientClosed]
                | Some sid \<Rightarrow> \<exists>ts. tunnel_undone ts \<and> events = ts @ [DeleteSent sid, ClientClosed])))"

lemma created_id_nonempty: "created_id info = Some sid \<Longrightarrow> sid \<noteq> []"
  by (auto simp: created_id_def split: json.splits list.splits)


text \<open>The life cycle calls of a close.\<close>

definition close_events :: "bool \<Rightarrow> sandbox \<Rightarrow> sandbox_event list" where
  "close_events delete_remote sb =
     (if sd_closed sb then []
      else
        (if sd_tunnel sb then [TunnelStopped] else [])
        @ replicate (length (sh_open (sd_shells sb))) (Invoked ''shell.close'')
        @ [TerminalsClosed]
        @ (if delete_remote \<and> \<not> sd_detached sb then [DeleteSent (sd_id sb)] else [])
        @ [ClientClosed])"

definition closed_sandbox :: "sandbox \<Rightarrow> sandbox" where
  "closed_sandbox sb =
     sb\<lparr>sd_closed := True, sd_tunnel := False, sd_shells := (sd_shells sb)\<lparr>sh_open := []\<rparr>\<rparr>"

lemma close_closed: "sd_closed sb \<Longrightarrow> sandbox_close h delete_remote sb s = ((Inr (), sb), s)"
  by (simp add: sandbox_close_def)

lemma close_all_log:
  "\<exists>s'. close_all (base_host (logged h)) sid ids (s, l)
     = (Inr (), (s', l @ replicate (length ids) (Invoked ''shell.close'')))"
proof (induction ids arbitrary: s l)
  case Nil
  then show ?case by (simp add: act_return_def)
next
  case (Cons i ids)
  let ?m = "h_invoke h sid ''shell.close'' [(''session_id'', JStr i)] None"
  obtain s1 where 1: "quietly (noted (Invoked ''shell.close'') ?m) (s, l)
      = (Inr (), (s1, l @ [Invoked ''shell.close'']))"
    using quietly_noted [of "Invoked ''shell.close''" ?m s l] by blast
  have "shell_close (base_host (logged h)) sid i = quietly (noted (Invoked ''shell.close'') ?m)"
    by (simp add: shell_close_def quietly_def)
  with 1 Cons.IH [of s1 "l @ [Invoked ''shell.close'']"] show ?case by (simp add: act_bind_def)
qed

lemma optional_delete_log:
  "\<exists>r s'. act_try (if b then noted (DeleteSent sid) (sx_delete h sid) else act_return ()) (s, l)
     = (Inr r, (s', l @ (if b then [DeleteSent sid] else [])))"
  using noted_cases [of "DeleteSent sid" "sx_delete h sid" s l] by (auto simp: act_try_def act_return_def)

lemma act_bind_step: "m s = (Inr x, s') \<Longrightarrow> \<exists>r. f x s' = (r, t) \<Longrightarrow> \<exists>r. act_bind m f s = (r, t)"
  by (simp add: act_bind_def)

lemma act_bind_last: "m s = (c, t) \<Longrightarrow> \<exists>r. act_bind m (\<lambda>_. act_lift d) s = (r, t)"
  by (auto simp: act_bind_def act_lift_def split: sum.splits)

text \<open>
  C37: Closing happens once. The first \<open>close\<close> or \<open>kill\<close> stops the tunnel, closes every shell and the
  terminals, deletes the remote sandbox when it is a \<open>kill\<close> of one that is not detached, and closes the
  client last, each exactly once and in this order whichever of them fail. After it the sandbox is
  closed, and every later \<open>close\<close> or \<open>kill\<close> does nothing and reports success: a deletion that failed is
  not tried again.
\<close>

theorem close_once:
  "\<exists>r sb' s'. sandbox_close (logged h) delete_remote sb (s, l)
      = ((r, sb'), (s', l @ close_events delete_remote sb))
     \<and> sd_closed sb' \<and> sd_id sb' = sd_id sb
     \<and> (\<forall>delete_remote' t k. sandbox_close (logged h) delete_remote' sb' (t, k) = ((Inr (), sb'), (t, k)))"
proof (cases "sd_closed sb")
  case True
  then show ?thesis by (simp add: sandbox_close_def close_events_def)
next
  case False
  let ?sid = "sd_id sb" and ?ids = "sh_open (sd_shells sb)" and ?del = "delete_remote \<and> \<not> sd_detached sb"
  let ?l1 = "l @ (if sd_tunnel sb then [TunnelStopped] else [])"
  let ?l2 = "?l1 @ replicate (length ?ids) (Invoked ''shell.close'')"
  let ?l3 = "?l2 @ [TerminalsClosed]"
  let ?l4 = "?l3 @ (if ?del then [DeleteSent ?sid] else [])"
  obtain s1 where 1: "(if sd_tunnel sb then quietly (noted TunnelStopped (sx_tunnel_stop h)) else act_return ()) (s, l)
      = (Inr (), (s1, ?l1))" using optional_log [of "sd_tunnel sb" TunnelStopped "sx_tunnel_stop h" s l] by blast
  obtain s2 where 2: "quietly (close_all (base_host (logged h)) ?sid ?ids) (s1, ?l1) = (Inr (), (s2, ?l2))"
    using close_all_log [of h ?sid ?ids s1 ?l1] by (auto simp: quietly_def act_bind_def act_try_def act_return_def)
  obtain s3 where 3: "quietly (noted TerminalsClosed (sx_pty_close h)) (s2, ?l2) = (Inr (), (s3, ?l3))"
    using quietly_noted [of TerminalsClosed "sx_pty_close h" s2 ?l2] by blast
  obtain d s4 where 4: "act_try (if ?del then noted (DeleteSent ?sid) (sx_delete h ?sid) else act_return ()) (s3, ?l3)
      = (Inr d, (s4, ?l4))" using optional_delete_log [of ?del ?sid h s3 ?l3] by blast
  obtain c s5 where 5: "noted ClientClosed (sx_close_client h) (s4, ?l4) = (c, (s5, ?l4 @ [ClientClosed]))"
    using noted_cases [of ClientClosed "sx_close_client h" s4 ?l4] by blast
  have "\<exists>r. act_bind (if sd_tunnel sb then quietly (sx_tunnel_stop (logged h)) else act_return ()) (\<lambda>_.
             act_bind (quietly (close_all (base_host (logged h)) ?sid ?ids)) (\<lambda>_.
             act_bind (quietly (sx_pty_close (logged h))) (\<lambda>_.
             act_bind (act_try (if ?del then sx_delete (logged h) ?sid else act_return ()))
               (\<lambda>deleted. act_bind (sx_close_client (logged h)) (\<lambda>_. act_lift deleted))))) (s, l)
      = (r, (s5, ?l4 @ [ClientClosed]))"
    unfolding logged_calls
    by (rule act_bind_step, rule 1, rule act_bind_step, rule 2, rule act_bind_step, rule 3,
        rule act_bind_step, rule 4, rule act_bind_last, rule 5)
  then obtain r where "sandbox_close (logged h) delete_remote sb (s, l)
      = ((r, closed_sandbox sb), (s5, ?l4 @ [ClientClosed]))"
    unfolding sandbox_close_def Let_def closed_sandbox_def [symmetric] using False by (auto simp del: logged_calls)
  moreover have "?l4 @ [ClientClosed] = l @ close_events delete_remote sb" using False by (simp add: close_events_def)
  moreover have "sd_closed (closed_sandbox sb)" "sd_id (closed_sandbox sb) = sd_id sb"
    by (simp_all add: closed_sandbox_def)
  ultimately show ?thesis using close_closed by metis
qed

end
