(* ===== verification/PtySession.thy ===== *)
theory PtySession
  imports Pty
begin

text \<open>
  The connection of \<open>_pty_transport.py\<close> as a state machine, its client calls, and the sessions of
  \<open>pty.py\<close> on top of it. \<open>pt_frames\<close> keeps the text frames handled, which the code does not.
\<close>

section \<open>The connection\<close>

text \<open>
  \<open>PtyTransportError\<close> is \<open>_PtyTransportError\<close>, \<open>LoopError\<close> any other exception that ends the
  thread. Messages leave out the text of the exception they quote.
\<close>

datatype pty_error = PtyTransportError string | LoopError

text \<open>Not started; connecting, with a task and no WebSocket; receiving; thread ended.\<close>

datatype pty_phase = New | Connecting | Streaming | Finished

datatype pty_message = PtyText string | PtyBytes "byte list"

record pty =
  pt_phase :: pty_phase
  pt_ready :: bool
  pt_done :: bool
  pt_session :: "string option"
  pt_exit :: "int option"
  pt_error :: "pty_error option"
  pt_closed :: bool
  pt_sent :: "pty_message list"
  pt_data :: "byte list list"
  pt_frames :: "string list"

definition new_pty :: pty where
  "new_pty =
     \<lparr>pt_phase = New, pt_ready = False, pt_done = False, pt_session = None, pt_exit = None, pt_error = None,
      pt_closed = False, pt_sent = [], pt_data = [], pt_frames = []\<rparr>"

definition set_error :: "pty_error \<Rightarrow> pty \<Rightarrow> pty" where
  "set_error e p =
     p\<lparr>pt_error := (case pt_error p of None \<Rightarrow> Some e | Some e' \<Rightarrow> Some e'), pt_ready := True, pt_done := True\<rparr>"

section \<open>Control frames\<close>

text \<open>What a frame says; \<open>loads\<close> is \<open>json.loads\<close>, None where it raises.\<close>

datatype control =
    Started string
  | Exited string int
  | RemoteError string string
  | BadFrame string

definition control_of :: "(string \<Rightarrow> json option) \<Rightarrow> string \<Rightarrow> control" where
  "control_of loads message =
     (case loads message of
        None \<Rightarrow> BadFrame ''invalid PTY control frame''
      | Some (JObj event) \<Rightarrow>
          if jget event ''version'' \<notin> {JInt 1, JFloat 1, JBool True} then BadFrame ''unsupported PTY control frame''
          else
            (case jget event ''session_id'' of
               JStr (c # sid) \<Rightarrow>
                 (let session_id = c # sid in
                  if jget event ''type'' = JStr ''started'' then Started session_id
                  else if jget event ''type'' = JStr ''exited'' then
                    (case jget event ''exit_code'' of
                       JInt n \<Rightarrow> Exited session_id n
                     | _ \<Rightarrow> BadFrame ''PTY exit frame has no exit_code'')
                  else if jget event ''type'' = JStr ''error''
                  then RemoteError session_id
                         (case jget event ''message'' of JStr m \<Rightarrow> m | _ \<Rightarrow> ''unknown error'')
                  else BadFrame ''unknown PTY control event'')
             | _ \<Rightarrow> BadFrame ''PTY control frame has no session_id'')
      | Some _ \<Rightarrow> BadFrame ''unsupported PTY control frame'')"

definition handle_control :: "(string \<Rightarrow> json option) \<Rightarrow> string \<Rightarrow> pty \<Rightarrow> pty" where
  "handle_control loads message p =
     (case control_of loads message of
        Started sid \<Rightarrow> p\<lparr>pt_session := Some sid, pt_ready := True\<rparr>
      | Exited sid n \<Rightarrow> p\<lparr>pt_session := Some sid, pt_exit := Some n, pt_ready := True, pt_done := True\<rparr>
      | RemoteError sid m \<Rightarrow>
          set_error (PtyTransportError (''remote PTY error: '' @ m)) (p\<lparr>pt_session := Some sid\<rparr>)
      | BadFrame m \<Rightarrow> set_error (PtyTransportError m) p)"

section \<open>The thread\<close>

text \<open>
  The connection is established or not; a frame arrives, with the outcome of the callback for a
  binary one (None without a callback); the stream ends in order or by an exception; or the thread
  fails before it connects, as when \<open>websockets\<close> is not installed.
\<close>

datatype pty_event =
    ThreadStarts | ImportFails | Connects | ConnectFails
  | BinaryFrame "byte list" "bool option" | TextFrame string
  | StreamEnds | StreamFails

definition unless_over :: "string \<Rightarrow> pty \<Rightarrow> pty" where
  "unless_over m p = (if \<not> pt_closed p \<and> \<not> pt_done p then set_error (PtyTransportError m) p else p)"

text \<open>The end of \<open>_thread_main\<close>.\<close>

definition finish :: "pty \<Rightarrow> pty" where
  "finish p = p\<lparr>pt_phase := Finished, pt_ready := True, pt_done := True\<rparr>"

definition stream_over :: "pty \<Rightarrow> pty" where
  "stream_over p = finish (unless_over ''PTY connection closed before terminal status'' p)"

definition stream_failed :: "pty \<Rightarrow> pty" where
  "stream_failed p = stream_over (unless_over ''PTY WebSocket connection failed'' p)"

definition resize_text :: "int \<Rightarrow> int \<Rightarrow> pty_message" where
  "resize_text rows cols = PtyText (''RESIZE:'' @ str_int cols @ '':'' @ str_int rows)"

fun thread_step :: "(string \<Rightarrow> json option) \<Rightarrow> int \<Rightarrow> int \<Rightarrow> pty_event \<Rightarrow> pty \<Rightarrow> pty option" where
  "thread_step loads rows cols ThreadStarts p =
     (if pt_phase p = New then Some (p\<lparr>pt_phase := Connecting\<rparr>) else None)"
| "thread_step loads rows cols ImportFails p =
     (if pt_phase p = Connecting then Some (finish (set_error LoopError p)) else None)"
| "thread_step loads rows cols Connects p =
     (if pt_phase p = Connecting
      then Some (p\<lparr>pt_phase := Streaming, pt_sent := pt_sent p @ [resize_text rows cols]\<rparr>) else None)"
| "thread_step loads rows cols ConnectFails p =
     (if pt_phase p = Connecting then Some (stream_failed p) else None)"
| "thread_step loads rows cols (BinaryFrame b callback) p =
     (if pt_phase p \<noteq> Streaming then None
      else
        case callback of
          None \<Rightarrow> Some p
        | Some True \<Rightarrow> Some (p\<lparr>pt_data := pt_data p @ [b]\<rparr>)
        | Some False \<Rightarrow> Some (finish (set_error (PtyTransportError ''PTY on_data callback failed'') p)))"
| "thread_step loads rows cols (TextFrame message) p =
     (if pt_phase p \<noteq> Streaming then None
      else
        let p = (handle_control loads message p)\<lparr>pt_frames := pt_frames p @ [message]\<rparr>
        in Some (if pt_done p then finish p else p))"
| "thread_step loads rows cols StreamEnds p =
     (if pt_phase p = Streaming then Some (stream_over p) else None)"
| "thread_step loads rows cols StreamFails p =
     (if pt_phase p = Streaming then Some (stream_failed p) else None)"

section \<open>Client calls\<close>

text \<open>
  What \<open>close\<close> asks of the thread; the connection then ends by an event of the thread. A further
  \<open>close\<close> does nothing.
\<close>

datatype close_request = NoRequest | CloseWebSocket | CancelTask

definition client_close :: "pty \<Rightarrow> close_request \<times> pty" where
  "client_close p =
     (if pt_closed p then (NoRequest, p)
      else
        (if pt_phase p = Streaming \<and> \<not> pt_done p then CloseWebSocket
         else if pt_phase p \<in> {Connecting, Streaming} then CancelTask
         else NoRequest,
         p\<lparr>pt_closed := True\<rparr>))"

text \<open>
  \<open>_send\<close>, called from the callback (\<open>in_thread\<close>) or not; \<open>written\<close> is whether the WebSocket takes
  the message in time.
\<close>

definition client_send :: "bool \<Rightarrow> bool \<Rightarrow> pty_message \<Rightarrow> pty \<Rightarrow> (pty_error + unit) \<times> pty" where
  "client_send in_thread written m p =
     (if pt_done p
      then (Inl (case pt_error p of
                   Some e \<Rightarrow> e | None \<Rightarrow> PtyTransportError ''PTY session is no longer running''), p)
      else if in_thread
      then (Inl (PtyTransportError ''PTY methods cannot be called from the on_data callback''), p)
      else if pt_phase p \<noteq> Streaming then (Inl (PtyTransportError ''PTY transport is not connected''), p)
      else if written then (Inr (), p\<lparr>pt_sent := pt_sent p @ [m]\<rparr>)
      else (Inl (PtyTransportError ''failed to write to PTY''), p))"

definition close_stdin_message :: pty_message where
  "close_stdin_message = PtyText ''STDIN_EOF''"

text \<open>
  What \<open>wait\<close> and \<open>start\<close> come to at the moment they stop waiting: \<open>WaitTimeout\<close> is
  \<open>TimeoutError\<close>.
\<close>

datatype pty_wait = WaitTimeout | WaitError pty_error | WaitExit int

definition wait_result :: "pty \<Rightarrow> pty_wait" where
  "wait_result p =
     (if \<not> pt_done p then WaitTimeout
      else
        case pt_error p of
          Some e \<Rightarrow> WaitError e
        | None \<Rightarrow>
            (case pt_exit p of
               Some n \<Rightarrow> WaitExit n
             | None \<Rightarrow>
                 WaitError (PtyTransportError
                   (if pt_closed p then ''PTY session was closed by the client''
                    else ''PTY connection closed without an exit status''))))"

definition start_result :: "pty \<Rightarrow> (pty_wait + unit) \<times> pty" where
  "start_result p =
     (if \<not> pt_ready p then (Inl WaitTimeout, snd (client_close p))
      else
        case pt_error p of
          Some e \<Rightarrow> (Inl (WaitError e), p)
        | None \<Rightarrow>
            if pt_session p = None
            then (Inl (WaitError (PtyTransportError ''PTY connection closed before it started'')), p)
            else (Inr (), p))"

section \<open>Runs\<close>

text \<open>Events of the thread and calls of the client in any order.\<close>

inductive pty_run :: "(string \<Rightarrow> json option) \<Rightarrow> int \<Rightarrow> int \<Rightarrow> pty \<Rightarrow> pty \<Rightarrow> bool"
  for loads rows cols where
  Refl: "pty_run loads rows cols p p"
| Thread: "pty_run loads rows cols p q \<Longrightarrow> thread_step loads rows cols ev q = Some r \<Longrightarrow> pty_run loads rows cols p r"
| Close: "pty_run loads rows cols p q \<Longrightarrow> client_close q = (c, r) \<Longrightarrow> pty_run loads rows cols p r"
| Send: "pty_run loads rows cols p q \<Longrightarrow> client_send in_thread written m q = (x, r) \<Longrightarrow> pty_run loads rows cols p r"

inductive_cases pty_runE: "pty_run loads rows cols p q"

section \<open>The outcome of a session\<close>

definition is_started :: "(string \<Rightarrow> json option) \<Rightarrow> string \<Rightarrow> bool" where
  "is_started loads m \<longleftrightarrow> (\<exists>sid. control_of loads m = Started sid)"

definition ends_with_exit :: "(string \<Rightarrow> json option) \<Rightarrow> string list \<Rightarrow> int \<Rightarrow> bool" where
  "ends_with_exit loads frames n \<longleftrightarrow>
     (\<exists>pre m sid. frames = pre @ [m] \<and> list_all (is_started loads) pre \<and> control_of loads m = Exited sid n)"

definition no_exit :: "(string \<Rightarrow> json option) \<Rightarrow> string list \<Rightarrow> bool" where
  "no_exit loads frames \<longleftrightarrow> (\<forall>m\<in>set frames. \<forall>sid n. control_of loads m \<noteq> Exited sid n)"

definition running_ok :: "(string \<Rightarrow> json option) \<Rightarrow> pty \<Rightarrow> bool" where
  "running_ok loads p \<longleftrightarrow>
     pt_phase p \<noteq> Finished \<and> \<not> pt_done p \<and> pt_exit p = None \<and> pt_error p = None
     \<and> list_all (is_started loads) (pt_frames p)"

definition over_ok :: "(string \<Rightarrow> json option) \<Rightarrow> pty \<Rightarrow> bool" where
  "over_ok loads p \<longleftrightarrow>
     pt_phase p = Finished \<and> pt_done p \<and> pt_ready p
     \<and> (case pt_exit p of
          Some n \<Rightarrow> pt_error p = None \<and> ends_with_exit loads (pt_frames p) n
        | None \<Rightarrow> (pt_error p = None \<longrightarrow> pt_closed p) \<and> no_exit loads (pt_frames p))"

definition pty_inv :: "(string \<Rightarrow> json option) \<Rightarrow> pty \<Rightarrow> bool" where
  "pty_inv loads p \<longleftrightarrow> running_ok loads p \<or> over_ok loads p"

lemma started_no_exit: "list_all (is_started loads) frames \<Longrightarrow> no_exit loads frames"
  by (auto simp: list_all_iff no_exit_def is_started_def)

lemma set_error_over:
  "pt_error p = None \<Longrightarrow> pt_exit p = None \<Longrightarrow> no_exit loads (pt_frames p) \<Longrightarrow> over_ok loads (finish (set_error e p))"
  by (simp add: over_ok_def finish_def set_error_def)

lemma stream_over_ok:
  "running_ok loads p \<Longrightarrow> over_ok loads (stream_over p)"
  by (auto simp: running_ok_def stream_over_def unless_over_def over_ok_def finish_def set_error_def
      dest: started_no_exit)

lemma stream_failed_ok:
  "running_ok loads p \<Longrightarrow> over_ok loads (stream_failed p)"
  by (auto simp: running_ok_def stream_failed_def stream_over_def unless_over_def over_ok_def finish_def set_error_def
      dest: started_no_exit)

lemma text_frame_ok:
  assumes "running_ok loads p"
    "q = (handle_control loads m p)\<lparr>pt_frames := pt_frames p @ [m]\<rparr>"
  shows "pty_inv loads (if pt_done q then finish q else q)"
proof -
  have r: "\<not> pt_done p" "pt_exit p = None" "pt_error p = None" "pt_phase p \<noteq> Finished"
    "list_all (is_started loads) (pt_frames p)" "no_exit loads (pt_frames p)"
    using assms(1) by (auto simp: running_ok_def dest: started_no_exit)
  show ?thesis
  proof (cases "control_of loads m")
    case (Started sid)
    then show ?thesis using r assms(2) by (simp add: pty_inv_def running_ok_def handle_control_def is_started_def)
  next
    case (Exited sid n)
    with r(5) have "ends_with_exit loads (pt_frames p @ [m]) n" by (auto simp: ends_with_exit_def)
    then show ?thesis using r assms(2) Exited by (simp add: pty_inv_def over_ok_def handle_control_def finish_def)
  next
    case (RemoteError sid e)
    with r(6) have "no_exit loads (pt_frames p @ [m])" by (auto simp: no_exit_def)
    then show ?thesis using r assms(2) RemoteError
      by (simp add: pty_inv_def over_ok_def handle_control_def finish_def set_error_def)
  next
    case (BadFrame e)
    with r(6) have "no_exit loads (pt_frames p @ [m])" by (auto simp: no_exit_def)
    then show ?thesis using r assms(2) BadFrame
      by (simp add: pty_inv_def over_ok_def handle_control_def finish_def set_error_def)
  qed
qed

lemma thread_step_running: "thread_step loads rows cols ev p = Some q \<Longrightarrow> pt_phase p \<noteq> Finished"
  by (cases ev) (auto split: if_splits)

lemma thread_step_inv [inv_intros]:
  assumes "pty_inv loads p" "thread_step loads rows cols ev p = Some q"
  shows "pty_inv loads q"
proof -
  have r: "running_ok loads p"
    using assms thread_step_running by (auto simp: pty_inv_def over_ok_def)
  show ?thesis
  proof (cases ev)
    case (BinaryFrame b callback)
    then show ?thesis using assms(2) r set_error_over started_no_exit
      by (auto simp: pty_inv_def running_ok_def split: if_splits option.splits bool.splits)
  next
    case (TextFrame m)
    then show ?thesis using assms(2) text_frame_ok [OF r refl, of m] by (simp add: Let_def split: if_splits)
  qed (use assms(2) r stream_over_ok [OF r] stream_failed_ok [OF r] set_error_over started_no_exit in
      \<open>auto simp: pty_inv_def running_ok_def split: if_splits\<close>)
qed

lemma client_close_inv [inv_intros]: "pty_inv loads p \<Longrightarrow> client_close p = (c, q) \<Longrightarrow> pty_inv loads q"
  by (auto simp: client_close_def pty_inv_def running_ok_def over_ok_def split: if_splits option.splits)

lemma client_send_inv [inv_intros]: "pty_inv loads p \<Longrightarrow> client_send t w m p = (c, q) \<Longrightarrow> pty_inv loads q"
  by (auto simp: client_send_def pty_inv_def running_ok_def over_ok_def split: if_splits option.splits)

lemma pty_run_inv: "pty_run loads rows cols p q \<Longrightarrow> pty_inv loads p \<Longrightarrow> pty_inv loads q"
  by (induction rule: pty_run.induct) (auto intro: inv_intros)

lemma over_stays:
  assumes "pty_run loads rows cols p q" "over_ok loads p"
  shows "over_ok loads q \<and> wait_result q = wait_result p \<and> pt_frames q = pt_frames p"
  using assms
proof (induction rule: pty_run.induct)
  case (Thread p q ev r)
  then show ?case using thread_step_running by (fastforce simp: over_ok_def)
next
  case (Close p q c r)
  then show ?case by (auto simp: client_close_def over_ok_def wait_result_def split: if_splits option.splits)
next
  case (Send p q in_thread written m x r)
  then show ?case by (auto simp: client_send_def over_ok_def split: if_splits)
qed simp

lemma pty_outcome:
  assumes "pty_run loads rows cols new_pty p" "pt_done p" "pty_run loads rows cols p q"
  shows "wait_result q = wait_result p" "wait_result p \<noteq> WaitTimeout"
    "wait_result p = WaitExit n \<longleftrightarrow> ends_with_exit loads (pt_frames p) n"
    "pt_error p \<noteq> None \<or> pt_exit p \<noteq> None \<or> pt_closed p"
proof -
  have "pty_inv loads new_pty" by (simp add: pty_inv_def running_ok_def new_pty_def)
  with assms(1) have "pty_inv loads p" by (rule pty_run_inv)
  with assms(2) have over: "over_ok loads p" by (auto simp: pty_inv_def running_ok_def)
  show "wait_result q = wait_result p" using over_stays [OF assms(3) over] by simp
  show "wait_result p \<noteq> WaitTimeout" using assms(2) by (auto simp: wait_result_def split: option.splits)
  show "wait_result p = WaitExit n \<longleftrightarrow> ends_with_exit loads (pt_frames p) n"
    using over by (auto simp: wait_result_def over_ok_def ends_with_exit_def no_exit_def split: option.splits)
  show "pt_error p \<noteq> None \<or> pt_exit p \<noteq> None \<or> pt_closed p" using over by (auto simp: over_ok_def split: option.splits)
qed

text \<open>
  C34: The outcome of a terminal session. Whatever frames, callbacks, failures and client calls come in
  whatever order, once the session is done \<open>wait\<close> keeps giving the same outcome; it is the exit code
  \<open>n\<close> exactly when the text frames were start notices followed by one exit frame with \<open>n\<close>; and a session
  never ends without an exit code, an error of its own, or having been closed by the client.
\<close>

theorem pty_outcome_final:
  assumes "pty_run loads rows cols new_pty p" "pt_done p" "pty_run loads rows cols p q"
  shows "wait_result q = wait_result p \<and> wait_result p \<noteq> WaitTimeout
    \<and> (\<forall>n. wait_result p = WaitExit n \<longleftrightarrow> ends_with_exit loads (pt_frames p) n)
    \<and> (pt_error p \<noteq> None \<or> pt_exit p \<noteq> None \<or> pt_closed p)"
  using pty_outcome [OF assms] by blast

definition sample_loads :: "string \<Rightarrow> json option" where
  "sample_loads m =
     Some (JObj ([(''version'', JInt 1), (''session_id'', JStr ''s1'')]
       @ (if m = ''s'' then [(''type'', JStr ''started'')]
          else [(''type'', JStr ''exited''), (''exit_code'', JInt 3)])))"

definition sample_exited :: pty where
  "sample_exited =
     new_pty\<lparr>pt_phase := Finished, pt_ready := True, pt_done := True, pt_session := Some ''s1'',
       pt_exit := Some 3, pt_sent := [resize_text 24 80], pt_frames := [''s'', ''e'']\<rparr>"

lemma sample_run: "pty_run sample_loads 24 80 new_pty sample_exited"
proof -
  let ?c = "new_pty\<lparr>pt_phase := Connecting\<rparr>"
  let ?s = "new_pty\<lparr>pt_phase := Streaming, pt_sent := [resize_text 24 80]\<rparr>"
  let ?t = "?s\<lparr>pt_session := Some ''s1'', pt_ready := True, pt_frames := [''s'']\<rparr>"
  have "pty_run sample_loads 24 80 new_pty ?c"
    by (rule pty_run.Thread [OF pty_run.Refl, where ev = ThreadStarts]) (simp add: new_pty_def)
  then have "pty_run sample_loads 24 80 new_pty ?s"
    by (rule pty_run.Thread [where ev = Connects]) (simp add: new_pty_def)
  then have "pty_run sample_loads 24 80 new_pty ?t"
    by (rule pty_run.Thread [where ev = "TextFrame ''s''"])
      (simp add: new_pty_def handle_control_def control_of_def sample_loads_def)
  then show ?thesis
    by (rule pty_run.Thread [where ev = "TextFrame ''e''"])
      (simp add: new_pty_def handle_control_def control_of_def sample_loads_def finish_def sample_exited_def)
qed

theorem pty_outcome_final_witness:
  "wait_result (snd (client_close sample_exited)) = wait_result sample_exited
   \<and> wait_result sample_exited \<noteq> WaitTimeout \<and> wait_result sample_exited = WaitExit 3
   \<and> ends_with_exit sample_loads (pt_frames sample_exited) 3
   \<and> pt_exit sample_exited = Some 3"
proof -
  have d: "pt_done sample_exited" "wait_result sample_exited = WaitExit 3"
    by (simp_all add: sample_exited_def new_pty_def wait_result_def)
  have q: "pty_run sample_loads 24 80 sample_exited (snd (client_close sample_exited))"
    by (rule pty_run.Close [OF pty_run.Refl prod.collapse [symmetric]])
  note final = pty_outcome_final [OF sample_run d(1) q]
  show ?thesis using final d(2) by (auto simp: sample_exited_def)
qed

section \<open>Sessions\<close>

text \<open>What the public calls raise: only \<open>_PtyTransportError\<close> becomes a \<open>PtyError\<close>.\<close>

datatype session_exc = PtyError string | PtyTimeoutError | PtyArgument py_exc | PtyOther

definition session_error :: "pty_error \<Rightarrow> session_exc" where
  "session_error e = (case e of PtyTransportError m \<Rightarrow> PtyError m | LoopError \<Rightarrow> PtyOther)"

definition session_id :: "pty \<Rightarrow> session_exc + string" where
  "session_id p =
     (case pt_session p of None \<Rightarrow> Inl (PtyError ''PTY session has not started'') | Some sid \<Rightarrow> Inr sid)"

definition session_send :: "bool \<Rightarrow> bool \<Rightarrow> pty_message \<Rightarrow> pty \<Rightarrow> (session_exc + unit) \<times> pty" where
  "session_send in_thread written m p =
     (case client_send in_thread written m p of (r, q) \<Rightarrow> (map_sum session_error id r, q))"

definition session_resize :: "bool \<Rightarrow> bool \<Rightarrow> json \<Rightarrow> json \<Rightarrow> pty \<Rightarrow> (session_exc + unit) \<times> pty" where
  "session_resize in_thread written rows cols p =
     (case bind_result (validate_size ''rows'' rows)
         (\<lambda>rows. bind_result (validate_size ''cols'' cols) (\<lambda>cols. Inr (rows, cols))) of
        Inl e \<Rightarrow> (Inl (PtyArgument e), p)
      | Inr (rows, cols) \<Rightarrow> session_send in_thread written (resize_text rows cols) p)"

text \<open>\<open>p\<close> is the state when the wait ends.\<close>

definition session_wait :: "rat option \<Rightarrow> pty \<Rightarrow> session_exc + int" where
  "session_wait timeout p =
     (if (case timeout of None \<Rightarrow> False | Some t \<Rightarrow> t \<le> 0)
      then Inl (PtyArgument (ValueError ''timeout must be greater than zero''))
      else
        case wait_result p of
          WaitTimeout \<Rightarrow> Inl PtyTimeoutError
        | WaitError e \<Rightarrow> Inl (session_error e)
        | WaitExit n \<Rightarrow> Inr n)"

text \<open>
  The end of \<open>Pty.create\<close> for session number \<open>n\<close>: \<open>p\<close> is the connection when \<open>start\<close> stops
  waiting, \<open>open\<close> the factory's sessions at that time (the thread's \<open>on_done\<close> may have removed it).
\<close>

definition finish_create :: "nat \<Rightarrow> nat set \<Rightarrow> pty \<Rightarrow> (session_exc + nat) \<times> nat set \<times> pty" where
  "finish_create n sessions p =
     (case start_result p of
        (Inr _, q) \<Rightarrow> (Inr n, sessions, q)
      | (Inl WaitTimeout, q) \<Rightarrow> (Inl PtyTimeoutError, sessions - {n}, snd (client_close q))
      | (Inl (WaitError (PtyTransportError m)), q) \<Rightarrow> (Inl (PtyError m), sessions - {n}, snd (client_close q))
      | (Inl _, q) \<Rightarrow> (Inl PtyOther, sessions, q))"

lemma finish_create_timeout:
  "\<not> pt_ready p \<Longrightarrow>
   finish_create n sessions p = (Inl PtyTimeoutError, sessions - {n}, snd (client_close (snd (client_close p))))"
  by (simp add: finish_create_def start_result_def)

lemma client_close_idem: "client_close (snd (client_close p)) = (NoRequest, snd (client_close p))"
  by (simp add: client_close_def)

lemma failed_create_closed:
  "finish_create n sessions p = (Inl e, sessions', q) \<Longrightarrow> e \<noteq> PtyOther \<Longrightarrow> pt_closed q \<and> n \<notin> sessions'"
  by (auto simp: finish_create_def client_close_def split: prod.splits sum.splits pty_wait.splits pty_error.splits if_splits)

end
