(* ===== verification/PtyFactory.thy ===== *)
theory PtyFactory
  imports PtySession
begin

text \<open>
  The sessions of one \<open>Pty\<close> (\<open>pty.py\<close>): the set that \<open>create\<close> enters a session into before its
  thread starts, that \<open>close\<close>, a failed \<open>create\<close> and the end of the thread (\<open>on_done\<close>) take it out
  of, and that \<open>_close\<close> empties. Sessions are numbered as they are made; their connections are the
  state machines of \<open>PtySession\<close>.
\<close>

section \<open>The TLS settings of a connection\<close>

text \<open>What \<open>_ssl_context\<close> sets: the oldest version accepted, and whether host and certificate are checked.\<close>

datatype tls_version = TLSv1_2 | TLSv1_3

record ssl_settings =
  ssl_minimum_version :: tls_version
  ssl_check_hostname :: bool
  ssl_verify :: bool

definition ssl_context :: "bool \<Rightarrow> ssl_settings option" where
  "ssl_context tls =
     (if \<not> tls then None
      else Some \<lparr>ssl_minimum_version = TLSv1_2, ssl_check_hostname = False, ssl_verify = False\<rparr>)"

section \<open>State and steps\<close>

record pty_factory =
  pf_conns :: "pty list"
  pf_sessions :: "nat list"

definition new_factory :: pty_factory where
  "new_factory = \<lparr>pf_conns = [], pf_sessions = []\<rparr>"

definition set_conn :: "nat \<Rightarrow> pty \<Rightarrow> pty_factory \<Rightarrow> pty_factory" where
  "set_conn n p f = f\<lparr>pf_conns := (pf_conns f)[n := p]\<rparr>"

definition remove_session :: "nat \<Rightarrow> pty_factory \<Rightarrow> pty_factory" where
  "remove_session n f = f\<lparr>pf_sessions := removeAll n (pf_sessions f)\<rparr>"

text \<open>\<open>create\<close> up to the start of the thread.\<close>

definition register_session :: "pty_factory \<Rightarrow> pty_factory" where
  "register_session f =
     f\<lparr>pf_conns := pf_conns f @ [new_pty], pf_sessions := pf_sessions f @ [length (pf_conns f)]\<rparr>"

definition close_session :: "nat \<Rightarrow> pty_factory \<Rightarrow> pty_factory" where
  "close_session n f = remove_session n (set_conn n (snd (client_close (pf_conns f ! n))) f)"

text \<open>\<open>create\<close> after \<open>start\<close> came to an end, one way or the other.\<close>

definition complete_create :: "nat \<Rightarrow> pty_factory \<Rightarrow> pty_factory" where
  "complete_create n f =
     (case finish_create n (set (pf_sessions f)) (pf_conns f ! n) of
        (_, left, q) \<Rightarrow> (set_conn n q f)\<lparr>pf_sessions := filter (\<lambda>k. k \<in> left) (pf_sessions f)\<rparr>)"

definition close_factory :: "pty_factory \<Rightarrow> pty_factory" where
  "close_factory f = fold close_session (pf_sessions f) f"

datatype factory_event =
    Register | CompleteCreate nat | ThreadMoves nat pty_event | ThreadDone nat
  | Sends nat bool bool pty_message | CloseSession nat | CloseFactory

text \<open>One event. The thread of a session calls \<open>on_done\<close> as the last thing it does.\<close>

definition factory_step ::
  "(string \<Rightarrow> json option) \<Rightarrow> int \<Rightarrow> int \<Rightarrow> factory_event \<Rightarrow> pty_factory \<Rightarrow> pty_factory option" where
  "factory_step loads rows cols ev f =
     (case ev of
        Register \<Rightarrow> Some (register_session f)
      | CompleteCreate n \<Rightarrow> if n < length (pf_conns f) then Some (complete_create n f) else None
      | ThreadMoves n e \<Rightarrow>
          if n < length (pf_conns f)
          then map_option (\<lambda>q. set_conn n q f) (thread_step loads rows cols e (pf_conns f ! n)) else None
      | ThreadDone n \<Rightarrow>
          if n < length (pf_conns f) \<and> pt_phase (pf_conns f ! n) = Finished then Some (remove_session n f) else None
      | Sends n in_thread written m \<Rightarrow>
          if n < length (pf_conns f)
          then Some (set_conn n (snd (client_send in_thread written m (pf_conns f ! n))) f) else None
      | CloseSession n \<Rightarrow> if n < length (pf_conns f) then Some (close_session n f) else None
      | CloseFactory \<Rightarrow> Some (close_factory f))"

inductive factory_run :: "(string \<Rightarrow> json option) \<Rightarrow> int \<Rightarrow> int \<Rightarrow> pty_factory \<Rightarrow> pty_factory \<Rightarrow> bool"
  for loads rows cols where
  Start: "factory_run loads rows cols f f"
| Step: "factory_run loads rows cols f g \<Longrightarrow> factory_step loads rows cols ev g = Some h \<Longrightarrow> factory_run loads rows cols f h"

inductive_cases factory_runE: "factory_run loads rows cols f g"

section \<open>No terminal is forgotten\<close>

text \<open>A connection that needs no more closing: the client closed it, or its thread is at its end.\<close>

definition settled :: "pty \<Rightarrow> bool" where
  "settled p \<longleftrightarrow> pt_closed p \<or> pt_phase p = Finished"

definition factory_inv :: "pty_factory \<Rightarrow> bool" where
  "factory_inv f \<longleftrightarrow>
     (\<forall>n\<in>set (pf_sessions f). n < length (pf_conns f))
     \<and> (\<forall>n<length (pf_conns f). n \<notin> set (pf_sessions f) \<longrightarrow> settled (pf_conns f ! n))"

text \<open>A step on one connection that does not unsettle it, and takes a session out only when it is settled.\<close>

lemma factory_inv_conn:
  assumes "factory_inv f" "pf_conns g = (pf_conns f)[n := q]" "set (pf_sessions g) \<subseteq> set (pf_sessions f)"
    and "\<And>k. k \<in> set (pf_sessions f) \<Longrightarrow> k \<notin> set (pf_sessions g) \<Longrightarrow> k = n \<and> settled q"
    and "settled (pf_conns f ! n) \<Longrightarrow> settled q"
  shows "factory_inv g"
proof -
  have "settled (pf_conns g ! k)" if "k < length (pf_conns g)" "k \<notin> set (pf_sessions g)" for k
  proof (cases "k = n")
    case True
    then show ?thesis using that assms by (auto simp: factory_inv_def)
  next
    case False
    then show ?thesis using that assms by (auto simp: factory_inv_def)
  qed
  then show ?thesis using assms(1-3) by (auto simp: factory_inv_def)
qed

lemma client_close_settles [simp]: "settled (snd (client_close p))"
  by (simp add: client_close_def settled_def)

lemma thread_step_settled: "thread_step loads rows cols e p = Some q \<Longrightarrow> settled p \<Longrightarrow> settled q"
  by (cases e)
    (auto simp: settled_def finish_def set_error_def stream_over_def stream_failed_def unless_over_def
      handle_control_def Let_def split: if_splits option.splits bool.splits control.splits)

lemma client_send_settled: "settled p \<Longrightarrow> settled (snd (client_send in_thread written m p))"
  by (auto simp: client_send_def settled_def)

lemma close_session_inv:
  assumes "factory_inv f"
  shows "factory_inv (close_session n f)"
  by (rule factory_inv_conn [OF assms, of _ n "snd (client_close (pf_conns f ! n))"])
    (auto simp: close_session_def remove_session_def set_conn_def)

lemma finish_create_settles:
  assumes "finish_create n sessions p = (r, left, q)"
  shows "left = sessions \<or> left = sessions - {n} \<and> settled q" "settled p \<Longrightarrow> settled q"
  using assms
  by (auto simp: finish_create_def start_result_def client_close_def settled_def
      split: if_splits option.splits pty_wait.splits pty_error.splits)

lemma complete_create_inv:
  assumes "factory_inv f"
  shows "factory_inv (complete_create n f)"
proof -
  obtain r left q where run: "finish_create n (set (pf_sessions f)) (pf_conns f ! n) = (r, left, q)"
    by (cases "finish_create n (set (pf_sessions f)) (pf_conns f ! n)") auto
  show ?thesis
    by (rule factory_inv_conn [OF assms, of _ n q])
      (use finish_create_settles [OF run] in \<open>auto simp: complete_create_def run set_conn_def\<close>)
qed

lemma close_factory_inv: "factory_inv f \<Longrightarrow> factory_inv (close_factory f)"
proof -
  have "factory_inv (fold close_session ns f)" if "factory_inv f" for ns
    using that by (induction ns arbitrary: f) (simp_all add: close_session_inv)
  then show "factory_inv f \<Longrightarrow> factory_inv (close_factory f)" by (simp add: close_factory_def)
qed

lemma factory_step_inv [inv_intros]:
  assumes "factory_inv f" "factory_step loads rows cols ev f = Some g"
  shows "factory_inv g"
proof (cases ev)
  case Register
  with assms show ?thesis
    by (auto simp: factory_step_def register_session_def factory_inv_def nth_append less_Suc_eq)
next
  case (ThreadMoves n e)
  with assms(2) obtain q where "thread_step loads rows cols e (pf_conns f ! n) = Some q" "g = set_conn n q f"
    by (auto simp: factory_step_def split: if_splits)
  then show ?thesis
    by (intro factory_inv_conn [OF assms(1), of _ n q]) (auto simp: set_conn_def intro: thread_step_settled)
next
  case (ThreadDone n)
  with assms(2) have "pt_phase (pf_conns f ! n) = Finished" "g = remove_session n f"
    by (auto simp: factory_step_def split: if_splits)
  then show ?thesis
    by (intro factory_inv_conn [OF assms(1), of _ n "pf_conns f ! n"]) (auto simp: remove_session_def settled_def)
next
  case (Sends n t w m)
  with assms(2) have "g = set_conn n (snd (client_send t w m (pf_conns f ! n))) f"
    by (auto simp: factory_step_def split: if_splits)
  then show ?thesis
    by (intro factory_inv_conn [OF assms(1), of _ n "snd (client_send t w m (pf_conns f ! n))"])
      (auto simp: set_conn_def client_send_settled)
qed (use assms in \<open>auto simp: factory_step_def close_session_inv complete_create_inv close_factory_inv split: if_splits\<close>)

lemma factory_run_inv: "factory_run loads rows cols f g \<Longrightarrow> factory_inv f \<Longrightarrow> factory_inv g"
  by (induction rule: factory_run.induct) (auto intro: inv_intros)

lemma close_factory_empties:
  assumes "factory_inv f"
  shows "pf_sessions (close_factory f) = []" "length (pf_conns (close_factory f)) = length (pf_conns f)"
proof -
  have sessions: "pf_sessions (fold close_session ns f) = filter (\<lambda>k. k \<notin> set ns) (pf_sessions f)" for ns f
    by (induction ns arbitrary: f)
      (auto simp: close_session_def remove_session_def set_conn_def removeAll_filter_not_eq intro!: filter_cong)
  then show "pf_sessions (close_factory f) = []" by (simp add: close_factory_def)
  have "length (pf_conns (fold close_session ns f)) = length (pf_conns f)" for ns f
    by (induction ns arbitrary: f) (auto simp: close_session_def remove_session_def set_conn_def)
  then show "length (pf_conns (close_factory f)) = length (pf_conns f)" by (simp add: close_factory_def)
qed


definition sample_factory :: pty_factory where
  "sample_factory =
     \<lparr>pf_conns = [new_pty\<lparr>pt_phase := Connecting\<rparr>, new_pty], pf_sessions = [0, 1]\<rparr>"


end
