(* ===== verification/Resources.thy ===== *)
theory Resources
  imports Rpc
begin

text \<open>
  \<open>_resources.py\<close>: the nodes a tenant can see, decoded from the scheduler's answer. The client is
  three actions (construction, the query of \<open>SandboxClient.resources\<close>, closing); \<open>repr\<close> is \<open>str\<close> of a
  value that is no string, number or constant. Numbers are exact.
\<close>

fun scalar_value :: "json \<Rightarrow> rat option" where
  "scalar_value (JInt n) = Some (rat_of_int n)"
| "scalar_value (JFloat q) = Some q"
| "scalar_value _ = None"

definition resource_scalar :: "json \<Rightarrow> rat option" where
  "resource_scalar resource =
     (case as_obj resource of
        None \<Rightarrow> None
      | Some r \<Rightarrow>
          (case as_obj (jget r ''scalar'') of
             None \<Rightarrow> None
           | Some scalar \<Rightarrow> scalar_value (jget scalar ''value'')))"

definition resource_values :: "json \<Rightarrow> (string \<times> rat) list" where
  "resource_values v =
     (case as_obj v of
        None \<Rightarrow> []
      | Some ob \<Rightarrow>
          (case as_obj (jget ob ''resources'') of
             None \<Rightarrow> []
           | Some rs \<Rightarrow> List.map_filter (\<lambda>(name, r). map_option (Pair name) (resource_scalar r)) rs))"

definition label_value :: "json \<Rightarrow> json option" where
  "label_value counter =
     (case as_obj counter of
        None \<Rightarrow> None
      | Some c \<Rightarrow>
          (case as_obj (jget c ''items'') of
             None \<Rightarrow> None
           | Some items \<Rightarrow> Some (case items of [(key, _)] \<Rightarrow> JStr key | _ \<Rightarrow> JObj items)))"

definition node_labels :: "json \<Rightarrow> jobj" where
  "node_labels v =
     (case as_obj v of
        None \<Rightarrow> []
      | Some ob \<Rightarrow> List.map_filter (\<lambda>(name, counter). map_option (Pair name) (label_value counter)) ob)"

record NodeInfo =
  ni_id :: string
  ni_status :: int
  ni_capacity :: "(string \<times> rat) list"
  ni_allocatable :: "(string \<times> rat) list"
  ni_labels :: jobj

definition node_status :: "json \<Rightarrow> int result" where
  "node_status v =
     (case v of
        JInt _ \<Rightarrow> int_of_json v | JFloat _ \<Rightarrow> int_of_json v | JStr _ \<Rightarrow> int_of_json v
      | _ \<Rightarrow> Inl (TypeError ''node status must be an integer-compatible value''))"

definition node_id_text :: "(json \<Rightarrow> string) \<Rightarrow> json \<Rightarrow> string" where
  "node_id_text repr v =
     (case v of
        JStr s \<Rightarrow> s | JInt n \<Rightarrow> str_int n | JBool b \<Rightarrow> if b then ''True'' else ''False''
      | JNull \<Rightarrow> ''None'' | _ \<Rightarrow> repr v)"

definition coerce_node :: "(json \<Rightarrow> string) \<Rightarrow> string \<Rightarrow> jobj \<Rightarrow> client_exc + NodeInfo" where
  "coerce_node repr node_id item =
     (case node_status (jget_or item ''status'' (JInt 0)) of
        Inl _ \<Rightarrow> Inl (PyError (ValueError ''invalid node item''))
      | Inr status \<Rightarrow>
          Inr \<lparr>ni_id = node_id_text repr (jor (jget item ''id'') (JStr node_id)), ni_status = status,
               ni_capacity = resource_values (jget item ''capacity''),
               ni_allocatable = resource_values (jget item ''allocatable''),
               ni_labels = node_labels (jget item ''nodeLabels'')\<rparr>)"

definition resource_fragments :: "jobj \<Rightarrow> jobj" where
  "resource_fragments payload =
     (case as_obj (jget payload ''resource'') of
        None \<Rightarrow> []
      | Some r \<Rightarrow> (case as_obj (jget r ''fragment'') of None \<Rightarrow> [] | Some fragments \<Rightarrow> fragments))"

definition nodes_of :: "(json \<Rightarrow> string) \<Rightarrow> jobj \<Rightarrow> client_exc + NodeInfo list" where
  "nodes_of repr payload =
     map_result (\<lambda>(node_id, item). coerce_node repr node_id item)
       (List.map_filter (\<lambda>(node_id, v). map_option (Pair node_id) (as_obj v)) (resource_fragments payload))"

text \<open>\<open>finally\<close>: the client is closed whether the query returns or raises.\<close>

definition resources ::
  "(json \<Rightarrow> string) \<Rightarrow> ConnectionConfig obj_arg \<Rightarrow> ('s, unit) action \<Rightarrow> ('s, jobj) action \<Rightarrow> ('s, unit) action
     \<Rightarrow> ('s, NodeInfo list) action" where
  "resources repr connection open_client query close_client =
     (case connection of
        OtherObj _ \<Rightarrow> act_raise (PyError (TypeError ''connection must be a ConnectionConfig or None''))
      | _ \<Rightarrow>
          act_bind open_client (\<lambda>_.
          act_bind (act_try query) (\<lambda>r.
          act_bind close_client (\<lambda>_.
          act_bind (act_lift r) (\<lambda>payload.
            act_lift (nodes_of repr payload))))))"

text \<open>
  What is decoded. Every node of the answer that is an object is one node of the result, in order, under
  its own id or else its key; values that are no numbers are left out.
\<close>

lemma nodes_of_ids:
  assumes "nodes_of repr payload = Inr nodes"
  shows "map ni_id nodes =
    List.map_filter (\<lambda>(node_id, v). map_option (\<lambda>item. node_id_text repr (jor (jget item ''id'') (JStr node_id))) (as_obj v))
      (resource_fragments payload)"
proof -
  have "map ni_id nodes = map (\<lambda>(node_id, item). node_id_text repr (jor (jget item ''id'') (JStr node_id))) items"
    if "map_result (\<lambda>(node_id, item). coerce_node repr node_id item) items = Inr nodes" for items
    using that
    by (induction items arbitrary: nodes)
       (auto simp: bind_result_eq_Inr coerce_node_def split: sum.splits)
  from this [OF assms [unfolded nodes_of_def]] show ?thesis
    by (auto simp: map_filter_def comp_def split: prod.splits intro!: map_cong arg_cong [of _ _ "\<lambda>f. filter f _"])
qed

lemma resource_values_numbers:
  "(name, q) \<in> set (resource_values v) \<Longrightarrow>
     \<exists>ob rs r. v = JObj ob \<and> jget ob ''resources'' = JObj rs \<and> (name, r) \<in> set rs \<and> resource_scalar r = Some q"
  by (auto simp: resource_values_def map_filter_def split: option.splits dest!: sym [of "Some _" "as_obj _"])

lemma resources_closes:
  assumes "open_client s = (Inr (), s1)" "query s1 = (r, s2)" "close_client s2 = (Inr (), s3)"
    and "connection = NoObj \<or> (\<exists>c. connection = TheObj c)"
  shows "resources repr connection open_client query close_client s = (bind_result r (nodes_of repr), s3)"
  using assms by (cases r) (auto simp: resources_def act_try_def act_lift_def act_bind_def split: prod.splits)

end
