(* ===== verification/Cli.thy ===== *)
theory Cli
  imports Filesystem
begin

text \<open>
  The \<open>yr-sandbox\<close> command (\<open>cli.py\<close>): one call of a \<open>SandboxClient\<close> per subcommand, what is printed,
  and the exit code. The client is a record of actions; \<open>argparse\<close> is an argument of \<open>main\<close>, which gives
  the exit code of a usage error or a subcommand with its defaults filled in.
\<close>

datatype cli_command =
    CliCreate "string option" int int
  | CliDelete string
  | CliExec string string int
  | CliLs string string

record 's cli_client =
  cc_create :: "jobj \<Rightarrow> ('s, json) action"
  cc_delete :: "string \<Rightarrow> ('s, unit) action"
  cc_invoke :: "string \<Rightarrow> string \<Rightarrow> jobj \<Rightarrow> int option \<Rightarrow> ('s, jobj) action"
  cc_close :: "('s, unit) action"
  cc_str :: "json \<Rightarrow> string"

text \<open>The state of the client, and what went to the two output streams.\<close>

record 's cli_state =
  cs_client :: 's
  cs_out :: string
  cs_err :: string

definition on_client :: "('s, 'a) action \<Rightarrow> ('s cli_state, 'a) action" where
  "on_client m w = (case m (cs_client w) of (r, s) \<Rightarrow> (r, w\<lparr>cs_client := s\<rparr>))"

definition write_out :: "string \<Rightarrow> ('s cli_state, unit) action" where
  "write_out s w = (Inr (), w\<lparr>cs_out := cs_out w @ s\<rparr>)"

definition write_err :: "string \<Rightarrow> ('s cli_state, unit) action" where
  "write_err s w = (Inr (), w\<lparr>cs_err := cs_err w @ s\<rparr>)"

definition print_line :: "string \<Rightarrow> ('s cli_state, unit) action" where
  "print_line s = write_out (s @ [CHR 0x0A])"

text \<open>\<open>sys.stdout.write(v)\<close> takes strings only.\<close>

definition write_value :: "(string \<Rightarrow> ('s cli_state, unit) action) \<Rightarrow> json \<Rightarrow> ('s cli_state, unit) action" where
  "write_value write v =
     (case v of
        JStr s \<Rightarrow> write s
      | _ \<Rightarrow> act_raise (PyError (TypeError ''write() argument must be str'')))"

definition create_body :: "string option \<Rightarrow> int \<Rightarrow> int \<Rightarrow> jobj" where
  "create_body img cpu memory =
     [(''cpu'', JInt cpu), (''memory'', JInt memory), (''namespace'', JStr ''default'')]
     @ (case img of
          Some (c # s) \<Rightarrow>
            [(''rootfs'', JObj [(''runtime'', JStr ''runsc''), (''type'', JStr ''image''),
               (''readonly'', JBool False), (''imageurl'', JStr (c # s))])]
        | _ \<Rightarrow> [])"

definition entry_line :: "'s cli_client \<Rightarrow> json \<Rightarrow> client_exc + string" where
  "entry_line c e =
     (case as_obj e of
        None \<Rightarrow> Inl (PyError (TypeError ''entry is not a dictionary''))
      | Some d \<Rightarrow>
          bind_result (jindex d ''permissions'') (\<lambda>p.
          bind_result (jindex d ''size'') (\<lambda>n.
          bind_result (jindex d ''name'') (\<lambda>name.
            Inr (cc_str c p @ [CHR 0x09] @ cc_str c n @ [CHR 0x09] @ cc_str c name)))))"

fun print_entries :: "'s cli_client \<Rightarrow> json list \<Rightarrow> ('s cli_state, unit) action" where
  "print_entries c [] = act_return ()"
| "print_entries c (e # es) =
     act_bind (act_lift (entry_line c e)) (\<lambda>line.
     act_bind (print_line line) (\<lambda>_. print_entries c es))"

definition cli_run :: "'s cli_client \<Rightarrow> cli_command \<Rightarrow> ('s cli_state, int) action" where
  "cli_run c command =
     (case command of
        CliCreate img cpu memory \<Rightarrow>
          act_bind (on_client (cc_create c (create_body img cpu memory))) (\<lambda>sid.
          act_bind (print_line (cc_str c sid)) (\<lambda>_. act_return 0))
      | CliDelete sid \<Rightarrow>
          act_bind (on_client (cc_delete c sid)) (\<lambda>_.
          act_bind (print_line (''deleted '' @ sid)) (\<lambda>_. act_return 0))
      | CliExec sid cmd timeout \<Rightarrow>
          act_bind (on_client (cc_invoke c sid ''process.exec''
              [(''cmd'', JStr cmd), (''timeout'', JInt timeout)] (Some timeout))) (\<lambda>result.
          act_bind (write_value write_out (jget_or result ''stdout'' (JStr []))) (\<lambda>_.
          act_bind (write_value write_err (jget_or result ''stderr'' (JStr []))) (\<lambda>_.
            act_lift (jint (jget_or result ''exit_code'' (JInt 0))))))
      | CliLs sid path \<Rightarrow>
          act_bind (on_client (cc_invoke c sid ''file.list''
              [(''path'', JStr path), (''depth'', JInt 1)] None)) (\<lambda>result.
          act_bind (act_lift (map_sum PyError id (py_iter (jget_or result ''entries'' (JList []))))) (\<lambda>es.
          act_bind (print_entries c es) (\<lambda>_. act_return 0))))"

text \<open>\<open>opened\<close> is \<open>SandboxClient()\<close>; what it raises leaves \<open>main\<close> before there is a client to close.\<close>

definition cli_main ::
  "(string list \<Rightarrow> int + cli_command) \<Rightarrow> ('s, unit) action \<Rightarrow> 's cli_client \<Rightarrow> string list \<Rightarrow> ('s cli_state, int) action" where
  "cli_main parse opened c argv =
     (case parse argv of
        Inl code \<Rightarrow> act_return code
      | Inr command \<Rightarrow>
          act_bind (on_client opened) (\<lambda>_. act_finally (cli_run c command) (on_client (cc_close c))))"

text \<open>
  Whatever the call came to, the client is closed once, after it; and a command that ran is reported with
  its own output and exit code.
\<close>

lemma main_closes:
  assumes "parse argv = Inr command" "opened (cs_client w) = (Inr (), s\<^sub>1)"
    and "cli_run c command (w\<lparr>cs_client := s\<^sub>1\<rparr>) = (r, w\<^sub>2)" "cc_close c (cs_client w\<^sub>2) = (Inr (), s\<^sub>3)"
  shows "cli_main parse opened c argv w = (r, w\<^sub>2\<lparr>cs_client := s\<^sub>3\<rparr>)"
  using assms by (simp add: cli_main_def act_bind_def act_finally_def act_try_def act_lift_def on_client_def)

lemma exec_reports:
  assumes "cc_invoke c sid ''process.exec'' [(''cmd'', JStr cmd), (''timeout'', JInt t)] (Some t) (cs_client w)
      = (Inr [(''stdout'', JStr out), (''stderr'', JStr err), (''exit_code'', JInt n)], s)"
  shows "cli_run c (CliExec sid cmd t) w
    = (Inr n, w\<lparr>cs_client := s, cs_out := cs_out w @ out, cs_err := cs_err w @ err\<rparr>)"
  using assms
  by (simp add: cli_run_def act_bind_def on_client_def write_value_def write_out_def write_err_def act_lift_def
      jget_or_def jint_def int_of_json_def)

end
